(* ===== verification/Prelude.thy ===== *)
theory Prelude
  imports Complex_Main "HOL-Library.Word"
begin

section \<open>Prelude: outcomes of C calls, bytes, fixed-width integers\<close>

text \<open>
  What every component shares: the outcome of a C function of the extension module, the
  error-jump macros of \<^verbatim>\<open>csrc/util.h\<close>, memory reads with their bounds, and the fixed-width
  integer encodings of the wire formats.

  A C function that the interpreter calls either returns an object (\<open>Ret\<close>), returns
  \<^verbatim>\<open>NULL\<close> with an exception set (\<open>Raise\<close>), stops the process in a failed
  \<^verbatim>\<open>assert\<close> or in \<^verbatim>\<open>panic()\<close> (\<open>Abort\<close>), or does something C gives no
  meaning to, such as reading outside an object (\<open>Undef\<close>). A \<^verbatim>\<open>NULL\<close> that is
  returned with no exception set is what the interpreter reports as \<open>SystemError\<close>.
\<close>

unbundle bit_operations_syntax

named_theorems outcome_simps \<open>equations that evaluate the control flow of the model\<close>
named_theorems wire_simps \<open>equations about the byte strings of the wire formats\<close>

type_synonym byte = "8 word"
type_synonym bytes = "byte list"
type_synonym u32 = "32 word"

subsection \<open>Outcomes\<close>

datatype py_exc =
    TypeError | ValueError | MemoryError | IOError | NotImplementedError | OverflowError
  | SystemError | AttributeError | ImportError
  | NDNError | NDNNameError | NDNKeyLocatorError | NDNSignatureError | NDNSignedInfoError
  | NDNInterestError | NDNExclusionFilterError | NDNKeyError | NDNDataError
  | DataException | StructError | AssertionError | ThreadError | ZeroDivisionError | IndexError | RuntimeError | RegexError | ReError

datatype 'a outcome = Ret 'a | Raise py_exc | Abort | Undef

fun bnd :: "'a outcome \<Rightarrow> ('a \<Rightarrow> 'b outcome) \<Rightarrow> 'b outcome" where
  "bnd (Ret x) k = k x"
| "bnd (Raise e) k = Raise e"
| "bnd Abort k = Abort"
| "bnd Undef k = Undef"

lemma bnd_Ret_right [simp]: "bnd m Ret = m"
  by (cases m) auto

lemma bnd_assoc [outcome_simps]: "bnd (bnd m f) g = bnd m (\<lambda>x. bnd (f x) g)"
  by (cases m) auto

lemma bnd_eq_Ret: "bnd m k = Ret y \<longleftrightarrow> (\<exists>x. m = Ret x \<and> k x = Ret y)"
  by (cases m) auto

lemma bnd_cong [fundef_cong]:
  "m = m' \<Longrightarrow> (\<And>x. m' = Ret x \<Longrightarrow> k x = k' x) \<Longrightarrow> bnd m k = bnd m' k'"
  by (cases m') auto

definition is_ret :: "'a outcome \<Rightarrow> bool" where
  "is_ret m \<longleftrightarrow> (case m of Ret _ \<Rightarrow> True | _ \<Rightarrow> False)"

definition is_crash :: "'a outcome \<Rightarrow> bool" where
  "is_crash m \<longleftrightarrow> (case m of Abort \<Rightarrow> True | Undef \<Rightarrow> True | _ \<Rightarrow> False)"

lemma is_ret_simps [simp]:
  "is_ret (Ret x)" "\<not> is_ret (Raise e)" "\<not> is_ret Abort" "\<not> is_ret Undef"
  by (auto simp: is_ret_def)

lemma is_crash_simps [simp]:
  "\<not> is_crash (Ret x)" "\<not> is_crash (Raise e)" "is_crash Abort" "is_crash Undef"
  by (auto simp: is_crash_def)

text \<open>Running one call per element, left to right, stopping at the first that fails.\<close>

fun traverse :: "('a \<Rightarrow> 'b outcome) \<Rightarrow> 'a list \<Rightarrow> 'b list outcome" where
  "traverse f [] = Ret []"
| "traverse f (x # xs) = bnd (f x) (\<lambda>y. bnd (traverse f xs) (\<lambda>ys. Ret (y # ys)))"

lemma traverse_Ret:
  "(\<And>x. x \<in> set xs \<Longrightarrow> f x = Ret (g x)) \<Longrightarrow> traverse f xs = Ret (map g xs)"
  by (induction xs) auto

lemma traverse_map_Ret:
  "(\<And>i. i \<in> set is \<Longrightarrow> f (h i) = Ret (g i)) \<Longrightarrow> traverse f (map h is) = Ret (map g is)"
  by (induction "is") auto

lemma traverse_length: "traverse f xs = Ret ys \<Longrightarrow> length ys = length xs"
  by (induction xs arbitrary: ys) (auto simp: bnd_eq_Ret)

subsection \<open>The error jumps of util.h\<close>

text \<open>
  \<^verbatim>\<open>JUMP_IF_NEG_MEM(r, error)\<close>: a negative status of the library sets
  \<open>MemoryError\<close>. \<^verbatim>\<open>JUMP_IF_NEG(r, error)\<close> on a call that sets no exception itself
  leaves the interpreter to report \<open>SystemError\<close>. \<^verbatim>\<open>JUMP_IF_NULL_MEM\<close> is the
  same for an allocation.
\<close>

definition jump_if_neg_mem :: "int \<Rightarrow> 'a outcome \<Rightarrow> 'a outcome" where
  "jump_if_neg_mem r k = (if r < 0 then Raise MemoryError else k)"

definition jump_if_neg :: "int \<Rightarrow> 'a outcome \<Rightarrow> 'a outcome" where
  "jump_if_neg r k = (if r < 0 then Raise SystemError else k)"

definition jump_if_null_mem :: "bool \<Rightarrow> 'a outcome \<Rightarrow> 'a outcome" where
  "jump_if_null_mem present k = (if present then k else Raise MemoryError)"

text \<open>A library call returns its status and the buffer it wrote.\<close>

definition try_mem :: "int \<times> 'b \<Rightarrow> ('b \<Rightarrow> 'a outcome) \<Rightarrow> 'a outcome" where
  "try_mem rb k = jump_if_neg_mem (fst rb) (k (snd rb))"

definition try_neg :: "int \<times> 'b \<Rightarrow> ('b \<Rightarrow> 'a outcome) \<Rightarrow> 'a outcome" where
  "try_neg rb k = jump_if_neg (fst rb) (k (snd rb))"

lemma try_mem_simps [simp]:
  "0 \<le> r \<Longrightarrow> try_mem (r, b) k = k b"
  "r < 0 \<Longrightarrow> try_mem (r, b) k = Raise MemoryError"
  by (auto simp: try_mem_def jump_if_neg_mem_def)

lemma try_neg_simps [simp]:
  "0 \<le> r \<Longrightarrow> try_neg (r, b) k = k b"
  "r < 0 \<Longrightarrow> try_neg (r, b) k = Raise SystemError"
  by (auto simp: try_neg_def jump_if_neg_def)

lemma bnd_try_mem [outcome_simps]: "bnd (try_mem rb k) f = try_mem rb (\<lambda>b. bnd (k b) f)"
  by (simp add: try_mem_def jump_if_neg_mem_def)

subsection \<open>The build and its memory\<close>

text \<open>
  \<open>ndebug\<close> says whether the module is compiled with \<^verbatim>\<open>NDEBUG\<close>, that is, whether
  \<^verbatim>\<open>assert\<close> disappears. \<open>mem\<close> says which allocations succeed, one answer per
  kind of allocation.
\<close>

datatype alloc_site =
    A_charbuf | A_indexbuf | A_capsule | A_context | A_closure | A_run_state
  | A_parsed | A_digest | A_nc_state | A_message

record env =
  ndebug :: bool
  mem :: "alloc_site \<Rightarrow> bool"

definition allocs_ok :: "'e env_scheme \<Rightarrow> bool" where
  "allocs_ok E \<longleftrightarrow> (\<forall>a \<in> set [A_charbuf, A_indexbuf, A_capsule, A_context, A_closure, A_run_state,
                        A_parsed, A_digest, A_nc_state, A_message]. mem E a)"

lemma allocs_okD [simp]: "allocs_ok E \<Longrightarrow> mem E a"
  by (cases a) (simp_all add: allocs_ok_def)

definition c_assert :: "'e env_scheme \<Rightarrow> bool \<Rightarrow> 'a outcome \<Rightarrow> 'a outcome" where
  "c_assert E c k = (if ndebug E \<or> c then k else Abort)"

lemma c_assert_simps [simp]:
  "c_assert E True k = k"
  "ndebug E \<Longrightarrow> c_assert E c k = k"
  "\<not> ndebug E \<Longrightarrow> c_assert E False k = Abort"
  by (auto simp: c_assert_def)

subsection \<open>Reading memory\<close>

definition mem_read :: "bytes \<Rightarrow> nat \<Rightarrow> nat \<Rightarrow> bytes outcome" where
  "mem_read buf off n = (if off + n \<le> length buf then Ret (take n (drop off buf)) else Undef)"

lemma mem_read_mid [wire_simps]:
  "length xs = off \<Longrightarrow> length ys = n \<Longrightarrow> mem_read (xs @ ys @ zs) off n = Ret ys"
  by (simp add: mem_read_def)

lemma mem_read_length: "mem_read buf off n = Ret xs \<Longrightarrow> length xs = n"
  by (auto simp: mem_read_def split: if_splits)

lemma mem_read_drop: "mem_read buf off n = Ret xs \<Longrightarrow> drop off buf = xs @ drop (off + n) buf"
  by (auto simp: mem_read_def add.commute append_take_drop_id
      simp flip: drop_drop split: if_splits)

lemma take_drop_step: "take n (drop p xs) @ drop (p + n) xs = drop p xs"
  by (metis append_take_drop_id drop_drop add.commute)

subsection \<open>Fixed-width integers\<close>

lemma unat_byte [simp]: "unat (b :: byte) < 256"
  using unsigned_less [of b] by simp

lemma byte_high_bit: "8 \<le> n \<Longrightarrow> \<not> bit (b :: byte) n"
  using bit_imp_le_length [of b n] by auto

text \<open>The value of an integer expression assigned to an \<^verbatim>\<open>int\<close> (two's complement).\<close>

definition to_int32 :: "int \<Rightarrow> int" where
  "to_int32 x = signed_take_bit 31 x"

lemma to_int32_id: "- (2 ^ 31) \<le> x \<Longrightarrow> x < 2 ^ 31 \<Longrightarrow> to_int32 x = x"
  by (simp add: to_int32_def signed_take_bit_int_eq_self)

lemma to_int32_bounds: "- (2 ^ 31) \<le> to_int32 x \<and> to_int32 x < 2 ^ 31"
  using signed_take_bit_int_greater_eq_minus_exp [of 31 x]
    signed_take_bit_int_less_exp [of 31 x]
  by (simp add: to_int32_def)

lemma unat_of_nat_small:
  "n < 2 ^ LENGTH('a::len) \<Longrightarrow> unat (of_nat n :: 'a word) = n"
  by (simp add: unat_of_nat take_bit_nat_eq_self)

lemma of_nat_u32_eq:
  "a < 2 ^ 32 \<Longrightarrow> b < 2 ^ 32 \<Longrightarrow> (of_nat a :: u32) = of_nat b \<longleftrightarrow> a = b"
  by (simp add: word_unat_eq_iff unat_of_nat take_bit_nat_eq_self)

text \<open>C's division truncates towards zero.\<close>

definition c_div :: "int \<Rightarrow> int \<Rightarrow> int" where
  "c_div a b = sgn a * sgn b * (\<bar>a\<bar> div \<bar>b\<bar>)"

lemma c_div_abs: "0 < b \<Longrightarrow> \<bar>c_div a b\<bar> = \<bar>a\<bar> div b"
  by (auto simp: c_div_def abs_mult sgn_if pos_imp_zdiv_nonneg_iff)

text \<open>A 32-bit word in network byte order: \<^verbatim>\<open>htonl\<close> and the four bytes it is stored as.\<close>

definition be32 :: "u32 \<Rightarrow> bytes" where
  "be32 w = [ucast (drop_bit 24 w), ucast (drop_bit 16 w), ucast (drop_bit 8 w), ucast w]"

fun rd_be32 :: "bytes \<Rightarrow> u32" where
  "rd_be32 [a, b, c, d] =
     push_bit 24 (ucast a) OR push_bit 16 (ucast b) OR push_bit 8 (ucast c) OR ucast d"
| "rd_be32 _ = 0"

lemma length_be32 [simp, wire_simps]: "length (be32 w) = 4"
  by (simp add: be32_def)

lemma rd_be32_be32 [simp, wire_simps]: "rd_be32 (be32 w) = w"
proof (rule bit_word_eqI)
  fix n :: nat
  assume "n < LENGTH(32)"
  then consider "n < 8" | "8 \<le> n" "n < 16" | "16 \<le> n" "n < 24" | "24 \<le> n" "n < 32"
    by fastforce
  then show "bit (rd_be32 (be32 w)) n = bit w n"
    by cases (auto simp: be32_def bit_simps)
qed

lemma be32_rd_be32: "length b = 4 \<Longrightarrow> be32 (rd_be32 b) = b"
proof -
  assume "length b = 4"
  then obtain x y z w where b: "b = [x, y, z, w]"
    by (auto simp: length_Suc_conv eval_nat_numeral)
  show "be32 (rd_be32 b) = b"
    unfolding b be32_def by (auto intro!: bit_word_eqI simp: bit_simps byte_high_bit)
qed

subsection \<open>Memoised lookups\<close>

text \<open>
  Several components keep the result of a computation beside the data it comes from: the
  type table, the parsed forms of an interest and of a content object. \<open>get\<close> is the lookup,
  \<open>cached\<close> what the state remembers, \<open>compute\<close> what the lookup stands for.
\<close>

locale memo =
  fixes get :: "'s \<Rightarrow> 'r outcome \<times> 's"
    and cached :: "'s \<Rightarrow> 'r option"
    and compute :: "'s \<Rightarrow> 'r outcome"
  assumes hit: "cached s = Some r \<Longrightarrow> get s = (Ret r, s)"
    and miss: "cached s = None \<Longrightarrow> fst (get s) = compute s"
    and fill: "cached s = None \<Longrightarrow> compute s = Ret r \<Longrightarrow> cached (snd (get s)) = Some r"
    and stable: "compute (snd (get s)) = compute s"
begin

definition consistent :: "'s \<Rightarrow> bool" where
  "consistent s \<longleftrightarrow> (\<forall>r. cached s = Some r \<longrightarrow> compute s = Ret r)"

lemma get_computes: "consistent s \<Longrightarrow> fst (get s) = compute s"
  by (cases "cached s") (auto simp: consistent_def hit miss)

lemma get_again: "fst (get s) = Ret r \<Longrightarrow> get (snd (get s)) = (Ret r, snd (get s))"
  by (cases "cached s") (auto simp: hit miss fill)

end

locale clean_memo = memo +
  assumes keep: "cached s = None \<Longrightarrow> (\<And>r. compute s \<noteq> Ret r) \<Longrightarrow> cached (snd (get s)) = None"
begin

lemma consistent_get: "consistent s \<Longrightarrow> consistent (snd (get s))"
  by (cases "cached s"; cases "compute s") (auto simp: consistent_def hit fill stable keep)

lemma get_retry: "consistent s \<Longrightarrow> fst (get (snd (get s))) = compute s"
  using consistent_get [of s] get_computes [of "snd (get s)"] by (simp add: stable)

end

end
