(* ===== verification/Doubles.thy ===== *)
theory Doubles
  imports Prelude
begin

section \<open>Double arithmetic on whole numbers\<close>

text \<open>
  The roundings to 53 bits that the program makes, in C where a lifetime is read and in
  Python where segments are counted, as functions on natural numbers; with their error, and
  the cases in which there is none.
\<close>

subsection \<open>Rounding\<close>

fun bit_length :: "nat \<Rightarrow> nat" where
  "bit_length n = (if n = 0 then 0 else Suc (bit_length (n div 2)))"

declare bit_length.simps [simp del]

definition round53 :: "nat \<Rightarrow> nat" where
  "round53 n =
     (let e = bit_length n - 53; q = n div 2 ^ e; r = n mod 2 ^ e in
      if e = 0 then n
      else if 2 * r < 2 ^ e \<or> (2 * r = 2 ^ e \<and> even q) then q * 2 ^ e
      else (q + 1) * 2 ^ e)"

lemma bit_length_bound: "n < 2 ^ k \<Longrightarrow> bit_length n \<le> k"
proof (induction n arbitrary: k rule: bit_length.induct)
  case (1 n)
  show ?case
  proof (cases "n = 0")
    case True
    then show ?thesis by (simp add: bit_length.simps)
  next
    case False
    then obtain j where k: "k = Suc j"
      using "1.prems" by (cases k) auto
    then have "n div 2 < 2 ^ j" using "1.prems" by simp
    then show ?thesis
      using "1.IH" [OF False] False k by (subst bit_length.simps) simp
  qed
qed

lemma round53_small: "n < 2 ^ 53 \<Longrightarrow> round53 n = n"
  using bit_length_bound [of n 53] by (simp add: round53_def Let_def)

subsection \<open>Division\<close>

text \<open>
  The quotient of two positive numbers as a double: enough bits of the quotient, the last one
  standing for the rest, rounded to 53 bits.
\<close>

definition float_div :: "nat \<Rightarrow> nat \<Rightarrow> rat" where
  "float_div a b =
     (let s = 55 + bit_length b; x = a * 2 ^ s;
          n = 2 * (x div b) + (if x mod b = 0 then 0 else 1) in
      of_nat (round53 n) / 2 ^ (s + 1))"

lemma bit_length_ge: "n \<noteq> 0 \<Longrightarrow> 2 ^ (bit_length n - 1) \<le> n"
proof (induction n rule: bit_length.induct)
  case (1 n)
  show ?case
  proof (cases "n div 2 = 0")
    case True
    then show ?thesis
      using "1.prems" by (simp add: bit_length.simps [of n] bit_length.simps [of 0])
  next
    case False
    then obtain k where k: "bit_length (n div 2) = Suc k"
      by (simp add: bit_length.simps [of "n div 2"])
    then have "2 ^ k \<le> n div 2"
      using "1.IH" "1.prems" False by simp
    then have "2 * 2 ^ k \<le> n"
      by simp
    then show ?thesis
      using "1.prems" k by (simp add: bit_length.simps [of n])
  qed
qed

text \<open>Rounding to 53 bits is off by at most \<open>2 ^ - 53\<close> of the number, and exact where 53 bits are enough.\<close>

lemma round53_error: "\<bar>int (round53 n) - int n\<bar> * 2 ^ 53 \<le> int n"
proof (cases "bit_length n \<le> 53")
  case True
  then show ?thesis by (simp add: round53_def)
next
  case False
  define e where "e = bit_length n - 53"
  obtain d where d: "e = Suc d"
    using False by (cases e) (auto simp: e_def)
  have n: "n = n div 2 ^ e * 2 ^ e + n mod 2 ^ e" and r: "n mod 2 ^ e < 2 ^ e"
    by (rule div_mult_mod_eq [symmetric]) simp
  have "\<bar>int (round53 n) - int n\<bar> \<le> 2 ^ d"
  proof (cases "2 * (n mod 2 ^ e) < 2 ^ e \<or> 2 * (n mod 2 ^ e) = 2 ^ e \<and> even (n div 2 ^ e)")
    case True
    then have "round53 n = n div 2 ^ e * 2 ^ e" "n mod 2 ^ e \<le> 2 ^ d"
      using d by (auto simp: round53_def Let_def e_def)
    then have "int n - int (round53 n) = int (n mod 2 ^ e)" "n mod 2 ^ e \<le> 2 ^ d"
      using n by (metis add_diff_cancel_left' of_nat_add, simp)
    then show ?thesis by simp
  next
    case False
    then have "round53 n = n div 2 ^ e * 2 ^ e + 2 ^ e" "2 ^ d \<le> n mod 2 ^ e"
      using d by (auto simp: round53_def Let_def e_def)
    then have "int (round53 n) - int n = 2 ^ e - int (n mod 2 ^ e)" "2 ^ d \<le> int (n mod 2 ^ e)"
      using arg_cong [OF n, of int] by auto
    moreover have "int (n mod 2 ^ e) < 2 ^ e"
      using r by simp
    ultimately show ?thesis using d by simp
  qed
  then have "\<bar>int (round53 n) - int n\<bar> * 2 ^ 53 \<le> 2 ^ d * 2 ^ 53"
    by (rule mult_right_mono) simp
  also have "\<dots> = 2 ^ (bit_length n - 1)"
  proof -
    have "bit_length n - 1 = d + 53"
      using d False by (simp add: e_def)
    then show ?thesis by (simp only: power_add)
  qed
  also have "\<dots> \<le> int n"
    using bit_length_ge [of n] False by (cases "n = 0") (auto simp: bit_length.simps [of 0] simp flip: of_nat_le_iff)
  finally show ?thesis .
qed

lemma round53_exact: "k < 2 ^ 53 \<Longrightarrow> round53 (k * 2 ^ j) = k * 2 ^ j"
proof -
  assume "k < 2 ^ 53"
  then have "k * 2 ^ j < 2 ^ (53 + j)"
    by (simp add: power_add)
  then have "bit_length (k * 2 ^ j) - 53 \<le> j"
    using bit_length_bound [of "k * 2 ^ j" "53 + j"] by simp
  then have "2 ^ (bit_length (k * 2 ^ j) - 53) dvd k * 2 ^ j"
    by (simp add: dvd_mult le_imp_power_dvd)
  then show ?thesis
    by (auto simp: round53_def Let_def)
qed

lemma bit_length_less: "n < 2 ^ bit_length n"
proof (induction n rule: bit_length.induct)
  case (1 n)
  then show ?case
    by (cases "n = 0") (auto simp: bit_length.simps [of n] less_mult_imp_div_less div_less_iff_less_mult
        mult.commute)
qed

text \<open>
  The rounded quotient lies between the same whole numbers as the exact one: from an
  inaccuracy of the bits below \<open>b\<close> and an error of \<open>2 ^ - 53\<close>, with \<open>P\<close> the scale.
\<close>

lemma close_quotient:
  fixes a b n R P :: int
  assumes "\<bar>b * n - a * P\<bar> \<le> b" "\<bar>R - n\<bar> * 2 ^ 53 \<le> n" "b * (2 ^ 53 + 1) < P" "a < 2 ^ 53" "0 < b"
  shows "\<bar>b * R - a * P\<bar> < P"
proof -
  have "\<bar>b * R - b * n\<bar> * 2 ^ 53 = b * (\<bar>R - n\<bar> * 2 ^ 53)"
    using assms(5) by (simp add: abs_mult flip: right_diff_distrib)
  also have "\<dots> \<le> b * n"
    using assms(2,5) by (intro mult_left_mono) auto
  finally have "(\<bar>b * R - b * n\<bar> + b) * 2 ^ 53 \<le> b * n + b * 2 ^ 53"
    by (simp add: distrib_right)
  then have "(\<bar>b * R - b * n\<bar> + b) * 2 ^ 53 \<le> a * P + b + b * 2 ^ 53"
    using assms(1) by linarith
  moreover have "\<bar>b * R - a * P\<bar> * 2 ^ 53 \<le> (\<bar>b * R - b * n\<bar> + b) * 2 ^ 53"
    using assms(1) by (intro mult_right_mono) auto
  ultimately have "\<bar>b * R - a * P\<bar> * 2 ^ 53 \<le> a * P + b * (2 ^ 53 + 1)"
    by (simp add: algebra_simps)
  moreover have "0 < P"
    using assms(3,5) by (smt (verit) mult_pos_pos zero_less_power)
  then have "a * P \<le> (2 ^ 53 - 1) * P"
    using assms(4) by (intro mult_right_mono) auto
  then have "a * P + b * (2 ^ 53 + 1) < P * 2 ^ 53"
    using assms(3) by (simp add: algebra_simps)
  ultimately have "\<bar>b * R - a * P\<bar> * 2 ^ 53 < P * 2 ^ 53"
    by (rule le_less_trans)
  then show ?thesis by simp
qed

lemma between_multiples:
  fixes a b k r R P :: int
  assumes "\<bar>b * R - a * P\<bar> < P" "a = k * b + r" "0 < r" "r < b"
  shows "k * P < R" and "R < (k + 1) * P"
proof -
  have P: "P \<le> r * P" "r * P + P \<le> b * P"
    using assms mult_right_mono [of 1 r P] mult_right_mono [of "r + 1" b P] by (auto simp: distrib_right)
  have a: "a * P = b * (k * P) + r * P"
    using assms(2) by (simp add: distrib_right)
  have "b * (k * P) < b * R"
    using assms(1) P(1) unfolding a by linarith
  then show "k * P < R"
    using assms(3,4) by simp
  have "b * R < b * (k * P) + b * P"
    using assms(1) P(2) unfolding a by linarith
  then show "R < (k + 1) * P"
    using assms(3,4) by (simp add: distrib_right flip: distrib_left)
qed

lemma float_div_between:
  assumes "a < 2 ^ 53" "0 < b"
  shows "\<lceil>float_div a b\<rceil> = int ((a + b - 1) div b)"
proof -
  define s x where "s = 55 + bit_length b" and "x = a * 2 ^ s"
  define n where "n = 2 * (x div b) + (if x mod b = 0 then 0 else 1)"
  let ?P = "2 ^ (s + 1) :: int" and ?R = "round53 n"
  have q: "float_div a b = of_nat ?R / 2 ^ (s + 1)"
    by (simp add: float_div_def Let_def s_def x_def n_def power_add)
  define k r where "k = a div b" and "r = a mod b"
  have a: "a = k * b + r" and r: "r < b"
    using assms(2) by (simp_all add: k_def r_def)
  show ?thesis
  proof (cases "r = 0")
    case True
    then have "n = k * 2 ^ (s + 1)"
      using assms(2) a by (simp add: n_def x_def mult.assoc mult.left_commute [of _ b])
    moreover have "k < 2 ^ 53"
      using a assms by (metis div_le_dividend k_def le_less_trans)
    ultimately have "float_div a b = of_nat k"
      using round53_exact [of k "s + 1"] by (simp add: q)
    moreover have "(a + b - 1) div b = k"
      using a True assms(2) by (intro div_nat_eqI) (auto simp: mult.commute)
    ultimately show ?thesis by simp
  next
    case False
    have "b * (2 ^ 53 + 1) < b * 2 ^ 56"
      using assms(2) by simp
    also have "\<dots> < 2 ^ bit_length b * 2 ^ 56"
      using bit_length_less by (intro mult_strict_right_mono) auto
    also have "\<dots> = 2 ^ (s + 1)"
      by (simp add: s_def power_add)
    finally have "int (b * (2 ^ 53 + 1)) < int (2 ^ (s + 1))"
      by (simp only: of_nat_less_iff)
    then have P: "int b * (2 ^ 53 + 1) < ?P"
      by simp
    have x: "int x = int b * int (x div b) + int (x mod b)" and "x mod b < b"
      using assms(2) by (simp_all flip: of_nat_mult of_nat_add)
    then have "\<bar>int b * int n - 2 * int x\<bar> \<le> int b"
      by (cases "x mod b = 0") (simp_all add: n_def distrib_left)
    then have "\<bar>int b * int ?R - int a * ?P\<bar> < ?P"
      using round53_error [of n] P assms
      by (intro close_quotient [of "int b" "int n"]) (simp_all add: x_def mult.left_commute)
    then have "int k * ?P < int ?R" "int ?R < (int k + 1) * ?P"
      using between_multiples [of "int b" "int ?R" "int a" ?P "int k" "int r"] False r a by simp_all
    then have "rat_of_int (int k * ?P) < rat_of_int (int ?R)" "rat_of_int (int ?R) < rat_of_int ((int k + 1) * ?P)"
      by (simp_all only: of_int_less_iff)
    then have "of_nat k < float_div a b" "float_div a b \<le> of_nat k + 1"
      by (simp_all add: q field_simps)
    then have "\<lceil>float_div a b\<rceil> = int k + 1"
      by (intro ceiling_unique) simp_all
    moreover have "(a + b - 1) div b = k + 1"
      using a False r assms(2) by (intro div_nat_eqI) (auto simp: mult.commute)
    ultimately show ?thesis by simp
  qed
qed

end
