(* ===== verification/PyValues.thy ===== *)
theory PyValues
  imports Prelude "HOL-Library.AList"
begin

section \<open>The values the module exchanges with the interpreter\<close>

text \<open>
  The Python objects the C code receives and builds, as values; the C structures that a
  capsule carries; and the interpreter calls the C code makes on them. The module is the
  Python 2.7 build (\<^verbatim>\<open>wscript\<close> asks for 2.7, \<^verbatim>\<open>python/\<close> is Python 2 source and
  \<^verbatim>\<open>methods_key.c\<close> uses \<^verbatim>\<open>PyString_AsString\<close>), so \<^verbatim>\<open>bytes\<close> is
  \<^verbatim>\<open>str\<close> and \<^verbatim>\<open>_pyndn_Int_*\<close> are the \<^verbatim>\<open>PyInt_*\<close> calls. Reference
  counts are not part of a value; theory \<open>Objects\<close> treats what a capsule's destructor
  releases and theory \<open>HandleM\<close> the life of the callback capsules.
\<close>

subsection \<open>C structures carried by capsules\<close>

text \<open>\<^verbatim>\<open>struct state_st\<close> of the command authenticators.\<close>

record state_st =
  tv_sec :: u32
  tv_usec :: u32
  seq :: u32
  rsvd :: u32

text \<open>
  The indices of the offset tables of libndn's \<^verbatim>\<open>ndn_parsed_interest\<close> and
  \<^verbatim>\<open>ndn_parsed_ContentObject\<close> that the module reads.
\<close>

datatype pi_idx =
    NDN_PI_B_Name | NDN_PI_E_Name
  | NDN_PI_B_MinSuffixComponents | NDN_PI_E_MinSuffixComponents
  | NDN_PI_B_MaxSuffixComponents | NDN_PI_E_MaxSuffixComponents
  | NDN_PI_B_PublisherID | NDN_PI_E_PublisherID
  | NDN_PI_B_Exclude | NDN_PI_E_Exclude
  | NDN_PI_B_ChildSelector | NDN_PI_E_ChildSelector
  | NDN_PI_B_AnswerOriginKind | NDN_PI_E_AnswerOriginKind
  | NDN_PI_B_Scope | NDN_PI_E_Scope
  | NDN_PI_B_InterestLifetime | NDN_PI_E_InterestLifetime
  | NDN_PI_B_Nonce | NDN_PI_E_Nonce
  | NDN_PI_E

datatype pco_idx =
    NDN_PCO_B_Name | NDN_PCO_E_Name | NDN_PCO_B_Signature | NDN_PCO_E_Signature
  | NDN_PCO_B_SignedInfo | NDN_PCO_E_SignedInfo | NDN_PCO_E

record parsed_interest =
  pi_offset :: "pi_idx \<Rightarrow> nat"

record parsed_data =
  pco_offset :: "pco_idx \<Rightarrow> nat"
  name_ncomps :: int
  digest :: bytes

text \<open>The structures fresh from \<^verbatim>\<open>calloc\<close>.\<close>

definition zero_pi :: parsed_interest where
  "zero_pi = \<lparr>pi_offset = (\<lambda>_. 0)\<rparr>"

definition zero_pco :: parsed_data where
  "zero_pco = \<lparr>pco_offset = (\<lambda>_. 0), name_ncomps = 0, digest = []\<rparr>"

text \<open>
  What the pointer of a capsule points to. Handles of libndn and OpenSSL keys are opaque
  tokens; of a \<^verbatim>\<open>struct ndn_closure\<close> we keep whether its \<^verbatim>\<open>data\<close> field points
  back at the capsule that carries it; \<open>signing_params\<close> has the fields of
  \<^verbatim>\<open>struct ndn_signing_params\<close> the module reads.
\<close>

record signing_params =
  sp_flags :: int
  sp_type :: int
  sp_freshness :: int
  sp_api_version :: int
  sp_template_ndnb :: "bytes option"
  sp_pubid :: bytes

datatype payload =
    P_Charbuf bytes
  | P_Handle nat
  | P_Pkey nat
  | P_Closure bool
  | P_SigningParams signing_params
  | P_State state_st

record content_object_data =
  pco :: "parsed_data option"
  comps :: "nat list option"

record interest_data =
  pi :: "parsed_interest option"

datatype capsule_context =
    NoContext
  | DataContext content_object_data
  | InterestContext interest_data
  | ClosureContext nat

record capsule =
  cap_pointer :: payload
  cap_name :: "string option"
  cap_context :: capsule_context
  cap_owned :: bool

subsection \<open>Python objects\<close>

datatype double = Fin rat | PInf | MInf | NaN

datatype pyval =
    PyNone
  | PyBool bool
  | PyInt int
  | PyFloat double
  | PyBytes bytes
  | PyUnicode "nat list"
  | PyByteArray bytes
  | PyList "pyval list"
  | PyTuple "pyval list"
  | PyCapsule capsule
  | PyInst string "(string \<times> pyval) list"
  | PyConst pyval

fun tp_name :: "pyval \<Rightarrow> string" where
  "tp_name (PyInst cls _) = cls"
| "tp_name (PyConst _) = ''Const''"
| "tp_name PyNone = ''NoneType''"
| "tp_name (PyBool _) = ''bool''"
| "tp_name (PyInt _) = ''int''"
| "tp_name (PyFloat _) = ''float''"
| "tp_name (PyBytes _) = ''str''"
| "tp_name (PyUnicode _) = ''unicode''"
| "tp_name (PyByteArray _) = ''bytearray''"
| "tp_name (PyList _) = ''list''"
| "tp_name (PyTuple _) = ''tuple''"
| "tp_name (PyCapsule _) = ''PyCapsule''"

text \<open>\<^verbatim>\<open>isinstance(value, Name)\<close>, which asks a \<^verbatim>\<open>Const\<close> for the class of what it wraps.\<close>

fun is_name :: "pyval \<Rightarrow> bool" where
  "is_name (PyInst cls attrs) = (cls = ''Name'')"
| "is_name (PyConst v) = is_name v"
| "is_name _ = False"

text \<open>\<^verbatim>\<open>PyFloat_Check || PyLong_Check || PyInt_Check\<close>; a \<^verbatim>\<open>bool\<close> is an \<^verbatim>\<open>int\<close>.\<close>

fun is_number :: "pyval \<Rightarrow> bool" where
  "is_number (PyInt _) = True"
| "is_number (PyBool _) = True"
| "is_number (PyFloat _) = True"
| "is_number _ = False"

subsection \<open>Attributes\<close>

text \<open>
  \<^verbatim>\<open>PyObject_GetAttrString\<close>. An \<^verbatim>\<open>Interest\<close> hands out its \<^verbatim>\<open>name\<close>, a \<^verbatim>\<open>Data\<close> its
  \<^verbatim>\<open>name\<close> and \<^verbatim>\<open>signedInfo\<close>, wrapped in a \<^verbatim>\<open>Const\<close>, which passes attribute reads through to the object it wraps
  (\<^verbatim>\<open>Interest.py\<close>, \<^verbatim>\<open>Data.py\<close>, \<^verbatim>\<open>utils.py\<close> under \<^verbatim>\<open>python/ndn\<close>).
\<close>

fun py_getattr :: "pyval \<Rightarrow> string \<Rightarrow> pyval outcome" where
  "py_getattr (PyInst cls attrs) a =
     (case map_of attrs a of
        None \<Rightarrow> Raise AttributeError
      | Some v \<Rightarrow> Ret (if cls = ''Interest'' \<and> a = ''name'' \<or> cls = ''Data'' \<and> (a = ''name'' \<or> a = ''signedInfo'')
                            then PyConst v else v))"
| "py_getattr (PyConst v) a = py_getattr v a"
| "py_getattr _ a = Raise AttributeError"

text \<open>
  \<^verbatim>\<open>PyObject_SetAttrString\<close>, with the \<^verbatim>\<open>__setattr__\<close> of the class: setting any
  other attribute of an \<^verbatim>\<open>Interest\<close>, \<^verbatim>\<open>Data\<close>, \<^verbatim>\<open>SignedInfo\<close>,
  \<^verbatim>\<open>Signature\<close> or \<^verbatim>\<open>KeyLocator\<close> drops the cached \<^verbatim>\<open>ndn_data\<close>; a
  \<^verbatim>\<open>Name\<close> accepts \<^verbatim>\<open>components\<close> only; a \<^verbatim>\<open>KeyLocator\<close> has the two
  slots \<^verbatim>\<open>ndn_data\<close> and \<^verbatim>\<open>keyName\<close>.
\<close>

definition caches_wire :: "string \<Rightarrow> bool" where
  "caches_wire cls \<longleftrightarrow>
     cls \<in> set [''Interest'', ''Data'', ''SignedInfo'', ''Signature'', ''KeyLocator'']"

fun py_setattr :: "pyval \<Rightarrow> string \<Rightarrow> pyval \<Rightarrow> pyval outcome" where
  "py_setattr (PyInst cls attrs) a v =
     (if cls = ''Name'' then
        (if a = ''components''
         then Ret (PyInst cls (AList.update a v (AList.update ''ndn_data'' PyNone attrs)))
         else Raise TypeError)
      else if cls = ''KeyLocator'' \<and> a \<noteq> ''ndn_data'' \<and> a \<noteq> ''keyName'' then
        Raise AttributeError
      else if caches_wire cls \<and> a \<noteq> ''ndn_data'' then
        Ret (PyInst cls (AList.update a v (AList.update ''ndn_data'' PyNone attrs)))
      else Ret (PyInst cls (AList.update a v attrs)))"
| "py_setattr (PyConst _) a v = Raise TypeError"
| "py_setattr _ a v = Raise AttributeError"

text \<open>The attributes of an instance, as a map: the view in which results are stated.\<close>

fun attr :: "pyval \<Rightarrow> string \<Rightarrow> pyval option" where
  "attr (PyInst cls attrs) a = map_of attrs a"
| "attr _ a = None"

lemma py_setattr_attr:
  assumes "py_setattr obj a v = Ret obj'"
  shows "attr obj' a = Some v"
    and "b \<noteq> a \<Longrightarrow> b \<noteq> ''ndn_data'' \<Longrightarrow> attr obj' b = attr obj b"
    and "tp_name obj' = tp_name obj"
  using assms
  by (cases obj; auto simp: update_conv' split: if_splits)+

lemma py_setattr_drops_wire:
  "py_setattr obj a v = Ret obj' \<Longrightarrow> caches_wire (tp_name obj) \<or> tp_name obj = ''Name''
   \<Longrightarrow> a \<noteq> ''ndn_data'' \<Longrightarrow> attr obj' ''ndn_data'' = Some PyNone"
  by (cases obj) (auto simp: update_conv' split: if_splits)

subsection \<open>Numbers\<close>

text \<open>\<^verbatim>\<open>PyInt_AsLong\<close> of Python 2.7 on a 64-bit \<^verbatim>\<open>long\<close>.\<close>

definition rat_trunc :: "rat \<Rightarrow> int" where
  "rat_trunc q = (if 0 \<le> q then \<lfloor>q\<rfloor> else - \<lfloor>- q\<rfloor>)"

definition long_range :: "int \<Rightarrow> int outcome" where
  "long_range n = (if - (2 ^ 63) \<le> n \<and> n < 2 ^ 63 then Ret n else Raise OverflowError)"

fun py_int_as_long :: "pyval \<Rightarrow> int outcome" where
  "py_int_as_long (PyInt n) = long_range n"
| "py_int_as_long (PyBool b) = Ret (if b then 1 else 0)"
| "py_int_as_long (PyFloat (Fin q)) = long_range (rat_trunc q)"
| "py_int_as_long (PyFloat NaN) = Raise ValueError"
| "py_int_as_long (PyFloat _) = Raise OverflowError"
| "py_int_as_long _ = Raise TypeError"

text \<open>The decimal digits \<^verbatim>\<open>str()\<close> and \<^verbatim>\<open>printf\<close>'s \<^verbatim>\<open>%d\<close> give for an integer.\<close>

fun nat_digits :: "nat \<Rightarrow> bytes" where
  "nat_digits n = (if n < 10 then [of_nat (48 + n)]
                   else nat_digits (n div 10) @ [of_nat (48 + n mod 10)])"

declare nat_digits.simps [simp del]

definition int_digits :: "int \<Rightarrow> bytes" where
  "int_digits n = (if n < 0 then 45 # nat_digits (nat (- n)) else nat_digits (nat n))"

lemma nat_digits_not_nil [simp]: "nat_digits n \<noteq> []"
  by (subst nat_digits.simps) simp

lemma int_digits_not_nil [simp]: "int_digits n \<noteq> []"
  by (simp add: int_digits_def)

fun digits_value :: "bytes \<Rightarrow> nat \<Rightarrow> nat" where
  "digits_value [] acc = acc"
| "digits_value (b # bs) acc = digits_value bs (10 * acc + (unat b - 48))"

lemma digits_value_append: "digits_value (xs @ ys) acc = digits_value ys (digits_value xs acc)"
  by (induction xs arbitrary: acc) auto

lemma unat_digit: "d < 10 \<Longrightarrow> unat (of_nat (48 + d) :: byte) = 48 + d"
  by (rule unat_of_nat_small) simp

lemma digits_value_nat_digits: "digits_value (nat_digits n) 0 = n"
proof (induction n rule: nat_digits.induct)
  case (1 n)
  show ?case
  proof (cases "n < 10")
    case True
    then show ?thesis
      using unat_digit [of n] by (subst nat_digits.simps) (simp del: of_nat_add)
  next
    case False
    then show ?thesis
      using 1 unat_digit [of "n mod 10"]
      by (subst nat_digits.simps) (simp add: digits_value_append del: of_nat_add)
  qed
qed

subsection \<open>Strings\<close>

text \<open>UTF-8 as \<^verbatim>\<open>PyUnicode_EncodeUTF8\<close> writes a code point.\<close>

definition utf8_char :: "nat \<Rightarrow> bytes" where
  "utf8_char c =
     (if c < 0x80 then [of_nat c]
      else if c < 0x800 then [of_nat (0xC0 + c div 64), of_nat (0x80 + c mod 64)]
      else if c < 0x10000 then
        [of_nat (0xE0 + c div 4096), of_nat (0x80 + c div 64 mod 64), of_nat (0x80 + c mod 64)]
      else
        [of_nat (0xF0 + c div 262144), of_nat (0x80 + c div 4096 mod 64),
         of_nat (0x80 + c div 64 mod 64), of_nat (0x80 + c mod 64)])"

definition utf8 :: "nat list \<Rightarrow> bytes" where
  "utf8 cs = concat (map utf8_char cs)"

lemma utf8_ascii: "(\<forall>c \<in> set cs. c < 128) \<Longrightarrow> utf8 cs = map of_nat cs"
  by (induction cs) (auto simp: utf8_def utf8_char_def)

text \<open>\<^verbatim>\<open>PyUnicode_FromStringAndSize\<close>: the strict UTF-8 decoder.\<close>

definition cont_byte :: "byte \<Rightarrow> bool" where
  "cont_byte b \<longleftrightarrow> 0x80 \<le> unat b \<and> unat b < 0xC0"

definition low6 :: "byte \<Rightarrow> nat" where "low6 b = unat b - 0x80"

fun utf8_decode :: "bytes \<Rightarrow> nat list option" where
  "utf8_decode [] = Some []"
| "utf8_decode (a # r) =
     (let x = unat a in
      if x < 0x80 then map_option (Cons x) (utf8_decode r)
      else if 0xC2 \<le> x \<and> x < 0xE0 then
        (case r of
           b # r1 \<Rightarrow>
             if cont_byte b then map_option (Cons ((x - 0xC0) * 64 + low6 b)) (utf8_decode r1)
             else None
         | [] \<Rightarrow> None)
      else if 0xE0 \<le> x \<and> x < 0xF0 then
        (case r of
           b # c # r2 \<Rightarrow>
             let v = (x - 0xE0) * 4096 + low6 b * 64 + low6 c in
             if cont_byte b \<and> cont_byte c \<and> 0x800 \<le> v
             then map_option (Cons v) (utf8_decode r2) else None
         | _ \<Rightarrow> None)
      else if 0xF0 \<le> x \<and> x < 0xF5 then
        (case r of
           b # c # d # r3 \<Rightarrow>
             let v = (x - 0xF0) * 262144 + low6 b * 4096 + low6 c * 64 + low6 d in
             if cont_byte b \<and> cont_byte c \<and> cont_byte d \<and> 0x10000 \<le> v \<and> v < 0x110000
             then map_option (Cons v) (utf8_decode r3) else None
         | _ \<Rightarrow> None)
      else None)"

definition unicode_from_string :: "bytes \<Rightarrow> pyval outcome" where
  "unicode_from_string b =
     (case utf8_decode b of Some cs \<Rightarrow> Ret (PyUnicode cs) | None \<Rightarrow> Raise ValueError)"

text \<open>
  \<^verbatim>\<open>PyString_AsStringAndSize\<close>: with no length asked for, a string that holds a zero
  byte is refused.
\<close>

definition string_and_size :: "bool \<Rightarrow> bytes \<Rightarrow> bytes outcome" where
  "string_and_size want_len b = (if \<not> want_len \<and> 0 \<in> set b then Raise TypeError else Ret b)"

fun bytes_as_string_and_size :: "pyval \<Rightarrow> bytes outcome" where
  "bytes_as_string_and_size (PyBytes b) = Ret b"
| "bytes_as_string_and_size (PyUnicode cs) =
     (if \<forall>c \<in> set cs. c < 128 then Ret (map of_nat cs) else Raise ValueError)"
| "bytes_as_string_and_size _ = Raise TypeError"

text \<open>\<^verbatim>\<open>PyBytes_FromStringAndSize\<close> refuses a negative size.\<close>

definition bytes_from_string_and_size :: "bytes \<Rightarrow> nat \<Rightarrow> int \<Rightarrow> bytes outcome" where
  "bytes_from_string_and_size buf off n =
     (if n < 0 then Raise SystemError else mem_read buf off (nat n))"

definition pyndn_unicode_to_utf8 :: "'e env_scheme \<Rightarrow> pyval \<Rightarrow> bool \<Rightarrow> bytes outcome" where
  "pyndn_unicode_to_utf8 E string want_len =
     (case string of
        PyUnicode cs \<Rightarrow> string_and_size want_len (utf8 cs)
      | PyBytes b \<Rightarrow> string_and_size want_len b
      | _ \<Rightarrow> c_assert E False (Raise TypeError))"

text \<open>A buffer argument: \<^verbatim>\<open>PyObject_CheckBuffer\<close> and the bytes behind it.\<close>

fun buffer_of :: "pyval \<Rightarrow> bytes option" where
  "buffer_of (PyBytes b) = Some b"
| "buffer_of (PyByteArray b) = Some b"
| "buffer_of _ = None"

text \<open>The \<^verbatim>\<open>i\<close> conversion of \<^verbatim>\<open>PyArg_ParseTuple\<close>.\<close>

definition arg_int :: "pyval \<Rightarrow> int outcome" where
  "arg_int v =
     (case v of
        PyFloat _ \<Rightarrow> Raise TypeError
      | _ \<Rightarrow> bnd (py_int_as_long v) (\<lambda>n.
          if - (2 ^ 31) \<le> n \<and> n < 2 ^ 31 then Ret n else Raise OverflowError))"

subsection \<open>Fresh instances\<close>

text \<open>
  What calling a class of the package with no argument gives (the \<^verbatim>\<open>__init__\<close> methods
  under \<^verbatim>\<open>python/ndn\<close>). A \<^verbatim>\<open>Name\<close> keeps \<^verbatim>\<open>ndn_data\<close> unset until it is
  asked for.
\<close>

definition nones :: "string list \<Rightarrow> (string \<times> pyval) list" where
  "nones = map (\<lambda>a. (a, PyNone))"

definition new_Name :: pyval where
  "new_Name = PyInst ''Name'' [(''components'', PyList []), (''ndn_data'', PyNone)]"

definition new_SignedInfo :: pyval where
  "new_SignedInfo =
     PyInst ''SignedInfo''
       ((''type'', PyInt 0x0c04c0) #
        nones [''publisherPublicKeyDigest'', ''timeStamp'', ''freshnessSeconds'',
               ''finalBlockID'', ''keyLocator'', ''ndn_data''])"

definition new_Interest :: pyval where
  "new_Interest =
     PyInst ''Interest''
       ((''name'', new_Name) #
        nones [''minSuffixComponents'', ''maxSuffixComponents'', ''publisherPublicKeyDigest'',
               ''exclude'', ''childSelector'', ''answerOriginKind'', ''scope'',
               ''interestLifetime'', ''nonce'', ''ndn_data''])"

definition new_Data :: pyval where
  "new_Data =
     PyInst ''Data''
       [(''name'', new_Name), (''content'', PyNone), (''signedInfo'', new_SignedInfo),
        (''signature'', PyNone), (''ndn_data'', PyNone)]"

definition new_Signature :: pyval where
  "new_Signature = PyInst ''Signature'' (nones [''witness'', ''signatureBits'', ''ndn_data''])"

definition new_KeyLocator :: pyval where
  "new_KeyLocator = PyInst ''KeyLocator'' [(''keyName'', new_Name), (''ndn_data'', PyNone)]"

definition new_UpcallInfo :: pyval where
  "new_UpcallInfo = PyInst ''UpcallInfo'' (nones [''ndn'', ''Interest'', ''matchedComps'', ''Data''])"

definition new_Key :: pyval where
  "new_Key =
     PyInst ''Key''
       ((''ndn_data_dirty'', PyBool False) #
        nones [''type'', ''publicKeyID'', ''ndn_data_public'', ''ndn_data_private''])"

end
