(* ===== verification/SegmentM.thy ===== *)
theory SegmentM
  imports PyValues Doubles
begin

section \<open>Segmented content: python/ndn/impl/segmenting.py\<close>

text \<open>
  The generator that cuts content into segments and hands each to a wrapper. The number of
  segments is computed with Python's floating point division and
  \<^verbatim>\<open>math.ceil\<close>, which is exact for content below \<open>2^53\<close> bytes. A generator is the list
  of what it yields with how it ends. The wrapper is an argument: the class \<^verbatim>\<open>Wrapper\<close> of
  the file cannot be one, since its constructor and its call use a global \<^verbatim>\<open>pyndn\<close> that the
  module neither imports nor defines, and raise \<^verbatim>\<open>NameError\<close> there.
\<close>

subsection \<open>The number of segments\<close>

text \<open>
  \<^verbatim>\<open>math.ceil(len(data) / float(chunk_size))\<close>. The length of a byte string is below
  \<open>2^63\<close>, so neither the quotient nor the length overflows.
\<close>

definition segment_count :: "nat \<Rightarrow> int \<Rightarrow> int outcome" where
  "segment_count len chunk_size =
     (let c = round53 (nat \<bar>chunk_size\<bar>) in
      if 2 ^ 1024 \<le> c then Raise OverflowError
      else if c = 0 then Raise ZeroDivisionError
      else let q = float_div (round53 len) c in
           Ret (if 0 < chunk_size then \<lceil>q\<rceil> else \<lceil>- q\<rceil>))"

lemma segment_count_exact:
  assumes "len < 2 ^ 53" "0 < k" "k < 2 ^ 53"
  shows "segment_count len (int k) = Ret (int ((len + k - 1) div k))"
proof -
  have "round53 len = len" "round53 k = k"
    using assms by (simp_all add: round53_small)
  moreover have "k < 2 ^ 1024"
    using less_le_trans [OF assms(3) power_increasing [of 53 1024 "2 :: nat"]] by simp
  ultimately show ?thesis
    using assms float_div_between [of len k] by (simp add: segment_count_def Let_def)
qed

lemma segment_count_negative:
  assumes "len < 2 ^ 53" "0 < k" "k < 2 ^ 53"
  shows "\<exists>n \<le> 0. segment_count len (- int k) = Ret n"
proof -
  have "round53 len = len" "round53 k = k" "k < 2 ^ 1024"
    using assms less_le_trans [OF assms(3) power_increasing [of 53 1024 "2 :: nat"]] by (simp_all add: round53_small)
  moreover have "0 \<le> float_div len k"
    by (simp add: float_div_def Let_def)
  ultimately show ?thesis
    using assms by (simp add: segment_count_def Let_def)
qed

subsection \<open>The generator\<close>

text \<open>
  A wrapper gets the chunk, its number and the number of all; the number, a \<^verbatim>\<open>float\<close> in
  Python 2, is whole and below \<open>2^53\<close>. Offsets are not negative while the loop runs.
\<close>

type_synonym wrapper = "bytes \<Rightarrow> int \<Rightarrow> int \<Rightarrow> pyval outcome"

definition slice_at :: "bytes \<Rightarrow> int \<Rightarrow> int \<Rightarrow> bytes" where
  "slice_at data start stop = take (nat stop - nat start) (drop (nat start) data)"

function segments_from :: "wrapper option \<Rightarrow> bytes \<Rightarrow> int \<Rightarrow> int \<Rightarrow> int \<Rightarrow> pyval list \<times> unit outcome" where
  "segments_from wrapper data chunk_size segments segment =
     (if segment < segments then
        (let start = segment * chunk_size;
             stop = min (start + chunk_size) (int (length data));
             chunk = slice_at data start stop in
         case (case wrapper of None \<Rightarrow> Ret (PyBytes chunk) | Some w \<Rightarrow> w chunk segment segments) of
           Ret v \<Rightarrow>
             (let (vs, r) = segments_from wrapper data chunk_size segments (segment + 1) in (v # vs, r))
         | m \<Rightarrow> ([], bnd m (\<lambda>_. Ret ())))
      else ([], Ret ()))"
  by pat_completeness auto
termination
  by (relation "measure (\<lambda>(_, _, _, n, i). nat (n - i))") auto

declare segments_from.simps [simp del]

definition segmenter :: "wrapper option \<Rightarrow> bytes \<Rightarrow> int \<Rightarrow> pyval list \<times> unit outcome" where
  "segmenter wrapper data chunk_size =
     (case segment_count (length data) chunk_size of
        Ret segments \<Rightarrow> segments_from wrapper data chunk_size segments 0
      | m \<Rightarrow> ([], bnd m (\<lambda>_. Ret ())))"

text \<open>The chunks by their numbers, and how many there are.\<close>

definition chunk_at :: "bytes \<Rightarrow> nat \<Rightarrow> nat \<Rightarrow> bytes" where
  "chunk_at data k i = take k (drop (i * k) data)"

definition chunk_count :: "bytes \<Rightarrow> nat \<Rightarrow> nat" where
  "chunk_count data k = (length data + k - 1) div k"

lemma concat_chunks_take: "concat (map (chunk_at data k) [0..<m]) = take (m * k) data"
  by (induction m) (simp_all add: chunk_at_def add.commute [of k] flip: take_add)

lemma chunk_bounds:
  assumes "0 < k"
  shows "i < chunk_count data k \<longleftrightarrow> i * k < length data"
    and "length data \<le> chunk_count data k * k"
proof -
  have less: "j < chunk_count data k \<longleftrightarrow> j * k < length data" for j
  proof -
    have "j < chunk_count data k \<longleftrightarrow> Suc j * k \<le> length data + k - 1"
      using assms by (simp only: chunk_count_def less_eq_div_iff_mult_less_eq flip: Suc_le_eq)
    then show ?thesis
      using assms by auto
  qed
  then show "i < chunk_count data k \<longleftrightarrow> i * k < length data"
    by simp
  show "length data \<le> chunk_count data k * k"
    using less [of "chunk_count data k"] by simp
qed

lemma chunks_concat: "0 < k \<Longrightarrow> concat (map (chunk_at data k) [0..<chunk_count data k]) = data"
  using chunk_bounds(2) [of k data] by (simp add: concat_chunks_take)

lemma segments_from_chunks:
  assumes "0 < k"
    and "\<And>j. i \<le> j \<Longrightarrow> j < chunk_count data k \<Longrightarrow>
      (case w of None \<Rightarrow> Ret (PyBytes (chunk_at data k j))
       | Some w \<Rightarrow> w (chunk_at data k j) (int j) (int (chunk_count data k))) = Ret (g j)"
  shows "segments_from w data (int k) (int (chunk_count data k)) (int i)
    = (map g [i..<chunk_count data k], Ret ())"
  using assms(2)
proof (induction "chunk_count data k - i" arbitrary: i)
  case 0
  then show ?case by (simp add: segments_from.simps)
next
  case (Suc m)
  then have i: "i < chunk_count data k" by simp
  have "slice_at data (int i * int k) (min (int i * int k + int k) (int (length data))) = chunk_at data k i"
    by (simp add: slice_at_def chunk_at_def nat_mult_distrib nat_add_distrib min_def flip: of_nat_mult of_nat_add)
  moreover have "segments_from w data (int k) (int (chunk_count data k)) (int i + 1)
      = (map g [Suc i..<chunk_count data k], Ret ())"
    using Suc.hyps(1) [of "Suc i"] Suc.hyps(2) Suc.prems by (simp add: add.commute)
  moreover note Suc.prems [of i]
  ultimately show ?case
    using i by (subst segments_from.simps; cases w) (simp_all add: upt_conv_Cons Let_def)
qed

lemma segmenter_chunks:
  assumes "0 < k" "k < 2 ^ 53" "length data < 2 ^ 53"
    and "\<And>j. j < chunk_count data k \<Longrightarrow>
      (case w of None \<Rightarrow> Ret (PyBytes (chunk_at data k j))
       | Some w \<Rightarrow> w (chunk_at data k j) (int j) (int (chunk_count data k))) = Ret (g j)"
  shows "segmenter w data (int k) = (map g [0..<chunk_count data k], Ret ())"
  using segments_from_chunks [OF assms(1), of 0 data w g] assms segment_count_exact [of "length data" k]
  by (simp add: segmenter_def chunk_count_def)

subsection \<open>Properties\<close>

text \<open>
  C19. The generator without a wrapper yields the content in order, in chunks of the size asked
  for, the last one shorter but not empty, and it ends; a size of zero raises, and with a
  negative one the content is lost without a word.
\<close>

theorem segmenter_splits:
  assumes "0 < k" "k < 2 ^ 53" "length data < 2 ^ 53"
  shows "\<exists>chunks. segmenter None data (int k) = (map PyBytes chunks, Ret ())
      \<and> concat chunks = data \<and> length chunks = (length data + k - 1) div k
      \<and> (\<forall>c \<in> set chunks. c \<noteq> [] \<and> length c \<le> k) \<and> (\<forall>c \<in> set (butlast chunks). length c = k)
    \<and> segmenter w data 0 = ([], Raise ZeroDivisionError)
    \<and> segmenter w data (- int k) = ([], Ret ())"
proof -
  let ?n = "chunk_count data k"
  let ?cs = "map (chunk_at data k) [0..<?n]"
  have "segmenter None data (int k) = (map PyBytes ?cs, Ret ())"
    using segmenter_chunks [OF assms, where w = None and g = "\<lambda>j. PyBytes (chunk_at data k j)"] by (simp add: comp_def)
  moreover have "length ?cs = (length data + k - 1) div k"
    by (simp add: chunk_count_def)
  moreover have "concat ?cs = data"
    by (rule chunks_concat [OF assms(1)])
  moreover have "\<forall>c \<in> set ?cs. c \<noteq> [] \<and> length c \<le> k"
    using assms(1) chunk_bounds(1) [OF assms(1)] by (auto simp: chunk_at_def)
  moreover have "\<forall>c \<in> set (butlast ?cs). length c = k"
  proof -
    have "length (chunk_at data k j) = k" if "Suc j < ?n" for j
      using that chunk_bounds(1) [OF assms(1), of "Suc j" data] by (simp add: chunk_at_def)
    then show ?thesis
      by (cases "?n") (auto simp: butlast_append)
  qed
  moreover have "segmenter w data 0 = ([], Raise ZeroDivisionError)"
    by (simp add: segmenter_def segment_count_def round53_small)
  moreover have "segmenter w data (- int k) = ([], Ret ())"
    using segment_count_negative [OF assms(3,1,2)] assms(1)
    by (auto simp: segmenter_def segments_from.simps [of w data "- int k"])
  ultimately show ?thesis
    by blast
qed

theorem segmenter_splits_witness:
  "\<exists>chunks. segmenter None [1, 2, 3] (int 2) = (map PyBytes chunks, Ret ()) \<and> length chunks = 2"
  using segmenter_splits [of 2 "[1, 2, 3]" None] by auto

end
