(* ===== verification/Ndnb.thy ===== *)
theory Ndnb
  imports Prelude
begin

section \<open>The ndnb wire format (python/ndn/impl/ndnb.py)\<close>

text \<open>
  The binary format the module's buffers hold, as the package's own Python encoder and
  decoder write and read it: a header is a value and a three-bit kind in groups of seven
  bits, the last with its high bit set; an element is a DTAG header, its content and a zero
  byte; a BLOB is a header with its size and the bytes. The theory gives the encoder, the
  decoder of one header, and the lemmas that let the C code's walks over headers compute.
\<close>

subsection \<open>Encoder\<close>

text \<open>\<^verbatim>\<open>_encode\<close>: the groups above the last one, most significant first.\<close>

fun high_groups :: "nat \<Rightarrow> bytes" where
  "high_groups h = (if h = 0 then [] else high_groups (h div 128) @ [of_nat (h mod 128)])"

declare high_groups.simps [simp del]

definition ndnb_encode :: "nat \<Rightarrow> nat \<Rightarrow> bytes" where
  "ndnb_encode value tt =
     (let header = value * 8 + tt in high_groups (header div 128) @ [of_nat (128 + header mod 128)])"

definition NDN_BLOB :: nat where "NDN_BLOB = 5"
definition NDN_DTAG :: nat where "NDN_DTAG = 2"

definition ndnb_blob :: "bytes \<Rightarrow> bytes" where
  "ndnb_blob value = ndnb_encode (length value) NDN_BLOB @ value"

definition ndnb_dtag :: "nat \<Rightarrow> bytes \<Rightarrow> bytes" where
  "ndnb_dtag tag value = ndnb_encode tag NDN_DTAG @ value @ [0]"

text \<open>The tags of the elements the module builds or reads.\<close>

definition DTAG_Name :: nat where "DTAG_Name = 14"
definition DTAG_Component :: nat where "DTAG_Component = 15"

subsection \<open>Decoder\<close>

text \<open>
  \<^verbatim>\<open>_process_next_byte\<close>, iterated until a header is complete: \<open>None\<close> when the input
  ends, a close when the first byte is zero.
\<close>

datatype header = Close | Header nat

fun read_header :: "nat \<Rightarrow> bytes \<Rightarrow> (header \<times> bytes) option" where
  "read_header acc [] = None"
| "read_header acc (b # bs) =
     (if acc = 0 \<and> b = 0 then Some (Close, bs)
      else let d = acc * 128 + unat b mod 128 in
           if 128 \<le> unat b then Some (Header d, bs) else read_header d bs)"

subsection \<open>Headers\<close>

lemma high_groups_small: "\<forall>b \<in> set (high_groups h). unat b < 128"
proof (induction h rule: high_groups.induct)
  case (1 h)
  have "unat (of_nat (h mod 128) :: byte) = h mod 128"
    by (rule unat_of_nat_small) (simp add: trans_less_add1 [OF mod_less_divisor])
  moreover have "h mod 128 < 128" by simp
  ultimately show ?case
    using 1 by (subst high_groups.simps) auto
qed

lemma high_groups_read:
  "read_header 0 (high_groups h @ rest) =
     (if h = 0 then read_header 0 rest else read_header h rest)"
proof (induction h arbitrary: rest rule: high_groups.induct)
  case (1 h)
  show ?case
  proof (cases "h = 0")
    case True
    then show ?thesis by (simp add: high_groups.simps)
  next
    case False
    have lt: "h mod 128 < 128" by simp
    have u: "unat (of_nat (h mod 128) :: byte) = h mod 128"
      by (rule unat_of_nat_small) (use lt in simp)
    have z: "(of_nat (h mod 128) :: byte) = 0 \<longleftrightarrow> h mod 128 = 0"
      using u by (metis unat_0 unat_eq_zero)
    have dm: "h div 128 * 128 + h mod 128 = h" by simp
    have "read_header 0 (high_groups h @ rest)
        = read_header 0 (high_groups (h div 128) @ of_nat (h mod 128) # rest)"
      using False by (subst high_groups.simps) simp
    also have "\<dots> = (if h div 128 = 0 then read_header 0 (of_nat (h mod 128) # rest)
                     else read_header (h div 128) (of_nat (h mod 128) # rest))"
      using 1 [OF False] by blast
    also have "\<dots> = read_header h rest"
      using False u z dm lt by (auto simp: Let_def)
    finally show ?thesis using False by simp
  qed
qed

lemma last_group:
  "unat (of_nat (128 + h mod 128) :: byte) = 128 + h mod 128"
proof (rule unat_of_nat_small)
  have "h mod 128 < 128" by simp
  then show "128 + h mod 128 < 2 ^ LENGTH(8)" by simp
qed

lemma read_header_encode [wire_simps]:
  "read_header 0 (ndnb_encode v tt @ rest) = Some (Header (v * 8 + tt), rest)"
proof -
  let ?h = "v * 8 + tt"
  have "read_header a ((of_nat (128 + ?h mod 128) :: byte) # rest)
      = Some (Header (a * 128 + ?h mod 128), rest)" for a
    using last_group [of ?h] by (auto simp: Let_def)
  then show ?thesis
    by (auto simp: ndnb_encode_def Let_def high_groups_read simp del: read_header.simps of_nat_add)
qed

text \<open>A header's length, and the one-byte headers of small tags.\<close>

lemma ndnb_encode_not_nil [simp]: "ndnb_encode v tt \<noteq> []"
  by (simp add: ndnb_encode_def Let_def)

definition header_length :: "nat \<Rightarrow> nat \<Rightarrow> nat" where
  "header_length v tt = length (ndnb_encode v tt)"

lemma header_length_pos: "0 < header_length v tt"
  by (simp add: header_length_def)

lemma tag_header_length: "tag < 16 \<Longrightarrow> tt < 8 \<Longrightarrow> ndnb_encode tag tt = [of_nat (128 + tag * 8 + tt)]"
  by (simp add: ndnb_encode_def high_groups.simps Let_def add.assoc)

text \<open>All bytes of a header but the last are below 128: what a C loop that looks for the last one sees.\<close>

lemma encode_split:
  obtains hs l where "ndnb_encode v tt = hs @ [l]" "\<forall>b \<in> set hs. unat b < 128" "128 \<le> unat l"
  using that [of "high_groups ((v * 8 + tt) div 128)"
      "of_nat (128 + (v * 8 + tt) mod 128)"] high_groups_small
    last_group [of "v * 8 + tt"]
  by (auto simp: ndnb_encode_def Let_def simp del: of_nat_add)

subsection \<open>Reading back elements\<close>

definition read_blob :: "bytes \<Rightarrow> (bytes \<times> bytes) option" where
  "read_blob bs =
     (case read_header 0 bs of
        Some (Header h, rest) \<Rightarrow>
          if h mod 8 = NDN_BLOB \<and> h div 8 \<le> length rest
          then Some (take (h div 8) rest, drop (h div 8) rest) else None
      | _ \<Rightarrow> None)"

lemma read_blob_ndnb [wire_simps]: "read_blob (ndnb_blob c @ rest) = Some (c, rest)"
  by (simp add: read_blob_def ndnb_blob_def read_header_encode NDN_BLOB_def)

definition read_tag :: "nat \<Rightarrow> bytes \<Rightarrow> bytes option" where
  "read_tag tag bs =
     (case read_header 0 bs of
        Some (Header h, rest) \<Rightarrow> if h = tag * 8 + NDN_DTAG then Some rest else None
      | _ \<Rightarrow> None)"

lemma read_tag_ndnb [wire_simps]:
  "read_tag tag (ndnb_encode tag' NDN_DTAG @ rest) = (if tag = tag' then Some rest else None)"
  by (simp add: read_tag_def read_header_encode NDN_DTAG_def)

subsection \<open>Names\<close>

text \<open>
  The wire form of a name with the given components, and where each component's element
  starts: the offsets \<^verbatim>\<open>ndn_name_split\<close> reports, with the end of the last one.
\<close>

definition component_wire :: "bytes \<Rightarrow> bytes" where
  "component_wire c = ndnb_dtag DTAG_Component (ndnb_blob c)"

definition name_wire :: "bytes list \<Rightarrow> bytes" where
  "name_wire cs = ndnb_dtag DTAG_Name (concat (map component_wire cs))"

fun offsets_from :: "nat \<Rightarrow> bytes list \<Rightarrow> nat list" where
  "offsets_from p [] = [p]"
| "offsets_from p (c # cs) = p # offsets_from (p + length (component_wire c)) cs"

definition name_offsets :: "bytes list \<Rightarrow> nat list" where
  "name_offsets cs = offsets_from 1 cs"

lemma component_wire_eq:
  "component_wire c = 250 # ndnb_encode (length c) NDN_BLOB @ c @ [0]"
  by (simp add: component_wire_def ndnb_dtag_def ndnb_blob_def DTAG_Component_def NDN_DTAG_def
      tag_header_length)

lemma name_wire_eq: "name_wire cs = 242 # concat (map component_wire cs) @ [0]"
  by (simp add: name_wire_def ndnb_dtag_def DTAG_Name_def NDN_DTAG_def tag_header_length)

lemma component_within_name: "c \<in> set cs \<Longrightarrow> length (component_wire c) \<le> length (name_wire cs)"
proof -
  have "c \<in> set cs \<Longrightarrow> length (component_wire c) \<le> length (concat (map component_wire cs))"
    by (induction cs) auto
  then show "c \<in> set cs \<Longrightarrow> length (component_wire c) \<le> length (name_wire cs)"
    by (simp add: name_wire_eq)
qed

lemma length_offsets_from [simp]: "length (offsets_from p cs) = Suc (length cs)"
  by (induction cs arbitrary: p) auto

lemma offsets_from_not_nil [simp]: "offsets_from p cs \<noteq> []"
  by (cases cs) auto

lemma hd_offsets_from [simp]: "hd (offsets_from p cs) = p"
  by (cases cs) auto

text \<open>A parser of name wires, the inverse of \<open>name_wire\<close>.\<close>

fun read_components :: "nat \<Rightarrow> bytes \<Rightarrow> bytes list option" where
  "read_components 0 bs = None"
| "read_components (Suc n) bs =
     (if bs = [0] then Some []
      else case read_tag DTAG_Component bs of
             None \<Rightarrow> None
           | Some body \<Rightarrow>
               (case read_blob body of
                  Some (c, z # rest) \<Rightarrow>
                    if z = 0 then map_option (Cons c) (read_components n rest) else None
                | _ \<Rightarrow> None))"

definition read_name :: "bytes \<Rightarrow> bytes list option" where
  "read_name bs =
     (case read_tag DTAG_Name bs of
        None \<Rightarrow> None | Some body \<Rightarrow> read_components (Suc (length body)) body)"

lemma read_components_wire:
  "length cs < n \<Longrightarrow> read_components n (concat (map component_wire cs) @ [0]) = Some cs"
proof (induction cs arbitrary: n)
  case Nil
  then show ?case by (cases n) auto
next
  case (Cons c cs)
  then obtain m where n: "n = Suc m" "length cs < m" by (cases n) auto
  have w: "component_wire c @ rest
      = ndnb_encode DTAG_Component NDN_DTAG @ (ndnb_blob c @ [0] @ rest)" for rest
    by (simp add: component_wire_def ndnb_dtag_def)
  have "concat (map component_wire (c # cs)) @ [0] \<noteq> [0]"
    by (simp add: component_wire_eq)
  then show ?case
    using n Cons.IH [OF n(2)]
    by (simp add: w read_tag_ndnb read_blob_ndnb del: append_assoc)
      (simp add: read_tag_ndnb read_blob_ndnb)
qed

lemma component_count_le: "length cs \<le> length (concat (map component_wire cs))"
  by (induction cs) (auto simp: component_wire_eq)

lemma read_name_wire [wire_simps]: "read_name (name_wire cs) = Some cs"
proof -
  have "read_tag DTAG_Name (name_wire cs) = Some (concat (map component_wire cs) @ [0])"
    by (simp add: name_wire_def ndnb_dtag_def read_tag_ndnb)
  then show ?thesis
    using component_count_le [of cs]
    by (simp add: read_name_def read_components_wire del: read_components.simps)
qed

lemma name_wire_inj [simp]: "name_wire cs = name_wire cs' \<longleftrightarrow> cs = cs'"
  by (metis option.inject read_name_wire)

text \<open>
  Where the content of component \<open>i\<close> starts (\<^verbatim>\<open>ndn_name_comp_get\<close> reports it with
  its length), and the name cut there.
\<close>

definition content_offset :: "bytes list \<Rightarrow> nat \<Rightarrow> nat" where
  "content_offset cs i =
     name_offsets cs ! i + 1 + length (ndnb_encode (length (cs ! i)) NDN_BLOB)"

definition before_content :: "bytes list \<Rightarrow> nat \<Rightarrow> bytes" where
  "before_content cs i =
     242 # concat (map component_wire (take i cs)) @ 250 # ndnb_encode (length (cs ! i)) NDN_BLOB"

definition after_content :: "bytes list \<Rightarrow> nat \<Rightarrow> bytes" where
  "after_content cs i = concat (map component_wire (drop (Suc i) cs)) @ [0]"

lemma offsets_from_nth:
  "i < length cs \<Longrightarrow> offsets_from p cs ! i = p + length (concat (map component_wire (take i cs)))"
  by (induction cs arbitrary: p i) (auto simp: nth_Cons split: nat.split)

lemma length_before_content: "i < length cs \<Longrightarrow> length (before_content cs i) = content_offset cs i"
  by (simp add: before_content_def content_offset_def name_offsets_def offsets_from_nth)

lemma name_wire_at:
  assumes "i < length cs"
  shows "name_wire cs = before_content cs i @ cs ! i @ 0 # after_content cs i"
proof -
  have "name_wire cs = name_wire (take i cs @ cs ! i # drop (Suc i) cs)"
    using id_take_nth_drop [OF assms] by simp
  then show ?thesis
    by (simp add: name_wire_eq component_wire_eq before_content_def after_content_def)
qed

lemma name_wire_prefix:
  "i < length cs \<Longrightarrow> name_wire (take (Suc i) cs) = before_content cs i @ cs ! i @ [0, 0]"
  by (simp add: name_wire_eq component_wire_eq before_content_def take_Suc_conv_app_nth)

lemma read_content:
  "i < length cs \<Longrightarrow> mem_read (name_wire cs) (content_offset cs i) (length (cs ! i)) = Ret (cs ! i)"
  by (simp add: name_wire_at mem_read_mid length_before_content)

text \<open>
  Cutting a name behind the content of component \<open>i\<close>, one byte more for the component's
  closer, and closing it again gives the name of the components up to \<open>i\<close>.
\<close>

lemma read_prefix:
  assumes "i < length cs"
  shows "mem_read (name_wire cs) 0 (content_offset cs i + length (cs ! i) + 1)
    = Ret (before_content cs i @ cs ! i @ [0])"
  using name_wire_at [OF assms] length_before_content [OF assms]
    mem_read_mid [of "[]" 0 "before_content cs i @ cs ! i @ [0]"
      "content_offset cs i + length (cs ! i) + 1" "after_content cs i"]
  by simp

end
