(* ===== verification/LibNdn.thy ===== *)
theory LibNdn
  imports PyValues Ndnb
begin

section \<open>The library the module calls\<close>

text \<open>
  libndn is not part of the repository: its functions are the fields of a record, and every
  definition that calls one takes the record as its argument. A field returns the status
  the C function returns and, where the C function writes to a buffer, the buffer after the
  call. What the module relies on is stated as laws in a locale: the documented behaviour
  of the functions on the ndnb format of theory \<open>Ndnb\<close>. \<open>ndnb_lib\<close> is one library
  that obeys them, built from the package's own description of the format; witnesses use
  it.
\<close>

subsection \<open>The functions\<close>

text \<open>
  The tags of \<^verbatim>\<open>ndn/coding.h\<close> the module uses; their numbers, and the code of text
  items (\<^verbatim>\<open>UDATA\<close>), are the library's.
\<close>

datatype ndn_dtag =
    NDN_DTAG_Any | NDN_DTAG_Name | NDN_DTAG_Component | NDN_DTAG_Certificate
  | NDN_DTAG_Interest | NDN_DTAG_Exclude
  | NDN_DTAG_MinSuffixComponents | NDN_DTAG_MaxSuffixComponents
  | NDN_DTAG_PublisherPublicKeyDigest | NDN_DTAG_ChildSelector | NDN_DTAG_AnswerOriginKind
  | NDN_DTAG_Scope | NDN_DTAG_InterestLifetime | NDN_DTAG_Nonce
  | NDN_DTAG_Signature | NDN_DTAG_DigestAlgorithm | NDN_DTAG_Witness | NDN_DTAG_SignatureBits
  | NDN_DTAG_SignedInfo | NDN_DTAG_Timestamp | NDN_DTAG_Type | NDN_DTAG_FreshnessSeconds
  | NDN_DTAG_FinalBlockID | NDN_DTAG_KeyLocator | NDN_DTAG_Key | NDN_DTAG_KeyName

record ndnlib = env +
  l_dtag :: "ndn_dtag \<Rightarrow> nat"
  l_udata :: nat
  l_append :: "bytes \<Rightarrow> bytes \<Rightarrow> int \<times> bytes"
  l_append_tt :: "bytes \<Rightarrow> nat \<Rightarrow> nat \<Rightarrow> int \<times> bytes"
  l_append_closer :: "bytes \<Rightarrow> int \<times> bytes"
  l_tagged_blob :: "bytes \<Rightarrow> nat \<Rightarrow> bytes \<Rightarrow> int \<times> bytes"
  l_tagged_putf_d :: "bytes \<Rightarrow> nat \<Rightarrow> int \<Rightarrow> int \<times> bytes"
  l_append_number :: "bytes \<Rightarrow> int \<Rightarrow> int \<times> bytes"
  l_name_init :: "bytes \<Rightarrow> int \<times> bytes"
  l_name_append :: "bytes \<Rightarrow> bytes \<Rightarrow> int \<times> bytes"
  l_name_append_str :: "bytes \<Rightarrow> bytes \<Rightarrow> int \<times> bytes"
  l_name_append_components :: "bytes \<Rightarrow> bytes \<Rightarrow> nat \<Rightarrow> nat \<Rightarrow> int \<times> bytes"
  l_name_split :: "bytes \<Rightarrow> int \<times> nat list"
  l_name_comp_get :: "bytes \<Rightarrow> nat list \<Rightarrow> nat \<Rightarrow> int \<times> nat \<times> nat"
  l_name_from_uri :: "bytes \<Rightarrow> bytes \<Rightarrow> int \<times> bytes"
  l_uri_append :: "bytes \<Rightarrow> bytes \<Rightarrow> int \<times> bytes"
  l_compare_names :: "bytes \<Rightarrow> bytes \<Rightarrow> int"
  l_parse_interest :: "bytes \<Rightarrow> int \<times> parsed_interest"
  l_fetch_nonneg :: "nat \<Rightarrow> bytes \<Rightarrow> nat \<Rightarrow> nat \<Rightarrow> int"
  l_ref_tagged_blob :: "nat \<Rightarrow> bytes \<Rightarrow> nat \<Rightarrow> nat \<Rightarrow> int \<times> nat \<times> nat"
  l_parse_data :: "bytes \<Rightarrow> int \<times> parsed_data \<times> nat list"
  l_float_str :: "double \<Rightarrow> bytes"

subsection \<open>The laws\<close>

text \<open>A number is written as its decimal digits, in a text item.\<close>

definition number_wire :: "'e ndnlib_scheme \<Rightarrow> int \<Rightarrow> bytes" where
  "number_wire L n = ndnb_encode (length (int_digits n)) (l_udata L) @ int_digits n"

locale buffer_writer =
  fixes L :: "'e ndnlib_scheme"
  assumes append: "l_append L b x = (0, b @ x)"
    and append_tt: "l_append_tt L b v tt = (0, b @ ndnb_encode v tt)"
    and append_closer: "l_append_closer L b = (0, b @ [0])"
    and tagged_blob: "x \<noteq> [] \<Longrightarrow> l_tagged_blob L b tag x = (0, b @ ndnb_dtag tag (ndnb_blob x))"
    and tagged_putf_d: "l_tagged_putf_d L b tag n = (0, b @ ndnb_dtag tag (number_wire L n))"
    and dtag_name: "l_dtag L NDN_DTAG_Name = DTAG_Name"

text \<open>
  The canonical order of names, which \<^verbatim>\<open>ndn_compare_names\<close> is documented to follow:
  component by component; the shorter of two components comes first, components of one length
  compare as unsigned bytes, and a name comes before its extensions.
\<close>

fun bytes_compare :: "bytes \<Rightarrow> bytes \<Rightarrow> int" where
  "bytes_compare [] [] = 0"
| "bytes_compare [] _ = - 1"
| "bytes_compare _ [] = 1"
| "bytes_compare (a # as) (b # bs) =
     (if a < b then - 1 else if b < a then 1 else bytes_compare as bs)"

lemma bytes_compare_0 [simp]: "bytes_compare a b = 0 \<longleftrightarrow> a = b"
  by (induction a b rule: bytes_compare.induct) auto

fun comps_compare :: "bytes list \<Rightarrow> bytes list \<Rightarrow> int" where
  "comps_compare [] [] = 0"
| "comps_compare [] _ = - 1"
| "comps_compare _ [] = 1"
| "comps_compare (a # as) (b # bs) =
     (if length a < length b then - 1 else if length b < length a then 1
      else if a \<noteq> b then bytes_compare a b else comps_compare as bs)"

lemma comps_compare_0 [simp]: "comps_compare as bs = 0 \<longleftrightarrow> as = bs"
  by (induction as bs rule: comps_compare.induct) auto

locale name_library =
  fixes L :: "'e ndnlib_scheme"
  assumes name_init: "l_name_init L b = (0, name_wire [])"
    and name_append: "l_name_append L (name_wire cs) c = (0, name_wire (cs @ [c]))"
    and name_append_str:
      "0 \<notin> set s \<Longrightarrow> l_name_append_str L (name_wire cs) s = (0, name_wire (cs @ [s]))"
    and name_split: "l_name_split L (name_wire cs) = (int (length cs), name_offsets cs)"
    and name_comp_get:
      "i < length cs \<Longrightarrow> l_name_comp_get L (name_wire cs) (name_offsets cs) i
                          = (0, content_offset cs i, length (cs ! i))"
    and name_comp_end:
      "length cs \<le> i \<Longrightarrow> fst (l_name_comp_get L (name_wire cs) (name_offsets cs) i) < 0"
    and compare_names: "l_compare_names L (name_wire cs) (name_wire cs') = 0 \<longleftrightarrow> cs = cs'"
begin

text \<open>Appending component after component gives the name of the components.\<close>

lemma append_all:
  "foldl (\<lambda>b c. snd (l_name_append L b c)) (name_wire cs) ds = name_wire (cs @ ds)"
  by (induction ds arbitrary: cs) (simp_all add: name_append)

end

locale canonical_names = name_library +
  assumes compare_canonical: "sgn (l_compare_names L (name_wire cs) (name_wire ds)) = comps_compare cs ds"

text \<open>
  Reading one element that stands at the offsets \<open>b\<close> to \<open>e\<close> of a buffer. The offset
  \<^verbatim>\<open>ndn_ref_tagged_BLOB\<close> stores is that of the content.
\<close>

definition element_at :: "bytes \<Rightarrow> nat \<Rightarrow> nat \<Rightarrow> bytes \<Rightarrow> bool" where
  "element_at buf b e w \<longleftrightarrow> b \<le> e \<and> e \<le> length buf \<and> take (e - b) (drop b buf) = w"

definition blob_offset :: "nat \<Rightarrow> bytes \<Rightarrow> nat" where
  "blob_offset tag x =
     length (ndnb_encode tag NDN_DTAG) + length (ndnb_encode (length x) NDN_BLOB)"

locale element_reader =
  fixes L :: "'e ndnlib_scheme"
  assumes fetch_nonneg:
      "0 \<le> n \<Longrightarrow> n < 2 ^ 31 \<Longrightarrow> element_at buf b e (ndnb_dtag tag (number_wire L n))
       \<Longrightarrow> l_fetch_nonneg L tag buf b e = n"
    and ref_blob:
      "element_at buf b e (ndnb_dtag tag (ndnb_blob x))
       \<Longrightarrow> l_ref_tagged_blob L tag buf b e = (0, b + blob_offset tag x, length x)"
begin

text \<open>The bytes behind the reference are the content.\<close>

lemma ref_read:
  assumes "element_at buf b e (ndnb_dtag tag (ndnb_blob x))"
  shows "mem_read buf (b + blob_offset tag x) (length x) = Ret x"
proof -
  let ?h = "ndnb_encode tag NDN_DTAG @ ndnb_encode (length x) NDN_BLOB"
  have w: "take (e - b) (drop b buf) = ?h @ x @ [0]" and be: "b \<le> e" "e \<le> length buf"
    using assms by (simp_all add: element_at_def ndnb_dtag_def ndnb_blob_def)
  have lh: "length ?h = blob_offset tag x"
    by (simp add: blob_offset_def)
  have "buf = (take b buf @ ?h) @ x @ (0 # drop e buf)"
    using w be by (metis append.assoc append_Cons append_Nil append_take_drop_id drop_drop le_add_diff_inverse2)
  then show ?thesis
    using mem_read_mid [of "take b buf @ ?h" "b + blob_offset tag x" x _ "0 # drop e buf"] be lh
    by (metis dual_order.trans length_append length_take min.absorb2)
qed

end

subsection \<open>A library that obeys them\<close>

definition nl_append :: "bytes \<Rightarrow> bytes \<Rightarrow> int \<times> bytes" where
  "nl_append b c =
     (case read_name b of Some cs \<Rightarrow> (0, name_wire (cs @ [c])) | None \<Rightarrow> (- 1, b))"

definition nl_split :: "bytes \<Rightarrow> int \<times> nat list" where
  "nl_split b =
     (case read_name b of Some cs \<Rightarrow> (int (length cs), name_offsets cs) | None \<Rightarrow> (- 1, []))"

definition nl_comp_get :: "bytes \<Rightarrow> nat list \<Rightarrow> nat \<Rightarrow> int \<times> nat \<times> nat" where
  "nl_comp_get b idx i =
     (if Suc i < length idx
      then (case read_name b of
              Some cs \<Rightarrow> if i < length cs then (0, content_offset cs i, length (cs ! i)) else (- 1, 0, 0)
            | None \<Rightarrow> (- 1, 0, 0))
      else (- 1, 0, 0))"

text \<open>Names in canonical order, and what comparing two buffers does that hold something else.\<close>

definition nl_compare :: "bytes \<Rightarrow> bytes \<Rightarrow> int" where
  "nl_compare a b =
     (case (read_name a, read_name b) of
        (Some cs, Some ds) \<Rightarrow> comps_compare cs ds
      | _ \<Rightarrow> bytes_compare a b)"

fun nl_dtag :: "ndn_dtag \<Rightarrow> nat" where
  "nl_dtag NDN_DTAG_Name = DTAG_Name"
| "nl_dtag NDN_DTAG_Component = DTAG_Component"
| "nl_dtag NDN_DTAG_Any = 1"
| "nl_dtag NDN_DTAG_Certificate = 2"
| "nl_dtag NDN_DTAG_Interest = 3"
| "nl_dtag NDN_DTAG_Exclude = 4"
| "nl_dtag NDN_DTAG_MinSuffixComponents = 5"
| "nl_dtag NDN_DTAG_MaxSuffixComponents = 6"
| "nl_dtag NDN_DTAG_PublisherPublicKeyDigest = 7"
| "nl_dtag NDN_DTAG_ChildSelector = 8"
| "nl_dtag NDN_DTAG_AnswerOriginKind = 9"
| "nl_dtag NDN_DTAG_Scope = 10"
| "nl_dtag NDN_DTAG_InterestLifetime = 11"
| "nl_dtag NDN_DTAG_Nonce = 12"
| "nl_dtag NDN_DTAG_Signature = 13"
| "nl_dtag NDN_DTAG_DigestAlgorithm = 16"
| "nl_dtag NDN_DTAG_Witness = 17"
| "nl_dtag NDN_DTAG_SignatureBits = 18"
| "nl_dtag NDN_DTAG_SignedInfo = 19"
| "nl_dtag NDN_DTAG_Timestamp = 20"
| "nl_dtag NDN_DTAG_Type = 21"
| "nl_dtag NDN_DTAG_FreshnessSeconds = 22"
| "nl_dtag NDN_DTAG_FinalBlockID = 23"
| "nl_dtag NDN_DTAG_KeyLocator = 24"
| "nl_dtag NDN_DTAG_Key = 25"
| "nl_dtag NDN_DTAG_KeyName = 26"

definition nl_slice :: "bytes \<Rightarrow> nat \<Rightarrow> nat \<Rightarrow> bytes" where
  "nl_slice buf b e = take (e - b) (drop b buf)"

definition nl_fetch_nonneg :: "nat \<Rightarrow> bytes \<Rightarrow> nat \<Rightarrow> nat \<Rightarrow> int" where
  "nl_fetch_nonneg tag buf b e =
     (case read_tag tag (nl_slice buf b e) of
        None \<Rightarrow> - 1
      | Some body \<Rightarrow>
          (case read_header 0 body of
             Some (Header h, digits) \<Rightarrow> int (digits_value (butlast digits) 0)
           | _ \<Rightarrow> - 1))"

definition nl_ref_tagged_blob :: "nat \<Rightarrow> bytes \<Rightarrow> nat \<Rightarrow> nat \<Rightarrow> int \<times> nat \<times> nat" where
  "nl_ref_tagged_blob tag buf b e =
     (case read_tag tag (nl_slice buf b e) of
        None \<Rightarrow> (- 1, 0, 0)
      | Some body \<Rightarrow>
          (case read_blob body of
             Some (c, _) \<Rightarrow> (0, b + blob_offset tag c, length c)
           | None \<Rightarrow> (- 1, 0, 0)))"

definition ndnb_lib :: ndnlib where
  "ndnb_lib =
     \<lparr>ndebug = False, mem = (\<lambda>_. True),
      l_dtag = nl_dtag, l_udata = 6,
      l_append = (\<lambda>b x. (0, b @ x)),
      l_append_tt = (\<lambda>b v tt. (0, b @ ndnb_encode v tt)),
      l_append_closer = (\<lambda>b. (0, b @ [0])),
      l_tagged_blob = (\<lambda>b tag x. (0, b @ ndnb_dtag tag (ndnb_blob x))),
      l_tagged_putf_d = (\<lambda>b tag n.
        (0, b @ ndnb_dtag tag (ndnb_encode (length (int_digits n)) 6 @ int_digits n))),
      l_append_number = (\<lambda>b n. (0, b @ ndnb_encode (length (int_digits n)) 6 @ int_digits n)),
      l_name_init = (\<lambda>_. (0, name_wire [])),
      l_name_append = nl_append,
      l_name_append_str = nl_append,
      l_name_append_components = (\<lambda>b buf from to. (0, butlast b @ take (to - from) (drop from buf) @ [0])),
      l_name_split = nl_split,
      l_name_comp_get = nl_comp_get,
      l_name_from_uri = (\<lambda>_ _. (- 1, [])),
      l_uri_append = (\<lambda>b _. (- 1, b)),
      l_compare_names = nl_compare,
      l_parse_interest = (\<lambda>_. (- 1, zero_pi)),
      l_fetch_nonneg = nl_fetch_nonneg,
      l_ref_tagged_blob = nl_ref_tagged_blob,
      l_parse_data = (\<lambda>_. (- 1, zero_pco, [])),
      l_float_str = (\<lambda>_. [])\<rparr>"

lemma nl_compare_names [simp]: "nl_compare (name_wire cs) (name_wire ds) = comps_compare cs ds"
  by (simp add: nl_compare_def read_name_wire)

interpretation ndnb_writer: buffer_writer ndnb_lib
  by unfold_locales (simp_all add: ndnb_lib_def number_wire_def)

interpretation ndnb_reader: element_reader ndnb_lib
  by unfold_locales
    (simp_all add: ndnb_lib_def nl_fetch_nonneg_def nl_ref_tagged_blob_def nl_slice_def element_at_def
      ndnb_dtag_def number_wire_def read_tag_ndnb read_header_encode read_blob_ndnb butlast_append
      int_digits_def digits_value_nat_digits)

interpretation ndnb_names: name_library ndnb_lib
  by unfold_locales
    (simp_all add: ndnb_lib_def nl_append_def nl_split_def nl_comp_get_def read_name_wire
      name_offsets_def)

lemma sgn_bytes_compare [simp]: "sgn (bytes_compare a b) = bytes_compare a b"
  by (induction a b rule: bytes_compare.induct) auto

lemma sgn_comps_compare [simp]: "sgn (comps_compare as bs) = comps_compare as bs"
  by (induction as bs rule: comps_compare.induct) auto

interpretation ndnb_canonical: canonical_names ndnb_lib
  by unfold_locales (simp add: ndnb_lib_def)

end
