(* ===== verification/NameCrypto.thy ===== *)
theory NameCrypto
  imports LibNdn
begin

section \<open>Command authenticators: csrc/namecrypto\<close>

text \<open>
  A command is a name whose last component carries an authenticator: a magic number, the
  length of the application's name and the name itself, a state (time and sequence number)
  and a MAC or an RSA signature over the command, the application name and the state. The
  theory models \<^verbatim>\<open>authentication.c\<close> and \<^verbatim>\<open>encryption.c\<close> whole: making the two
  kinds of authenticator, finding one in a name, the freshness check with its update of the
  receiver's state, and verification. The hash, the MAC and RSA are OpenSSL's and are
  parameters. \<^verbatim>\<open>gettimeofday\<close> is the argument \<open>now\<close>, seconds and microseconds.
\<close>

subsection \<open>Primitives\<close>

text \<open>
  \<^verbatim>\<open>RSA_sign\<close> gives \<open>None\<close> when it fails; the code does not look and reads a length
  that was never written.
\<close>

record crypto = ndnlib +
  c_sha256 :: "bytes \<Rightarrow> bytes"
  c_hmac :: "bytes \<Rightarrow> bytes \<Rightarrow> bytes"
  c_rsa_size :: "nat \<Rightarrow> nat"
  c_rsa_sign :: "nat \<Rightarrow> bytes \<Rightarrow> bytes option"
  c_rsa_verify :: "nat \<Rightarrow> bytes \<Rightarrow> bytes \<Rightarrow> bool"
  c_pkey_rsa :: "nat \<Rightarrow> nat option"

definition AUTH_OK :: int where "AUTH_OK = 0"
definition FAIL_MISSING_AUTHENTICATOR :: int where "FAIL_MISSING_AUTHENTICATOR = - 1"
definition FAIL_VERIFICATION_FAILED :: int where "FAIL_VERIFICATION_FAILED = - 2"
definition FAIL_INVALID_POLICY :: int where "FAIL_INVALID_POLICY = - 3"
definition FAIL_COMMAND_EXPIRED :: int where "FAIL_COMMAND_EXPIRED = - 4"
definition FAIL_INVALID_AUTHENTICATOR :: int where "FAIL_INVALID_AUTHENTICATOR = - 5"
definition FAIL_DUPLICATE_INTEREST :: int where "FAIL_DUPLICATE_INTEREST = - 6"
definition FAIL_VERIFICATION_KEY_NOT_PROVIDED :: int where "FAIL_VERIFICATION_KEY_NOT_PROVIDED = - 7"
definition FAIL_NO_MEMORY :: int where "FAIL_NO_MEMORY = - 8"
definition INFO_STATE_NOT_VERIFIED :: int where "INFO_STATE_NOT_VERIFIED = - 21"

lemmas auth_codes =
  AUTH_OK_def FAIL_MISSING_AUTHENTICATOR_def FAIL_VERIFICATION_FAILED_def
  FAIL_INVALID_POLICY_def FAIL_COMMAND_EXPIRED_def FAIL_INVALID_AUTHENTICATOR_def
  FAIL_DUPLICATE_INTEREST_def FAIL_VERIFICATION_KEY_NOT_PROVIDED_def FAIL_NO_MEMORY_def
  INFO_STATE_NOT_VERIFIED_def

definition PK_AUTH_MAGIC :: bytes where "PK_AUTH_MAGIC = [0x21, 0x44, 0x07, 0x65]"
definition SK_AUTH_MAGIC :: bytes where "SK_AUTH_MAGIC = [0x40, 0x96, 0x1c, 0x51]"

definition NOT_AUTHENTICATOR :: int where "NOT_AUTHENTICATOR = 0"
definition AUTH_SYMMETRIC :: int where "AUTH_SYMMETRIC = 1"
definition AUTH_ASYMMETRIC :: int where "AUTH_ASYMMETRIC = 2"

lemmas auth_types = NOT_AUTHENTICATOR_def AUTH_SYMMETRIC_def AUTH_ASYMMETRIC_def

definition MACLEN :: nat where "MACLEN = 32"
definition APPIDLEN :: nat where "APPIDLEN = 32"
definition APPKEYLEN :: nat where "APPKEYLEN = 32"
definition state_len :: nat where "state_len = 16"

lemmas auth_lengths = MACLEN_def APPIDLEN_def APPKEYLEN_def state_len_def

definition retToString :: "int \<Rightarrow> string" where
  "retToString r =
     (if r = AUTH_OK then ''Interest verification successful'' @ [CHR 0x0A]
      else if r = FAIL_MISSING_AUTHENTICATOR then ''Missing or corrupted interest authenticator'' @ [CHR 0x0A]
      else if r = FAIL_VERIFICATION_FAILED then ''Incorrect interest authenticator'' @ [CHR 0x0A]
      else if r = FAIL_INVALID_POLICY then ''Invalid interest policy'' @ [CHR 0x0A]
      else if r = FAIL_COMMAND_EXPIRED then ''Interest expired'' @ [CHR 0x0A]
      else if r = FAIL_DUPLICATE_INTEREST then ''Duplicate interest'' @ [CHR 0x0A]
      else if r = FAIL_VERIFICATION_KEY_NOT_PROVIDED
        then ''The appropriate verification key has not been supplied'' @ [CHR 0x0A]
      else if r = FAIL_NO_MEMORY then ''malloc() failed''
      else ''Unknown value'' @ [CHR 0x0A])"

subsection \<open>Keys\<close>

definition appID :: "'e crypto_scheme \<Rightarrow> bytes \<Rightarrow> bytes option" where
  "appID C uniqueAppName =
     (if mem C A_digest then Some (take APPIDLEN (c_sha256 C uniqueAppName)) else None)"

text \<open>\<^verbatim>\<open>KDF\<close> of \<^verbatim>\<open>encryption.c\<close>.\<close>

definition KDF :: "'e crypto_scheme \<Rightarrow> bytes \<Rightarrow> bytes \<Rightarrow> bytes option" where
  "KDF C key appid = (if mem C A_digest then Some (c_hmac C key appid) else None)"

text \<open>\<^verbatim>\<open>appKey\<close> reads \<^verbatim>\<open>APPIDLEN\<close> bytes of the application id.\<close>

definition appKey :: "'e crypto_scheme \<Rightarrow> bytes \<Rightarrow> bytes \<Rightarrow> bytes option outcome" where
  "appKey C k appid =
     bnd (mem_read appid 0 APPIDLEN) (\<lambda>appid'.
       Ret (map_option (take APPKEYLEN) (KDF C k appid')))"

subsection \<open>The state\<close>

type_synonym time = "int \<times> int"

definition state_init :: state_st where
  "state_init = \<lparr>tv_sec = 0, tv_usec = 0, seq = 0, rsvd = 0\<rparr>"

definition update_state :: "time \<Rightarrow> state_st \<Rightarrow> state_st" where
  "update_state now st =
     st\<lparr>tv_sec := word_of_int (fst now), tv_usec := word_of_int (snd now), seq := seq st + 1\<rparr>"

text \<open>The state in network byte order, as its bytes lie in memory, and back.\<close>

definition state_wire :: "state_st \<Rightarrow> bytes" where
  "state_wire st = be32 (tv_sec st) @ be32 (tv_usec st) @ be32 (seq st) @ be32 (rsvd st)"

definition read_state :: "bytes \<Rightarrow> state_st" where
  "read_state b =
     \<lparr>tv_sec = rd_be32 (take 4 b), tv_usec = rd_be32 (take 4 (drop 4 b)),
      seq = rd_be32 (take 4 (drop 8 b)), rsvd = rd_be32 (take 4 (drop 12 b))\<rparr>"

lemma length_state_wire [simp, wire_simps]: "length (state_wire st) = state_len"
  by (simp add: state_wire_def state_len_def)

lemma read_state_wire [simp, wire_simps]: "read_state (state_wire st) = st"
  by (simp add: read_state_def state_wire_def)

text \<open>
  \<^verbatim>\<open>verify_update_state_freshness\<close>. The age is computed in microseconds as a
  \<^verbatim>\<open>long\<close>, cast to \<^verbatim>\<open>int\<close>, and only then divided down to milliseconds.
\<close>

definition age_us :: "time \<Rightarrow> state_st \<Rightarrow> int" where
  "age_us now st = (fst now - uint (tv_sec st)) * 1000000 + snd now - uint (tv_usec st)"

definition verify_update_state_freshness ::
    "time \<Rightarrow> state_st option \<Rightarrow> state_st \<Rightarrow> nat \<Rightarrow> int \<times> state_st option" where
  "verify_update_state_freshness now currstate new_state maxDelay =
     (case currstate of
        None \<Rightarrow> (INFO_STATE_NOT_VERIFIED, None)
      | Some cur \<Rightarrow>
          if seq new_state \<le> seq cur then (FAIL_DUPLICATE_INTEREST, Some cur)
          else if 0 < maxDelay \<and> int maxDelay < \<bar>c_div (to_int32 (age_us now new_state)) 1000\<bar>
          then (FAIL_COMMAND_EXPIRED, Some cur)
          else (AUTH_OK, Some (cur\<lparr>seq := seq new_state, tv_sec := word_of_int (fst now),
                                   tv_usec := word_of_int (snd now)\<rparr>)))"

subsection \<open>Making authenticators\<close>

definition len16 :: "bytes \<Rightarrow> bytes" where
  "len16 appname = [of_nat (length appname div 256), of_nat (length appname)]"

text \<open>
  \<^verbatim>\<open>authenticateCommand\<close>: the new state and the command name with the authenticator
  appended. The buffers it allocates are not checked, and neither is the result of
  \<^verbatim>\<open>ndn_name_append\<close>.
\<close>

definition authenticateCommand ::
    "'e crypto_scheme \<Rightarrow> time \<Rightarrow> state_st \<Rightarrow> bytes \<Rightarrow> bytes \<Rightarrow> bytes \<Rightarrow> (state_st \<times> bytes) outcome"
  where
  "authenticateCommand C now st commandname appname appkey =
     (let st' = update_state now st;
          net_st = state_wire st';
          m = commandname @ appname @ net_st in
      if \<not> mem C A_message then Undef
      else bnd (mem_read appkey 0 APPKEYLEN) (\<lambda>key.
             let mac = take MACLEN (c_hmac C key m);
                 authenticatorwithmagic = SK_AUTH_MAGIC @ len16 appname @ appname @ net_st @ mac
             in Ret (st', snd (l_name_append C commandname authenticatorwithmagic))))"

definition authenticateCommandSig ::
    "'e crypto_scheme \<Rightarrow> time \<Rightarrow> state_st \<Rightarrow> bytes \<Rightarrow> bytes \<Rightarrow> nat \<Rightarrow> (state_st \<times> bytes) outcome"
  where
  "authenticateCommandSig C now st commandname appname app_signing_key =
     (let st' = update_state now st;
          net_st = state_wire st';
          msg = commandname @ appname @ net_st in
      if \<not> mem C A_message then Undef
      else case c_rsa_sign C app_signing_key (c_sha256 C msg) of
             None \<Rightarrow> Undef
           | Some sig \<Rightarrow>
               Ret (st', snd (l_name_append C commandname
                                (PK_AUTH_MAGIC @ len16 appname @ appname @ net_st @ sig))))"

subsection \<open>Finding the authenticator\<close>

definition detect_autenticator :: "bytes \<Rightarrow> nat \<Rightarrow> int outcome" where
  "detect_autenticator buf component =
     bnd (mem_read buf component 4) (\<lambda>x.
       Ret (if x = PK_AUTH_MAGIC then AUTH_ASYMMETRIC
            else if x = SK_AUTH_MAGIC then AUTH_SYMMETRIC
            else NOT_AUTHENTICATOR))"

text \<open>
  \<^verbatim>\<open>extractFromInterest\<close>: from the last component down to the second. The result is
  the kind with the authenticator component and the command in front of it, closed again,
  or \<open>None\<close> for \<^verbatim>\<open>FAIL_MISSING_AUTHENTICATOR\<close>. The length of the prefix is an
  \<^verbatim>\<open>unsigned int\<close>.
\<close>

fun extract_from ::
    "'e crypto_scheme \<Rightarrow> bytes \<Rightarrow> nat list \<Rightarrow> nat \<Rightarrow> (int \<times> bytes \<times> bytes) option outcome" where
  "extract_from C name nix 0 = Ret None"
| "extract_from C name nix (Suc i) =
     (let (r, out, len) = l_name_comp_get C name nix (Suc i) in
      if r \<noteq> 0 then Ret None
      else bnd (detect_autenticator name out) (\<lambda>atype.
             if atype = NOT_AUTHENTICATOR then extract_from C name nix i
             else if \<not> mem C A_message then Undef
             else bnd (mem_read name out len) (\<lambda>auth.
                    let (r', out', len') = l_name_comp_get C name nix i;
                        (out'', len'') = (if r' = 0 then (out', len') else (out, len));
                        prefix_len = ((len'' + out'') mod 2 ^ 32 + 2) mod 2 ^ 32
                    in if prefix_len = 0 then Undef
                       else bnd (mem_read name 0 (prefix_len - 1)) (\<lambda>prefix.
                              Ret (Some (atype, auth, prefix @ [0]))))))"

definition extractFromInterest ::
    "'e crypto_scheme \<Rightarrow> bytes \<Rightarrow> (int \<times> bytes \<times> bytes) option outcome" where
  "extractFromInterest C name =
     (if \<not> mem C A_indexbuf then Undef
      else let (num_components, nix) = l_name_split C name in
           extract_from C name nix (nat (num_components - 1)))"

subsection \<open>Verification\<close>

text \<open>
  \<^verbatim>\<open>verifyCommandSymm\<close>: \<open>authenticator\<close> is the component behind its magic number and
  \<open>auth_len\<close> its length as the code computes it. The receiver's state is updated by the
  freshness check, before the MAC is looked at.
\<close>

definition verifyCommandSymm ::
    "'e crypto_scheme \<Rightarrow> time \<Rightarrow> bytes \<Rightarrow> u32 \<Rightarrow> bytes \<Rightarrow> bytes \<Rightarrow> state_st option \<Rightarrow> nat
      \<Rightarrow> (int \<times> state_st option) outcome" where
  "verifyCommandSymm C now authenticator auth_len command_name fixtureKey currstate maxDiff =
     bnd (mem_read authenticator 0 2) (\<lambda>hdr.
       let appname_len = unat (hdr ! 0) * 256 + unat (hdr ! 1);
           state_offset = 2 + appname_len;
           mac_offset = state_offset + state_len in
       c_assert C (auth_len = of_nat (mac_offset + MACLEN))
        (bnd (mem_read authenticator 2 appname_len) (\<lambda>appname.
          bnd (mem_read authenticator state_offset state_len) (\<lambda>st.
            let (state_ret, currstate') =
                  verify_update_state_freshness now currstate (read_state st) maxDiff in
            if state_ret \<noteq> AUTH_OK \<and> state_ret \<noteq> INFO_STATE_NOT_VERIFIED
            then Ret (state_ret, currstate')
            else case appID C appname of
                   None \<Rightarrow> Undef
                 | Some app_id \<Rightarrow>
                     bnd (appKey C fixtureKey app_id) (\<lambda>k.
                       case k of
                         None \<Rightarrow> Undef
                       | Some app_key \<Rightarrow>
                           if \<not> mem C A_message then Undef
                           else bnd (mem_read authenticator mac_offset MACLEN) (\<lambda>mac.
                                  let computed_mac =
                                        take MACLEN (c_hmac C app_key (command_name @ appname @ st))
                                  in Ret (if computed_mac \<noteq> mac then FAIL_VERIFICATION_FAILED
                                          else AUTH_OK, currstate')))))))"

definition verifyCommandSig ::
    "'e crypto_scheme \<Rightarrow> time \<Rightarrow> bytes \<Rightarrow> u32 \<Rightarrow> bytes \<Rightarrow> state_st option \<Rightarrow> nat \<Rightarrow> nat
      \<Rightarrow> (int \<times> state_st option) outcome" where
  "verifyCommandSig C now authenticator auth_len command_name currstate pubKey maxDiff =
     bnd (mem_read authenticator 0 2) (\<lambda>hdr.
       let appname_len = unat (hdr ! 0) * 256 + unat (hdr ! 1) in
       c_assert C (auth_len = of_nat (2 + appname_len + state_len + c_rsa_size C pubKey))
        (bnd (mem_read authenticator (2 + appname_len) state_len) (\<lambda>st.
          let (state_ret, currstate') =
                verify_update_state_freshness now currstate (read_state st) maxDiff in
          if state_ret \<noteq> AUTH_OK \<and> state_ret \<noteq> INFO_STATE_NOT_VERIFIED
          then Ret (state_ret, currstate')
          else if \<not> mem C A_message then Undef
          else bnd (mem_read authenticator 2 appname_len) (\<lambda>appname.
                 bnd (mem_read authenticator (2 + appname_len + state_len) (c_rsa_size C pubKey))
                   (\<lambda>signature.
                     Ret (if c_rsa_verify C pubKey (c_sha256 C (command_name @ appname @ st)) signature
                          then AUTH_OK else FAIL_VERIFICATION_FAILED, currstate'))))))"

definition verifyCommand ::
    "'e crypto_scheme \<Rightarrow> time \<Rightarrow> bytes \<Rightarrow> bytes option \<Rightarrow> nat option \<Rightarrow> state_st option \<Rightarrow> nat
      \<Rightarrow> (int \<times> state_st option) outcome" where
  "verifyCommand C now authenticatedname fixtureKey pubkey currstate maxDiff =
     bnd (extractFromInterest C authenticatedname) (\<lambda>found.
       case found of
         None \<Rightarrow> Ret (FAIL_MISSING_AUTHENTICATOR, currstate)
       | Some (ret, authenticatorwithmagic, prefix) \<Rightarrow>
           (let authenticator = drop 4 authenticatorwithmagic;
                auth_len = of_nat (length authenticatorwithmagic) - 4 in
            if ret = AUTH_ASYMMETRIC then
              (case pubkey of
                 None \<Rightarrow> Ret (FAIL_VERIFICATION_KEY_NOT_PROVIDED, currstate)
               | Some k \<Rightarrow> verifyCommandSig C now authenticator auth_len prefix currstate k maxDiff)
            else if ret = AUTH_SYMMETRIC then
              (case fixtureKey of
                 Some (b # k) \<Rightarrow>
                   verifyCommandSymm C now authenticator auth_len prefix (b # k) currstate maxDiff
               | _ \<Rightarrow> Ret (FAIL_VERIFICATION_KEY_NOT_PROVIDED, currstate))
            else Ret (FAIL_MISSING_AUTHENTICATOR, currstate)))"

subsection \<open>Authenticator components\<close>

lemma state_wire_read: "length b = state_len \<Longrightarrow> state_wire (read_state b) = b"
proof -
  assume l: "length b = state_len"
  from take_drop_step [of 4 0 b] take_drop_step [of 4 4 b] take_drop_step [of 4 8 b]
  have "take 4 b @ take 4 (drop 4 b) @ take 4 (drop 8 b) @ drop 12 b = b"
    by simp
  with l show "state_wire (read_state b) = b"
    by (simp add: state_wire_def read_state_def be32_rd_be32 state_len_def)
qed

lemma len16_value:
  "length app < 65536 \<Longrightarrow>
   unat (len16 app ! 0) * 256 + unat (len16 app ! Suc 0) = length app"
  by (simp add: len16_def unat_of_nat take_bit_nat_eq_self take_bit_eq_mod)

lemma length_len16 [simp]: "length (len16 app) = 2"
  by (simp add: len16_def)

lemma len16_two_bytes:
  assumes "length h = 2" "length app = unat (h ! 0) * 256 + unat (h ! 1)"
  shows "h = len16 app"
proof -
  obtain x y where h: "h = [x, y]"
    using assms(1) by (auto simp: length_Suc_conv eval_nat_numeral)
  have "unat y < 256" "unat x < 256"
    by simp_all
  then have d: "length app div 256 = unat x" and m: "length app mod 256 = unat y"
    using assms(2) by (simp_all add: h)
  have "(of_nat (length app) :: byte) = of_nat (length app mod 256)"
    by (simp add: word_unat_eq_iff unat_of_nat take_bit_eq_mod)
  then show ?thesis
    using d m by (simp add: h len16_def)
qed

text \<open>The part of an authenticator component behind its magic number.\<close>

definition auth_body :: "bytes \<Rightarrow> state_st \<Rightarrow> bytes \<Rightarrow> bytes" where
  "auth_body app st tag = len16 app @ app @ state_wire st @ tag"

lemma length_auth_body: "length (auth_body app st tag) = 18 + length app + length tag"
  by (simp add: auth_body_def state_len_def)

lemma read_auth_body:
  assumes "length app < 65536"
  shows "mem_read (auth_body app st tag) 0 2 = Ret (len16 app)"
    and "mem_read (auth_body app st tag) 2 (length app) = Ret app"
    and "mem_read (auth_body app st tag) (2 + length app) state_len = Ret (state_wire st)"
    and "mem_read (auth_body app st tag) (2 + length app + state_len) (length tag) = Ret tag"
  by (simp_all add: auth_body_def mem_read_def)

text \<open>Every authenticator the length check lets through is of that form.\<close>

lemma auth_body_cases:
  assumes "mem_read a 0 2 = Ret h"
    and "n = unat (h ! 0) * 256 + unat (h ! 1)"
    and "mem_read a 2 n = Ret app"
    and "mem_read a (2 + n) state_len = Ret s"
    and "mem_read a (2 + n + state_len) k = Ret tag"
  shows "\<exists>rest. a = auth_body app (read_state s) tag @ rest \<and> length app < 65536"
proof -
  have l: "length h = 2" "length app = n" "length s = state_len" "length tag = k"
    using assms mem_read_length by blast+
  have e1: "a = h @ drop 2 a"
    using mem_read_drop [OF assms(1)] unfolding drop_0 add_0 .
  note e2 = mem_read_drop [OF assms(3)] and e3 = mem_read_drop [OF assms(4)]
    and e4 = mem_read_drop [OF assms(5)]
  have "a = h @ app @ s @ tag @ drop (2 + n + state_len + k) a"
    using e1 [unfolded e2 [unfolded e3 [unfolded e4]]] .
  moreover have "h = len16 app"
    using len16_two_bytes l assms(2) by simp
  moreover have "n < 65536"
    using unat_byte [of "h ! 0"] unat_byte [of "h ! 1"] assms(2) by linarith
  ultimately show ?thesis
    using l by (intro exI [of _ "drop (2 + n + state_len + k) a"])
      (simp add: auth_body_def state_wire_read)
qed

subsection \<open>Verification, step by step\<close>

lemma freshness_keeps_Some:
  "\<exists>cur'. snd (verify_update_state_freshness now (Some cur) st d) = Some cur'"
  by (auto simp: verify_update_state_freshness_def Let_def)

lemma freshness_ok:
  "verify_update_state_freshness now (Some cur) st d = (AUTH_OK, cur') \<longleftrightarrow>
     seq cur < seq st \<and> (d = 0 \<or> \<bar>c_div (to_int32 (age_us now st)) 1000\<bar> \<le> int d)
     \<and> cur' = Some (cur\<lparr>seq := seq st, tv_sec := word_of_int (fst now),
                          tv_usec := word_of_int (snd now)\<rparr>)"
  by (auto simp: verify_update_state_freshness_def auth_codes not_le)

lemma freshness_not_ok:
  "verify_update_state_freshness now (Some cur) st d = (r, cur') \<Longrightarrow> r \<noteq> AUTH_OK
   \<Longrightarrow> cur' = Some cur \<and> (r = FAIL_DUPLICATE_INTEREST \<or> r = FAIL_COMMAND_EXPIRED)"
  by (auto simp: verify_update_state_freshness_def split: if_splits)

locale crypto_lengths =
  fixes C :: "'e crypto_scheme"
  assumes sha256_length: "length (c_sha256 C m) = 32"
    and hmac_length: "length (c_hmac C k m) = 32"
begin

text \<open>The key a fixture derives for an application.\<close>

definition derived_key :: "bytes \<Rightarrow> bytes \<Rightarrow> bytes" where
  "derived_key fixtureKey app = c_hmac C fixtureKey (c_sha256 C app)"

lemma length_derived_key [simp]: "length (derived_key k app) = 32"
  by (simp add: derived_key_def hmac_length)

lemma appKey_eq:
  "mem C A_digest \<Longrightarrow> appKey C k (c_sha256 C app) = Ret (Some (derived_key k app))"
  by (simp add: appKey_def KDF_def derived_key_def APPIDLEN_def APPKEYLEN_def mem_read_def
      sha256_length hmac_length)

lemma appID_eq: "mem C A_digest \<Longrightarrow> appID C app = Some (c_sha256 C app)"
  by (simp add: appID_def APPIDLEN_def sha256_length)

lemma verify_symm_body:
  assumes "length app < 65536" "length mac = MACLEN" "mem C A_digest" "mem C A_message"
    and "auth_len = of_nat (length (auth_body app st mac))"
  shows "verifyCommandSymm C now (auth_body app st mac) auth_len cmd k cur d =
    (let (r, cur') = verify_update_state_freshness now cur st d in
     if r \<noteq> AUTH_OK \<and> r \<noteq> INFO_STATE_NOT_VERIFIED then Ret (r, cur')
     else Ret (if c_hmac C (derived_key k app) (cmd @ app @ state_wire st) \<noteq> mac
               then FAIL_VERIFICATION_FAILED else AUTH_OK, cur'))"
proof -
  note rd = read_auth_body [OF assms(1), of st mac]
  have "auth_len = of_nat (2 + length app + state_len + MACLEN)"
    using assms(2,5) by (simp add: length_auth_body MACLEN_def state_len_def)
  then show ?thesis
    using assms rd
    by (simp add: verifyCommandSymm_def len16_value [OF assms(1)] Let_def appID_eq
        appKey_eq hmac_length MACLEN_def split: prod.split del: of_nat_add)
qed

lemma verify_sig_body:
  assumes "length app < 65536" "length sg = c_rsa_size C key" "mem C A_message"
    and "auth_len = of_nat (length (auth_body app st sg))"
  shows "verifyCommandSig C now (auth_body app st sg) auth_len cmd cur key d =
    (let (r, cur') = verify_update_state_freshness now cur st d in
     if r \<noteq> AUTH_OK \<and> r \<noteq> INFO_STATE_NOT_VERIFIED then Ret (r, cur')
     else Ret (if c_rsa_verify C key (c_sha256 C (cmd @ app @ state_wire st)) sg
               then AUTH_OK else FAIL_VERIFICATION_FAILED, cur'))"
proof -
  note rd = read_auth_body [OF assms(1), of st sg]
  have "auth_len = of_nat (2 + length app + state_len + c_rsa_size C key)"
    using assms(2,4) by (simp add: length_auth_body state_len_def)
  then show ?thesis
    using assms rd
    by (simp add: verifyCommandSig_def len16_value [OF assms(1)] Let_def
        split: prod.split del: of_nat_add)
qed

text \<open>What acceptance implies, for any bytes whatever.\<close>

lemma symm_accepts:
  assumes "verifyCommandSymm C now a auth_len cmd k (Some cur) d = Ret (AUTH_OK, cur')"
    and "mem C A_digest"
  shows "\<exists>app st mac rest. a = auth_body app st mac @ rest \<and> length app < 65536
    \<and> mac = c_hmac C (derived_key k app) (cmd @ app @ state_wire st)
    \<and> (ndebug C \<or> auth_len = of_nat (length (auth_body app st mac)))
    \<and> verify_update_state_freshness now (Some cur) st d = (AUTH_OK, cur')"
proof -
  from assms obtain h app s mac where rd:
    "mem_read a 0 2 = Ret h"
    "mem_read a 2 (unat (h ! 0) * 256 + unat (h ! 1)) = Ret app"
    "mem_read a (2 + (unat (h ! 0) * 256 + unat (h ! 1))) state_len = Ret s"
    and fresh: "verify_update_state_freshness now (Some cur) (read_state s) d = (AUTH_OK, cur')"
    and al: "ndebug C \<or> auth_len = of_nat (2 + (unat (h ! 0) * 256 + unat (h ! 1)) + state_len + MACLEN)"
    and mac: "mem_read a (2 + (unat (h ! 0) * 256 + unat (h ! 1)) + state_len) MACLEN = Ret mac"
      "take MACLEN (c_hmac C (derived_key k app) (cmd @ app @ s)) = mac"
    by (auto simp: verifyCommandSymm_def bnd_eq_Ret c_assert_def Let_def appID_eq appKey_eq
        auth_codes verify_update_state_freshness_def split: if_splits prod.splits)
  from auth_body_cases [OF rd(1) refl rd(2,3) mac(1)] obtain rest where
    "a = auth_body app (read_state s) mac @ rest" "length app < 65536"
    by blast
  moreover have "state_wire (read_state s) = s"
    using rd(3) mem_read_length state_wire_read by blast
  moreover have "length app = unat (h ! 0) * 256 + unat (h ! 1)" "length mac = MACLEN"
    using rd(2) mac(1) mem_read_length by blast+
  then have "ndebug C \<or> auth_len = of_nat (length (auth_body app (read_state s) mac))"
    using al by (simp add: length_auth_body state_len_def add.commute del: of_nat_add)
  ultimately show ?thesis
    using fresh mac(2) by (intro exI [of _ app] exI [of _ "read_state s"] exI [of _ mac] exI [of _ rest])
      (simp add: hmac_length MACLEN_def)
qed

lemma sig_accepts:
  assumes "verifyCommandSig C now a auth_len cmd (Some cur) key d = Ret (AUTH_OK, cur')"
  shows "\<exists>app st sg rest. a = auth_body app st sg @ rest \<and> length app < 65536
    \<and> length sg = c_rsa_size C key
    \<and> c_rsa_verify C key (c_sha256 C (cmd @ app @ state_wire st)) sg
    \<and> verify_update_state_freshness now (Some cur) st d = (AUTH_OK, cur')"
proof -
  from assms obtain h app s sg where rd:
    "mem_read a 0 2 = Ret h"
    "mem_read a 2 (unat (h ! 0) * 256 + unat (h ! 1)) = Ret app"
    "mem_read a (2 + (unat (h ! 0) * 256 + unat (h ! 1))) state_len = Ret s"
    and fresh: "verify_update_state_freshness now (Some cur) (read_state s) d = (AUTH_OK, cur')"
    and sg: "mem_read a (2 + (unat (h ! 0) * 256 + unat (h ! 1)) + state_len) (c_rsa_size C key) = Ret sg"
      "c_rsa_verify C key (c_sha256 C (cmd @ app @ s)) sg"
    by (auto simp: verifyCommandSig_def bnd_eq_Ret c_assert_def Let_def
        auth_codes verify_update_state_freshness_def split: if_splits prod.splits)
  from auth_body_cases [OF rd(1) refl rd(2,3) sg(1)] obtain rest where
    "a = auth_body app (read_state s) sg @ rest" "length app < 65536"
    by blast
  moreover have "state_wire (read_state s) = s"
    using rd(3) mem_read_length state_wire_read by blast
  moreover have "length sg = c_rsa_size C key"
    using sg(1) mem_read_length by blast
  ultimately show ?thesis
    using fresh sg(2) by (intro exI [of _ app] exI [of _ "read_state s"] exI [of _ sg] exI [of _ rest])
      simp
qed

end

subsection \<open>Finding the authenticator in a name\<close>

definition magic_type :: "bytes \<Rightarrow> int" where
  "magic_type c =
     (if take 4 c = PK_AUTH_MAGIC then AUTH_ASYMMETRIC
      else if take 4 c = SK_AUTH_MAGIC then AUTH_SYMMETRIC
      else NOT_AUTHENTICATOR)"

text \<open>The search over components: the last one behind the first that starts with a magic number.\<close>

fun find_auth :: "bytes list \<Rightarrow> nat \<Rightarrow> (int \<times> bytes \<times> bytes list) option" where
  "find_auth cs 0 = None"
| "find_auth cs (Suc i) =
     (if magic_type (cs ! Suc i) \<noteq> NOT_AUTHENTICATOR
      then Some (magic_type (cs ! Suc i), cs ! Suc i, take (Suc i) cs)
      else find_auth cs i)"

lemma no_zero_in_magic: "0 \<notin> set PK_AUTH_MAGIC" "0 \<notin> set SK_AUTH_MAGIC"
  by (simp_all add: PK_AUTH_MAGIC_def SK_AUTH_MAGIC_def)

lemma magic_type_padded:
  assumes "length c < 4"
  shows "take 4 (c @ 0 # rest) \<noteq> PK_AUTH_MAGIC \<and> take 4 (c @ 0 # rest) \<noteq> SK_AUTH_MAGIC
    \<and> magic_type c = NOT_AUTHENTICATOR"
proof -
  have "0 \<in> set (take 4 (c @ 0 # rest))"
    using assms by (simp add: take_Cons')
  moreover have "length (take 4 c) \<noteq> 4"
    using assms by simp
  moreover have "length PK_AUTH_MAGIC = 4" "length SK_AUTH_MAGIC = 4"
    by (simp_all add: PK_AUTH_MAGIC_def SK_AUTH_MAGIC_def)
  ultimately show ?thesis
    using no_zero_in_magic by (metis magic_type_def)
qed

text \<open>
  The comparison reads four bytes whatever the component's length. Inside the buffer the
  bytes behind a short component begin with its closing zero, which no magic number holds.
\<close>

lemma detect_component:
  assumes "i < length cs" "Suc i < length cs \<or> 2 \<le> length (cs ! i)"
  shows "detect_autenticator (name_wire cs) (content_offset cs i) = Ret (magic_type (cs ! i))"
proof -
  let ?c = "cs ! i" and ?a = "after_content cs i"
  let ?x = "take 4 (?c @ 0 # ?a)"
  have la: "4 \<le> length ?c + 1 + length ?a"
    using assms(2) by (auto simp: after_content_def component_wire_eq Cons_nth_drop_Suc [symmetric])
  have "mem_read (name_wire cs) (content_offset cs i) 4 = Ret ?x"
    using la
    by (simp add: name_wire_at [OF assms(1)] mem_read_def
        length_before_content [OF assms(1), symmetric])
  moreover have "(if ?x = PK_AUTH_MAGIC then AUTH_ASYMMETRIC
      else if ?x = SK_AUTH_MAGIC then AUTH_SYMMETRIC else NOT_AUTHENTICATOR) = magic_type ?c"
  proof (cases "length ?c < 4")
    case True
    then show ?thesis using magic_type_padded [of ?c ?a] by simp
  next
    case False
    then have "?x = take 4 ?c" by simp
    then show ?thesis by (simp add: magic_type_def)
  qed
  ultimately show ?thesis
    unfolding detect_autenticator_def by (simp only: bnd.simps)
qed

lemma extract_from_spec:
  assumes "2 \<le> length (last cs)" "length (name_wire cs) < 2 ^ 31" "mem C A_message"
    and "i < length cs" "name_library C"
  shows "extract_from C (name_wire cs) (name_offsets cs) i
    = Ret (map_option (\<lambda>(t, a, p). (t, a, name_wire p)) (find_auth cs i))"
  using assms(4)
proof (induction i)
  case 0
  then show ?case by simp
next
  case (Suc i)
  note get = name_library.name_comp_get [OF assms(5)]
  have det: "detect_autenticator (name_wire cs) (content_offset cs (Suc i))
      = Ret (magic_type (cs ! Suc i))"
  proof (rule detect_component [OF Suc.prems])
    have "cs \<noteq> []" using Suc.prems by auto
    then have "length cs = Suc (Suc i) \<Longrightarrow> last cs = cs ! Suc i"
      by (simp add: last_conv_nth)
    then show "Suc (Suc i) < length cs \<or> 2 \<le> length (cs ! Suc i)"
      using Suc.prems assms(1) by (metis Suc_lessI)
  qed
  let ?n = "length (cs ! i) + content_offset cs i"
  have i: "i < length cs" using Suc.prems by simp
  have "length (name_wire cs) = ?n + 1 + length (after_content cs i)"
    using name_wire_at [OF i] length_before_content [OF i] by simp
  then have n: "?n + 2 < 2 ^ 32" using assms(2) by simp
  then have pl: "(((length (cs ! i) + content_offset cs i) mod 2 ^ 32) + 2) mod 2 ^ 32 = ?n + 2"
    by simp
  have pre: "mem_read (name_wire cs) 0 (?n + 1) = Ret (before_content cs i @ cs ! i @ [0])"
    using read_prefix [OF i] by (simp add: add.commute)
  show ?case
  proof (cases "magic_type (cs ! Suc i) = NOT_AUTHENTICATOR")
    case True
    then show ?thesis
      using Suc.IH Suc.prems get [OF Suc.prems] det by simp
  next
    case False
    then show ?thesis
      using get [OF Suc.prems] get [OF i] det pl pre assms(3) read_content [OF Suc.prems]
        name_wire_prefix [OF i]
      by (simp add: Let_def)
  qed
qed

lemma extract_spec:
  assumes "name_library C" "mem C A_indexbuf" "mem C A_message"
    and "cs \<noteq> [] \<Longrightarrow> 2 \<le> length (last cs)" "length (name_wire cs) < 2 ^ 31"
  shows "extractFromInterest C (name_wire cs)
    = Ret (map_option (\<lambda>(t, a, p). (t, a, name_wire p)) (find_auth cs (length cs - 1)))"
proof (cases cs)
  case Nil
  then show ?thesis
    using assms(1,2) name_library.name_split [OF assms(1), of cs]
    by (simp add: extractFromInterest_def)
next
  case (Cons c ds)
  then show ?thesis
    using assms name_library.name_split [OF assms(1), of cs]
      extract_from_spec [OF assms(4) assms(5,3) _ assms(1), of "length cs - 1"]
    by (simp add: extractFromInterest_def nat_diff_distrib)
qed

lemma find_auth_prefix:
  "i < length cs \<Longrightarrow> find_auth (cs @ extra) i = find_auth cs i"
  by (induction i) (auto simp: nth_append)

lemma find_auth_skip:
  assumes "\<forall>e \<in> set extra. magic_type e = NOT_AUTHENTICATOR" "n \<le> length extra"
  shows "find_auth ((pre @ [a]) @ extra) (length pre + n) = find_auth ((pre @ [a]) @ extra) (length pre)"
  using assms(2)
proof (induction n)
  case 0
  then show ?case by simp
next
  case (Suc n)
  then have "((pre @ [a]) @ extra) ! Suc (length pre + n) = extra ! n"
    by (simp add: nth_append)
  then show ?case
    using Suc assms(1) by simp
qed

lemma find_auth_trailing:
  "\<forall>e \<in> set extra. magic_type e = NOT_AUTHENTICATOR \<Longrightarrow>
   find_auth ((pre @ [a]) @ extra) (length ((pre @ [a]) @ extra) - 1)
     = find_auth (pre @ [a]) (length (pre @ [a]) - 1)"
  using find_auth_skip [of extra "length extra" pre a] find_auth_prefix [of "length pre" "pre @ [a]" extra]
  by simp

lemma find_auth_last:
  "pre \<noteq> [] \<Longrightarrow> magic_type a \<noteq> NOT_AUTHENTICATOR \<Longrightarrow>
   find_auth (pre @ [a]) (length pre) = Some (magic_type a, a, pre)"
  by (cases "length pre") (auto simp: nth_append)

end
