(* ===== verification/CommandAuth.thy ===== *)
theory CommandAuth
  imports NameCrypto
begin

section \<open>What command authentication guarantees\<close>

text \<open>
  The properties of the authenticators of theory \<open>NameCrypto\<close>: commands made with the
  right key are accepted, accepted commands carry a valid MAC, sequence numbers of accepted
  commands strictly increase, and the limits: the receiver's state moves before the MAC is
  checked, ages are taken modulo \<open>2^32\<close> microseconds, and components behind the
  authenticator are not protected.
\<close>

subsection \<open>Freshness\<close>

text \<open>The time between making a command and receiving it, in microseconds.\<close>

definition elapsed_us :: "time \<Rightarrow> time \<Rightarrow> int" where
  "elapsed_us sent received = (fst received - fst sent) * 1000000 + snd received - snd sent"

definition wall_clock :: "time \<Rightarrow> bool" where
  "wall_clock t \<longleftrightarrow> 0 \<le> fst t \<and> fst t < 2 ^ 32 \<and> 0 \<le> snd t \<and> snd t < 1000000"

lemma age_of_update:
  "wall_clock sent \<Longrightarrow> age_us received (update_state sent st) = elapsed_us sent received"
  by (simp add: wall_clock_def age_us_def update_state_def elapsed_us_def uint_word_of_int)

lemma recent_enough:
  "\<bar>x\<bar> < 2 ^ 31 \<Longrightarrow> \<bar>c_div (to_int32 x) 1000\<bar> = \<bar>x\<bar> div 1000"
  by (simp add: to_int32_id c_div_abs)

text \<open>The receiver's state after it accepts a command with the sequence number of \<open>st\<close>.\<close>

definition moved :: "time \<Rightarrow> state_st \<Rightarrow> state_st \<Rightarrow> state_st" where
  "moved now st cur =
     cur\<lparr>seq := seq st, tv_sec := word_of_int (fst now), tv_usec := word_of_int (snd now)\<rparr>"

lemma fresh_command:
  assumes "wall_clock sent" "seq cur < seq (update_state sent st)"
    and "d = 0 \<or> \<bar>elapsed_us sent received\<bar> < 2 ^ 31 \<and> \<bar>elapsed_us sent received\<bar> div 1000 \<le> int d"
  shows "verify_update_state_freshness received (Some cur) (update_state sent st) d
    = (AUTH_OK, Some (moved received (update_state sent st) cur))"
  using assms recent_enough [of "elapsed_us sent received"] age_of_update [OF assms(1)]
  by (auto simp: freshness_ok moved_def)

subsection \<open>The replay guard\<close>

text \<open>
  The contract of every verifier: it accepts only a command numbered above the state, whose
  number becomes the state's, and never lowers the state's number. \<open>accepted\<close> runs a
  verifier over the commands as they arrive.
\<close>

fun accepted :: "('i \<Rightarrow> 's \<Rightarrow> (int \<times> 's) outcome) \<Rightarrow> 'i list \<Rightarrow> 's \<Rightarrow> 'i list" where
  "accepted verify [] s = []"
| "accepted verify (i # is) s =
     (case verify i s of
        Ret (r, s') \<Rightarrow> (if r = AUTH_OK then i # accepted verify is s' else accepted verify is s')
      | _ \<Rightarrow> [])"

locale replay_guard =
  fixes verify :: "'i \<Rightarrow> 's \<Rightarrow> (int \<times> 's) outcome"
    and seq_no :: "'s \<Rightarrow> nat"
    and cmd_seq :: "'i \<Rightarrow> nat"
  assumes accept: "verify i s = Ret (AUTH_OK, s') \<Longrightarrow> seq_no s < cmd_seq i \<and> seq_no s' = cmd_seq i"
    and reject: "verify i s = Ret (r, s') \<Longrightarrow> seq_no s \<le> seq_no s'"
begin

lemma accepted_above: "i \<in> set (accepted verify is s) \<Longrightarrow> seq_no s < cmd_seq i"
proof (induction "is" arbitrary: s)
  case Nil
  then show ?case by simp
next
  case (Cons j js)
  then obtain r s' where v: "verify j s = Ret (r, s')"
    by (cases "verify j s") auto
  from Cons v reject [OF v] accept [of j s s'] show ?case
    by (cases "r = AUTH_OK") (fastforce)+
qed

lemma accepted_increasing:
  "sorted_wrt (\<lambda>i j. cmd_seq i < cmd_seq j) (accepted verify is s)"
proof (induction "is" arbitrary: s)
  case Nil
  then show ?case by simp
next
  case (Cons j js)
  show ?case
  proof (cases "verify j s")
    case (Ret x)
    obtain r s' where "x = (r, s')" by (cases x)
    then show ?thesis
      using Ret Cons.IH [of s'] accept [of j s s'] accepted_above [of _ js s'] by auto
  qed simp_all
qed

lemma no_replay: "distinct (accepted verify is s)"
proof -
  have "sorted_wrt (<) (map cmd_seq (accepted verify is s))"
    using accepted_increasing by (simp add: sorted_wrt_map)
  then show ?thesis
    using distinct_map strict_sorted_iff by blast
qed

end

text \<open>The two verifiers with a receiver that keeps a state.\<close>

definition on_state :: "(int \<times> state_st option) outcome \<Rightarrow> (int \<times> state_st) outcome" where
  "on_state m = bnd m (\<lambda>(r, s). case s of Some s' \<Rightarrow> Ret (r, s') | None \<Rightarrow> Undef)"

lemma on_state_Ret: "on_state m = Ret (r, s) \<longleftrightarrow> m = Ret (r, Some s)"
  by (auto simp: on_state_def bnd_eq_Ret split: option.splits)

definition auth_state :: "bytes \<Rightarrow> state_st" where
  "auth_state a =
     read_state (take state_len (drop (2 + (unat (take 2 a ! 0) * 256 + unat (take 2 a ! 1))) a))"

lemma symm_checks_freshness:
  assumes "verifyCommandSymm C now a al cmd k (Some cur) d = Ret (r, cur')"
  shows "cur' = snd (verify_update_state_freshness now (Some cur) (auth_state a) d)
    \<and> (r = AUTH_OK \<longrightarrow> fst (verify_update_state_freshness now (Some cur) (auth_state a) d) = AUTH_OK)"
  using assms
  by (auto simp: verifyCommandSymm_def bnd_eq_Ret c_assert_def Let_def auth_state_def
      mem_read_def verify_update_state_freshness_def auth_codes
      split: if_splits prod.splits option.splits)

lemma sig_checks_freshness:
  assumes "verifyCommandSig C now a al cmd (Some cur) key d = Ret (r, cur')"
  shows "cur' = snd (verify_update_state_freshness now (Some cur) (auth_state a) d)
    \<and> (r = AUTH_OK \<longrightarrow> fst (verify_update_state_freshness now (Some cur) (auth_state a) d) = AUTH_OK)"
  using assms
  by (auto simp: verifyCommandSig_def bnd_eq_Ret c_assert_def Let_def auth_state_def
      mem_read_def verify_update_state_freshness_def auth_codes
      split: if_splits prod.splits option.splits)

definition seq_nat :: "state_st \<Rightarrow> nat" where
  "seq_nat st = unat (seq st)"

lemma freshness_guards:
  assumes "Some cur' = snd (verify_update_state_freshness now (Some cur) st d)"
  shows "seq_nat cur \<le> seq_nat cur'"
    and "fst (verify_update_state_freshness now (Some cur) st d) = AUTH_OK
         \<Longrightarrow> seq_nat cur < seq_nat st \<and> seq_nat cur' = seq_nat st"
  using assms
  by (auto simp: verify_update_state_freshness_def auth_codes seq_nat_def
      word_less_nat_alt [symmetric] word_le_nat_alt [symmetric] split: if_splits)

definition symm_verify ::
    "'e crypto_scheme \<Rightarrow> bytes \<Rightarrow> nat \<Rightarrow> time \<times> bytes \<times> u32 \<times> bytes \<Rightarrow> state_st \<Rightarrow> (int \<times> state_st) outcome"
  where
  "symm_verify C k d i cur =
     (case i of (now, a, al, cmd) \<Rightarrow> on_state (verifyCommandSymm C now a al cmd k (Some cur) d))"

definition sig_verify ::
    "'e crypto_scheme \<Rightarrow> nat \<Rightarrow> nat \<Rightarrow> time \<times> bytes \<times> u32 \<times> bytes \<Rightarrow> state_st \<Rightarrow> (int \<times> state_st) outcome"
  where
  "sig_verify C key d i cur =
     (case i of (now, a, al, cmd) \<Rightarrow> on_state (verifyCommandSig C now a al cmd (Some cur) key d))"

interpretation symm_guard: replay_guard "symm_verify C k d" seq_nat "\<lambda>(now, a, al, cmd). seq_nat (auth_state a)"
  by unfold_locales
    (auto simp: symm_verify_def on_state_Ret dest!: symm_checks_freshness dest: freshness_guards)

interpretation sig_guard: replay_guard "sig_verify C key d" seq_nat "\<lambda>(now, a, al, cmd). seq_nat (auth_state a)"
  by unfold_locales
    (auto simp: sig_verify_def on_state_Ret dest!: sig_checks_freshness dest: freshness_guards)

text \<open>And the dispatcher over both, on whole names.\<close>

definition command_verify ::
    "'e crypto_scheme \<Rightarrow> bytes option \<Rightarrow> nat option \<Rightarrow> nat \<Rightarrow> time \<times> bytes \<Rightarrow> state_st
      \<Rightarrow> (int \<times> state_st) outcome" where
  "command_verify C fk pk d i cur =
     (case i of (now, name) \<Rightarrow> on_state (verifyCommand C now name fk pk (Some cur) d))"

definition command_seq :: "'e crypto_scheme \<Rightarrow> bytes \<Rightarrow> nat" where
  "command_seq C name =
     (case extractFromInterest C name of
        Ret (Some (t, a, p)) \<Rightarrow> seq_nat (auth_state (drop 4 a)) | _ \<Rightarrow> 0)"

lemma verifyCommand_checks:
  assumes "verifyCommand C now name fk pk (Some cur) d = Ret (r, cur')"
  shows "cur' = Some cur \<and> r \<noteq> AUTH_OK
    \<or> (\<exists>t a p. extractFromInterest C name = Ret (Some (t, a, p))
        \<and> cur' = snd (verify_update_state_freshness now (Some cur) (auth_state (drop 4 a)) d)
        \<and> (r = AUTH_OK \<longrightarrow>
             fst (verify_update_state_freshness now (Some cur) (auth_state (drop 4 a)) d) = AUTH_OK))"
proof -
  from assms obtain found where f: "extractFromInterest C name = Ret found"
    by (auto simp: verifyCommand_def bnd_eq_Ret)
  show ?thesis
  proof (cases found)
    case None
    then show ?thesis using assms f by (simp add: verifyCommand_def auth_codes)
  next
    case (Some x)
    obtain t a p where x: "x = (t, a, p)" by (cases x)
    from assms f Some x show ?thesis
      by (auto simp: verifyCommand_def auth_codes Let_def split: if_splits option.splits list.splits
          dest!: symm_checks_freshness sig_checks_freshness)
  qed
qed

lemma verifyCommand_keeps_state:
  "verifyCommand C now name fk pk (Some cur) d = Ret (r, s) \<Longrightarrow> \<exists>s'. s = Some s'"
  using freshness_keeps_Some by (fastforce dest!: verifyCommand_checks)

interpretation command_guard: replay_guard "command_verify C fk pk d" seq_nat
    "\<lambda>(now, name). command_seq C name"
proof unfold_locales
  show "seq_nat s \<le> seq_nat s'" if "command_verify C fk pk d i s = Ret (r, s')" for i s r s'
    using that freshness_guards(1)
    by (fastforce simp: command_verify_def on_state_Ret split: prod.splits
        dest!: verifyCommand_checks)
  show "seq_nat s < (case i of (now, name) \<Rightarrow> command_seq C name)
     \<and> seq_nat s' = (case i of (now, name) \<Rightarrow> command_seq C name)"
    if "command_verify C fk pk d i s = Ret (AUTH_OK, s')" for i s s'
    using that freshness_guards(2)
    by (fastforce simp: command_verify_def on_state_Ret command_seq_def split: prod.splits
        dest!: verifyCommand_checks)
qed

subsection \<open>Verifying a name that ends in an authenticator\<close>

text \<open>What the library and the machine must provide for the theorems below.\<close>

definition crypto_ready :: "'e crypto_scheme \<Rightarrow> bool" where
  "crypto_ready C \<longleftrightarrow> name_library C \<and> crypto_lengths C \<and> allocs_ok C"

lemma magic_of_sk [simp]: "magic_type (SK_AUTH_MAGIC @ x) = AUTH_SYMMETRIC"
  by (simp add: magic_type_def SK_AUTH_MAGIC_def PK_AUTH_MAGIC_def)

lemma magic_of_pk [simp]: "magic_type (PK_AUTH_MAGIC @ x) = AUTH_ASYMMETRIC"
  by (simp add: magic_type_def PK_AUTH_MAGIC_def)

lemma drop_magic [simp]: "drop 4 (SK_AUTH_MAGIC @ x) = x" "drop 4 (PK_AUTH_MAGIC @ x) = x"
  by (simp_all add: SK_AUTH_MAGIC_def PK_AUTH_MAGIC_def)

lemma length_magic [simp]: "length SK_AUTH_MAGIC = 4" "length PK_AUTH_MAGIC = 4"
  by (simp_all add: SK_AUTH_MAGIC_def PK_AUTH_MAGIC_def)

lemma extract_last:
  assumes "crypto_ready C" "pre \<noteq> []" "magic_type a \<noteq> NOT_AUTHENTICATOR" "2 \<le> length a"
    and "length (name_wire (pre @ [a])) < 2 ^ 31"
  shows "extractFromInterest C (name_wire (pre @ [a])) = Ret (Some (magic_type a, a, name_wire pre))"
  using assms find_auth_last [OF assms(2,3)]
  by (subst extract_spec) (auto simp: crypto_ready_def)

lemma verify_symm_name:
  assumes "crypto_ready C" "pre \<noteq> []" "length app < 65536" "length mac = MACLEN" "fk \<noteq> []"
    and "length (name_wire (pre @ [SK_AUTH_MAGIC @ auth_body app st mac])) < 2 ^ 31"
  shows "verifyCommand C now (name_wire (pre @ [SK_AUTH_MAGIC @ auth_body app st mac])) (Some fk) pk cur d =
    (let (r, cur') = verify_update_state_freshness now cur st d in
     if r \<noteq> AUTH_OK \<and> r \<noteq> INFO_STATE_NOT_VERIFIED then Ret (r, cur')
     else Ret (if c_hmac C (crypto_lengths.derived_key C fk app) (name_wire pre @ app @ state_wire st) \<noteq> mac
               then FAIL_VERIFICATION_FAILED else AUTH_OK, cur'))"
proof -
  let ?a = "auth_body app st mac"
  have cl: "crypto_lengths C" and m: "mem C A_digest" "mem C A_message"
    using assms(1) by (simp_all add: crypto_ready_def)
  obtain b k where fk: "fk = b # k" using assms(5) by (cases fk) auto
  have "(of_nat (4 + length ?a) :: u32) - 4 = of_nat (length ?a)"
    by simp
  note body = crypto_lengths.verify_symm_body [OF cl assms(3,4) m this]
  have "extractFromInterest C (name_wire (pre @ [SK_AUTH_MAGIC @ ?a]))
      = Ret (Some (AUTH_SYMMETRIC, SK_AUTH_MAGIC @ ?a, name_wire pre))"
    using extract_last [OF assms(1,2), of "SK_AUTH_MAGIC @ ?a"] assms(6)
    by (simp add: auth_types)
  then show ?thesis
    using body by (simp add: verifyCommand_def fk auth_types)
qed

lemma verify_sig_name:
  assumes "crypto_ready C" "pre \<noteq> []" "length app < 65536" "length sg = c_rsa_size C key"
    and "length (name_wire (pre @ [PK_AUTH_MAGIC @ auth_body app st sg])) < 2 ^ 31"
  shows "verifyCommand C now (name_wire (pre @ [PK_AUTH_MAGIC @ auth_body app st sg])) fk (Some key) cur d =
    (let (r, cur') = verify_update_state_freshness now cur st d in
     if r \<noteq> AUTH_OK \<and> r \<noteq> INFO_STATE_NOT_VERIFIED then Ret (r, cur')
     else Ret (if c_rsa_verify C key (c_sha256 C (name_wire pre @ app @ state_wire st)) sg
               then AUTH_OK else FAIL_VERIFICATION_FAILED, cur'))"
proof -
  let ?a = "auth_body app st sg"
  have cl: "crypto_lengths C" and m: "mem C A_message"
    using assms(1) by (simp_all add: crypto_ready_def)
  have "(of_nat (4 + length ?a) :: u32) - 4 = of_nat (length ?a)"
    by simp
  note body = crypto_lengths.verify_sig_body [OF cl assms(3,4) m this]
  have "extractFromInterest C (name_wire (pre @ [PK_AUTH_MAGIC @ ?a]))
      = Ret (Some (AUTH_ASYMMETRIC, PK_AUTH_MAGIC @ ?a, name_wire pre))"
    using extract_last [OF assms(1,2), of "PK_AUTH_MAGIC @ ?a"] assms(5)
    by (simp add: auth_types)
  then show ?thesis
    using body by (simp add: verifyCommand_def auth_types)
qed

lemma authenticate_symm:
  assumes "crypto_ready C" "length key = 32"
  shows "authenticateCommand C now st (name_wire pre) app key =
    Ret (update_state now st,
         name_wire (pre @ [SK_AUTH_MAGIC @ auth_body app (update_state now st)
           (c_hmac C key (name_wire pre @ app @ state_wire (update_state now st)))]))"
  using assms name_library.name_append [of C pre] crypto_lengths.hmac_length [of C]
  by (simp add: crypto_ready_def authenticateCommand_def Let_def mem_read_def APPKEYLEN_def
      MACLEN_def auth_body_def)

lemma authenticate_sig:
  assumes "crypto_ready C"
    and "c_rsa_sign C priv (c_sha256 C (name_wire pre @ app @ state_wire (update_state now st))) = Some sg"
  shows "authenticateCommandSig C now st (name_wire pre) app priv =
    Ret (update_state now st, name_wire (pre @ [PK_AUTH_MAGIC @ auth_body app (update_state now st) sg]))"
  using assms name_library.name_append [of C pre]
  by (simp add: crypto_ready_def authenticateCommandSig_def Let_def auth_body_def)

subsection \<open>Primitives for examples\<close>

text \<open>Checksums in place of the hash, the MAC and the signature, over the ndnb library.\<close>

definition demo_crypto :: crypto where
  "demo_crypto =
     ndnlib.extend ndnb_lib
       (crypto.fields
         (\<lambda>m. replicate 32 (sum_list m))
         (\<lambda>k m. replicate 32 (sum_list k + sum_list m))
         (\<lambda>_. 3)
         (\<lambda>key md. Some [of_nat key, sum_list md, 1])
         (\<lambda>key md sg. sg = [of_nat key, sum_list md, 1])
         Some)"

lemma demo_crypto_simps [simp]:
  "ndebug demo_crypto = False" "mem demo_crypto a = True"
  "l_name_append demo_crypto = nl_append" "l_name_split demo_crypto = nl_split"
  "l_name_comp_get demo_crypto = nl_comp_get"
  "c_sha256 demo_crypto m = replicate 32 (sum_list m)"
  "c_hmac demo_crypto k m = replicate 32 (sum_list k + sum_list m)"
  "c_rsa_size demo_crypto key = 3"
  "c_rsa_sign demo_crypto key md = Some [of_nat key, sum_list md, 1]"
  "c_rsa_verify demo_crypto key md sg = (sg = [of_nat key, sum_list md, 1])"
  "c_pkey_rsa demo_crypto key = Some key"
  "l_append demo_crypto = l_append ndnb_lib" "l_append_tt demo_crypto = l_append_tt ndnb_lib"
  "l_append_closer demo_crypto = l_append_closer ndnb_lib"
  "l_tagged_blob demo_crypto = l_tagged_blob ndnb_lib"
  "l_tagged_putf_d demo_crypto = l_tagged_putf_d ndnb_lib"
  "l_dtag demo_crypto = l_dtag ndnb_lib" "l_udata demo_crypto = l_udata ndnb_lib"
  by (simp_all add: demo_crypto_def ndnlib.defs crypto.defs ndnb_lib_def)

lemma demo_crypto_ready [simp]: "crypto_ready demo_crypto"
proof -
  have "name_library demo_crypto"
    by unfold_locales
      (simp_all add: demo_crypto_def ndnlib.defs crypto.defs ndnb_lib_def nl_append_def nl_split_def
        nl_comp_get_def read_name_wire name_offsets_def)
  moreover have "crypto_lengths demo_crypto"
    by unfold_locales simp_all
  ultimately show ?thesis
    by (simp add: crypto_ready_def allocs_ok_def)
qed

interpretation demo_crypto: crypto_lengths demo_crypto
  by unfold_locales simp_all

subsection \<open>Properties\<close>

text \<open>
  C3. Round trip with a shared key. A command authenticated with the application key that
  the fixture's key derives for the application is accepted by the fixture, if its sequence
  number is above the fixture's and it is not older than allowed (and less than \<open>2^31\<close>
  microseconds away), and the fixture's state moves to the command's number.
\<close>

theorem command_symm_roundtrip:
  assumes "crypto_ready C" "pre \<noteq> []" "length app < 65536" "fk \<noteq> []"
    and key: "appID C app = Some app_id" "appKey C fk app_id = Ret (Some key)"
    and made: "authenticateCommand C sent st (name_wire pre) app key = Ret (st', name)"
    and "length name < 2 ^ 31" "wall_clock sent" "seq cur < seq st'"
    and "d = 0 \<or> \<bar>elapsed_us sent received\<bar> < 2 ^ 31 \<and> \<bar>elapsed_us sent received\<bar> div 1000 \<le> int d"
  shows "verifyCommand C received name (Some fk) pk (Some cur) d
    = Ret (AUTH_OK, Some (moved received st' cur))"
proof -
  have cl: "crypto_lengths C" and m: "mem C A_digest"
    using assms(1) by (simp_all add: crypto_ready_def)
  have "app_id = c_sha256 C app"
    using key(1) crypto_lengths.appID_eq [OF cl m] by simp
  then have k: "key = crypto_lengths.derived_key C fk app"
    using key(2) crypto_lengths.appKey_eq [OF cl m] by simp
  have lk: "length key = 32"
    using crypto_lengths.length_derived_key [OF cl] k by simp
  from made have st': "st' = update_state sent st"
    and name: "name = name_wire (pre @ [SK_AUTH_MAGIC @ auth_body app (update_state sent st)
           (c_hmac C key (name_wire pre @ app @ state_wire (update_state sent st)))])"
    using authenticate_symm [OF assms(1) lk, of sent st pre app] by auto
  show ?thesis
    using verify_symm_name [OF assms(1-3) _ assms(4)] assms(8) name st'
      fresh_command [OF assms(9) _ assms(11), of cur st] assms(10)
    by (simp add: k crypto_lengths.hmac_length [OF cl] MACLEN_def)
qed

definition demo_state :: state_st where
  "demo_state = \<lparr>tv_sec = 0, tv_usec = 0, seq = 6, rsvd = 0\<rparr>"

lemma small_name_length:
  "length a < 128 \<Longrightarrow> length (name_wire [[1, 2], a]) < 2 ^ 31"
  by (simp add: name_wire_eq component_wire_eq ndnb_encode_def high_groups.simps Let_def NDN_BLOB_def)

theorem command_symm_roundtrip_witness:
  "\<exists>st' name. authenticateCommand demo_crypto (1000, 5) demo_state (name_wire [[1, 2]]) [0] (replicate 32 1)
       = Ret (st', name)
     \<and> verifyCommand demo_crypto (1001, 5) name (Some [1]) None (Some state_init) 2000
       = Ret (AUTH_OK, Some (moved (1001, 5) st' state_init))"
proof -
  let ?st' = "update_state (1000, 5) demo_state"
  let ?a = "SK_AUTH_MAGIC @ auth_body [0] ?st'
    (c_hmac demo_crypto (replicate 32 1) (name_wire [[1, 2]] @ [0] @ state_wire ?st'))"
  have made: "authenticateCommand demo_crypto (1000, 5) demo_state (name_wire [[1, 2]]) [0] (replicate 32 1)
      = Ret (?st', name_wire [[1, 2], ?a])"
    using authenticate_symm [OF demo_crypto_ready, of "replicate 32 1" "(1000, 5)" demo_state "[[1, 2]]"]
    by simp
  have "length ?a < 128"
    by (simp add: length_auth_body)
  note len = small_name_length [OF this]
  have "verifyCommand demo_crypto (1001, 5) (name_wire [[1, 2], ?a]) (Some [1]) None (Some state_init) 2000
      = Ret (AUTH_OK, Some (moved (1001, 5) ?st' state_init))"
    by (rule command_symm_roundtrip [OF demo_crypto_ready _ _ _ _ _ made len, where app_id = "replicate 32 0"])
      (simp_all add: appID_def appKey_def KDF_def mem_read_def auth_lengths sum_list_replicate
        wall_clock_def elapsed_us_def state_init_def update_state_def demo_state_def)
  with made show ?thesis
    by blast
qed

text \<open>
  C16. The same with RSA: if the public key verifies what the private key signs, a command
  signed with the one is accepted with the other, whatever the fixture key argument is,
  provided that its sequence number is above the receiver's and that, unless the bound on
  ages is 0 (no bound), its age is at most the bound and less than \<open>2^31\<close> microseconds, in
  either direction; the receiver's state moves to the command's number.
\<close>

theorem command_sig_roundtrip:
  assumes "crypto_ready C" "pre \<noteq> []" "length app < 65536"
    and pair: "\<forall>m sg. c_rsa_sign C priv (c_sha256 C m) = Some sg
                 \<longrightarrow> length sg = c_rsa_size C pub \<and> c_rsa_verify C pub (c_sha256 C m) sg"
    and made: "authenticateCommandSig C sent st (name_wire pre) app priv = Ret (st', name)"
    and "length name < 2 ^ 31" "wall_clock sent" "seq cur < seq st'"
    and "d = 0 \<or> \<bar>elapsed_us sent received\<bar> < 2 ^ 31 \<and> \<bar>elapsed_us sent received\<bar> div 1000 \<le> int d"
  shows "verifyCommand C received name fk (Some pub) (Some cur) d
    = Ret (AUTH_OK, Some (moved received st' cur))"
proof -
  from made obtain sg where sg:
    "c_rsa_sign C priv (c_sha256 C (name_wire pre @ app @ state_wire (update_state sent st))) = Some sg"
    using assms(1) by (auto simp: authenticateCommandSig_def crypto_ready_def Let_def split: option.splits)
  from made have st': "st' = update_state sent st"
    and name: "name = name_wire (pre @ [PK_AUTH_MAGIC @ auth_body app (update_state sent st) sg])"
    using authenticate_sig [OF assms(1) sg] by auto
  show ?thesis
    using verify_sig_name [OF assms(1-3)] assms(6) name st' pair sg
      fresh_command [OF assms(7) _ assms(9), of cur st] assms(8)
    by simp
qed

theorem command_sig_roundtrip_witness:
  "\<exists>st' name. authenticateCommandSig demo_crypto (1000, 5) demo_state (name_wire [[1, 2]]) [0] 9
       = Ret (st', name)
     \<and> verifyCommand demo_crypto (1000, 6) name None (Some 9) (Some state_init) 0
       = Ret (AUTH_OK, Some (moved (1000, 6) st' state_init))"
proof -
  let ?st' = "update_state (1000, 5) demo_state"
  let ?m = "name_wire [[1, 2]] @ [0] @ state_wire ?st'"
  let ?sg = "[9, sum_list (c_sha256 demo_crypto ?m), 1]"
  let ?a = "PK_AUTH_MAGIC @ auth_body [0] ?st' ?sg"
  have made: "authenticateCommandSig demo_crypto (1000, 5) demo_state (name_wire [[1, 2]]) [0] 9
      = Ret (?st', name_wire [[1, 2], ?a])"
    using authenticate_sig [OF demo_crypto_ready, of 9 "[[1, 2]]" "[0]" "(1000, 5)" demo_state ?sg]
    by simp
  have "length ?a < 128"
    by (simp add: length_auth_body)
  note len = small_name_length [OF this]
  have "verifyCommand demo_crypto (1000, 6) (name_wire [[1, 2], ?a]) None (Some 9) (Some state_init) 0
      = Ret (AUTH_OK, Some (moved (1000, 6) ?st' state_init))"
    by (rule command_sig_roundtrip [OF demo_crypto_ready _ _ _ made len])
      (simp_all add: wall_clock_def state_init_def update_state_def demo_state_def)
  with made show ?thesis
    by blast
qed

text \<open>
  C2. No replay. Whatever commands arrive, at whatever times and in whatever order, the
  sequence numbers of the accepted ones strictly increase and start above the state's; so no
  command is accepted twice, not even with another arrival time.
\<close>

theorem accepted_commands_increase:
  "sorted_wrt (\<lambda>(_, name) (_, name'). command_seq C name < command_seq C name')
     (accepted (command_verify C fk pk d) arrivals cur)
   \<and> distinct (map snd (accepted (command_verify C fk pk d) arrivals cur))
   \<and> list_all (\<lambda>(_, name). seq_nat cur < command_seq C name)
       (accepted (command_verify C fk pk d) arrivals cur)"
proof -
  let ?acc = "accepted (command_verify C fk pk d) arrivals cur"
  have sorted: "sorted_wrt (\<lambda>i j. command_seq C (snd i) < command_seq C (snd j)) ?acc"
    using command_guard.accepted_increasing [of C fk pk d arrivals cur]
    by (simp add: split_beta)
  have "sorted_wrt (<) (map (command_seq C) (map snd ?acc))"
    using sorted by (simp add: sorted_wrt_map comp_def)
  then have "distinct (map snd ?acc)"
    using distinct_map strict_sorted_iff by blast
  moreover have "list_all (\<lambda>(_, name). seq_nat cur < command_seq C name) ?acc"
    using command_guard.accepted_above [of _ C fk pk d arrivals cur]
    by (fastforce simp: list_all_iff)
  moreover have "sorted_wrt (\<lambda>(_, name) (_, name'). command_seq C name < command_seq C name') ?acc"
    by (rule sorted_wrt_mono_rel [OF _ sorted]) auto
  ultimately show ?thesis
    by simp
qed

text \<open>
  C10. What acceptance proves, in builds with and without assertions. If a fixture accepts by
  its shared key a name whose last component has two bytes or more, then some
  component behind the first starts with an authenticator, its MAC is the one of the
  components before it, the application name and the state under the key derived for that
  application, and the sequence number is above the receiver's, which moves to it. With assertions the authenticator is
  the whole component; without, anything may follow it there. Of the age it proves this much:
  reduced to a signed number of 32 bits of microseconds it is within the bound; the age
  itself may be larger by a multiple of \<open>2^32\<close> microseconds.
\<close>

theorem symm_acceptance_sound:
  assumes "crypto_ready C" "cs \<noteq> []" "2 \<le> length (last cs)" "length (name_wire cs) < 2 ^ 31"
    and "verifyCommand C now (name_wire cs) (Some fk) None (Some cur) d = Ret (AUTH_OK, cur')"
  shows "\<exists>i app st key app_id rest. 0 < i \<and> i < length cs
    \<and> appID C app = Some app_id \<and> appKey C fk app_id = Ret (Some key)
    \<and> cs ! i = SK_AUTH_MAGIC @ auth_body app st
                  (c_hmac C key (name_wire (take i cs) @ app @ state_wire st)) @ rest
    \<and> (\<not> ndebug C \<longrightarrow> rest = [])
    \<and> seq cur < seq st \<and> (d = 0 \<or> \<bar>c_div (to_int32 (age_us now st)) 1000\<bar> \<le> int d)
    \<and> cur' = Some (moved now st cur)"
proof -
  have cl: "crypto_lengths C" and m: "mem C A_digest" "mem C A_indexbuf" "mem C A_message"
    and nl: "name_library C"
    using assms(1) by (simp_all add: crypto_ready_def)
  have found: "find_auth cs n = Some (t, a, p) \<Longrightarrow> n < length cs \<Longrightarrow>
      \<exists>i. 0 < i \<and> i < length cs \<and> a = cs ! i \<and> p = take i cs \<and> t = magic_type a" for n t a p
    by (induction n) (auto split: if_splits)
  from assms(5) obtain t a p where f: "find_auth cs (length cs - 1) = Some (t, a, p)"
    and v: "verifyCommandSymm C now (drop 4 a) (of_nat (length a) - 4) (name_wire p) fk (Some cur) d
              = Ret (AUTH_OK, cur')" and t: "t = AUTH_SYMMETRIC"
    using extract_spec [OF nl m(2,3) assms(3,4)]
    by (auto simp: verifyCommand_def bnd_eq_Ret auth_codes auth_types Let_def
        split: option.splits if_splits list.splits)
  from found [OF f] assms(2) obtain i where i: "0 < i" "i < length cs" "a = cs ! i" "p = take i cs"
    "t = magic_type a"
    by (metis diff_less length_greater_0_conv less_numeral_extra(1))
  from crypto_lengths.symm_accepts [OF cl v m(1)] obtain app st mac rest where
    b: "drop 4 a = auth_body app st mac @ rest" "length app < 65536"
      "mac = c_hmac C (crypto_lengths.derived_key C fk app) (name_wire p @ app @ state_wire st)"
      "ndebug C \<or> (of_nat (length a) - 4 :: u32) = of_nat (length (auth_body app st mac))"
      "verify_update_state_freshness now (Some cur) st d = (AUTH_OK, cur')"
    by auto
  have sk: "take 4 a = SK_AUTH_MAGIC"
    using i(5) t by (auto simp: magic_type_def auth_types split: if_splits)
  then have a: "a = SK_AUTH_MAGIC @ auth_body app st mac @ rest"
    using b(1) by (metis append_take_drop_id)
  have "length a \<le> length (name_wire cs)"
    using name_wire_at [OF i(2)] i(3) by simp
  then have "length (auth_body app st mac @ rest) < 2 ^ 31"
    using assms(4) a by simp
  moreover have "(of_nat (length (auth_body app st mac @ rest)) :: u32) = of_nat (length (auth_body app st mac))"
    if "\<not> ndebug C"
    using b(4) a that by simp
  ultimately have "\<not> ndebug C \<longrightarrow> rest = []"
    by (auto simp: word_unat_eq_iff unat_of_nat_small simp del: of_nat_add)
  moreover have "cs ! i = SK_AUTH_MAGIC @ auth_body app st (c_hmac C (crypto_lengths.derived_key C fk app)
      (name_wire (take i cs) @ app @ state_wire st)) @ rest"
    using i(3,4) a b(3) by simp
  moreover have "seq cur < seq st" "d = 0 \<or> \<bar>c_div (to_int32 (age_us now st)) 1000\<bar> \<le> int d"
    "cur' = Some (moved now st cur)"
    using b(5) unfolding freshness_ok moved_def by blast+
  ultimately show ?thesis
    using i(1,2) crypto_lengths.appID_eq [OF cl m(1), of app] crypto_lengths.appKey_eq [OF cl m(1), of fk app]
    by metis
qed

definition demo_sent :: state_st where
  "demo_sent = \<lparr>tv_sec = 1000, tv_usec = 5, seq = 7, rsvd = 0\<rparr>"

definition demo_mac :: bytes where
  "demo_mac = c_hmac demo_crypto (replicate 32 1) (name_wire [[1, 2]] @ [0] @ state_wire demo_sent)"

definition demo_component :: "bytes \<Rightarrow> bytes" where
  "demo_component mac = SK_AUTH_MAGIC @ auth_body [0] demo_sent mac"

lemma demo_key: "crypto_lengths.derived_key demo_crypto [1] [0] = replicate 32 1"
  by (simp add: demo_crypto.derived_key_def sum_list_replicate)

lemma length_demo_component:
  "length mac = 32 \<Longrightarrow> length (name_wire [[1, 2], demo_component mac]) < 2 ^ 31"
  by (rule small_name_length) (simp add: demo_component_def length_auth_body)

lemma length_demo_mac [simp]: "length demo_mac = 32"
  by (simp add: demo_mac_def)

lemma demo_mac_eq:
  "c_hmac demo_crypto (replicate 32 1) (name_wire [[1, 2]] @ 0 # state_wire demo_sent) = demo_mac"
  by (simp add: demo_mac_def del: demo_crypto_simps)

lemma demo_fresh:
  "verify_update_state_freshness (1001, 5) (Some state_init) demo_sent 2000
     = (AUTH_OK, Some (moved (1001, 5) demo_sent state_init))"
  by (simp add: freshness_ok moved_def state_init_def demo_sent_def age_us_def recent_enough)

lemma demo_accepted:
  "verifyCommand demo_crypto (1001, 5) (name_wire [[1, 2], demo_component demo_mac]) (Some [1]) pk
     (Some state_init) 2000 = Ret (AUTH_OK, Some (moved (1001, 5) demo_sent state_init))"
  using verify_symm_name [OF demo_crypto_ready, of "[[1, 2]]" "[0]" demo_mac "[1]" demo_sent "(1001, 5)" pk
      "Some state_init" 2000] length_demo_component [of demo_mac]
  by (simp add: demo_component_def MACLEN_def demo_fresh demo_key demo_mac_eq del: demo_crypto_simps)

theorem symm_acceptance_sound_witness:
  "\<exists>i app st key app_id rest. 0 < i \<and> i < length [[1, 2], demo_component demo_mac]
    \<and> appID demo_crypto app = Some app_id \<and> appKey demo_crypto [1] app_id = Ret (Some key)
    \<and> [[1, 2], demo_component demo_mac] ! i = SK_AUTH_MAGIC @ auth_body app st
        (c_hmac demo_crypto key (name_wire (take i [[1, 2], demo_component demo_mac]) @ app @ state_wire st)) @ rest
    \<and> (\<not> ndebug demo_crypto \<longrightarrow> rest = []) \<and> seq state_init < seq st
    \<and> ((2000::nat) = 0 \<or> \<bar>c_div (to_int32 (age_us (1001, 5) st)) 1000\<bar> \<le> int 2000)
    \<and> Some (moved (1001, 5) demo_sent state_init) = Some (moved (1001, 5) st state_init)"
proof (rule symm_acceptance_sound [OF demo_crypto_ready])
  show "2 \<le> length (last [[1, 2], demo_component demo_mac])"
    by (simp add: demo_component_def)
qed (use demo_accepted length_demo_component [of demo_mac] in simp_all)

text \<open>
  C15. A forged command does damage before it is refused. With a wrong MAC but a fresh state
  the verifier answers \<^verbatim>\<open>FAIL_VERIFICATION_FAILED\<close>, yet the fixture's state has
  moved to the forged number: every genuine command numbered up to it is refused from then
  on.
\<close>

theorem forged_command_blocks:
  assumes "crypto_ready C" "pre \<noteq> []" "length app < 65536" "length mac = MACLEN" "fk \<noteq> []"
    and "length (name_wire (pre @ [SK_AUTH_MAGIC @ auth_body app st mac])) < 2 ^ 31"
    and "appID C app = Some app_id" "appKey C fk app_id = Ret (Some key)"
    and wrong: "mac \<noteq> c_hmac C key (name_wire pre @ app @ state_wire st)"
    and fresh: "seq cur < seq st" "d = 0 \<or> \<bar>c_div (to_int32 (age_us now st)) 1000\<bar> \<le> int d"
  shows "verifyCommand C now (name_wire (pre @ [SK_AUTH_MAGIC @ auth_body app st mac])) (Some fk) pk (Some cur) d
      = Ret (FAIL_VERIFICATION_FAILED, Some (moved now st cur))
    \<and> (command_seq C genuine \<le> seq_nat st \<longrightarrow>
         verifyCommand C later genuine fk' pk' (Some (moved now st cur)) d' \<noteq> Ret (AUTH_OK, s))"
proof -
  have cl: "crypto_lengths C" and m: "mem C A_digest"
    using assms(1) by (simp_all add: crypto_ready_def)
  have "app_id = c_sha256 C app"
    using assms(7) crypto_lengths.appID_eq [OF cl m] by simp
  then have key: "key = crypto_lengths.derived_key C fk app"
    using assms(8) crypto_lengths.appKey_eq [OF cl m, of fk app] by simp
  have fr: "verify_update_state_freshness now (Some cur) st d = (AUTH_OK, Some (moved now st cur))"
    using fresh by (simp add: freshness_ok moved_def)
  have "verifyCommand C now (name_wire (pre @ [SK_AUTH_MAGIC @ auth_body app st mac])) (Some fk) pk (Some cur) d
      = Ret (FAIL_VERIFICATION_FAILED, Some (moved now st cur))"
    using verify_symm_name [OF assms(1-6)] fr wrong key by simp
  moreover have "verifyCommand C later genuine fk' pk' (Some (moved now st cur)) d' \<noteq> Ret (AUTH_OK, s)"
    if "command_seq C genuine \<le> seq_nat st"
  proof
    assume acc: "verifyCommand C later genuine fk' pk' (Some (moved now st cur)) d' = Ret (AUTH_OK, s)"
    from verifyCommand_keeps_state [OF acc] obtain s' where "s = Some s'"
      by blast
    then have "command_verify C fk' pk' d' (later, genuine) (moved now st cur) = Ret (AUTH_OK, s')"
      using acc by (simp add: command_verify_def on_state_Ret)
    from command_guard.accept [OF this] show False
      using that by (simp add: seq_nat_def moved_def)
  qed
  ultimately show ?thesis
    by blast
qed

theorem forged_command_blocks_witness:
  "verifyCommand demo_crypto (1001, 5) (name_wire [[1, 2], demo_component (replicate 32 0)]) (Some [1]) None
       (Some state_init) 2000
     = Ret (FAIL_VERIFICATION_FAILED, Some (moved (1001, 5) demo_sent state_init))"
proof -
  have "sum_list (state_wire demo_sent) = 247"
    by (simp add: state_wire_def demo_sent_def be32_def)
  moreover have "sum_list (name_wire [[1, 2]]) = 132"
    by (simp add: name_wire_eq component_wire_eq ndnb_encode_def high_groups.simps Let_def NDN_BLOB_def)
  ultimately have "replicate 32 0 \<noteq> c_hmac demo_crypto (replicate 32 1) (name_wire [[1, 2]] @ [0] @ state_wire demo_sent)"
    by (simp add: sum_list_replicate)
  moreover have "length (name_wire ([[1, 2]] @ [SK_AUTH_MAGIC @ auth_body [0] demo_sent (replicate 32 0)])) < 2 ^ 31"
    using length_demo_component [of "replicate 32 0"] by (simp add: demo_component_def)
  ultimately have "verifyCommand demo_crypto (1001, 5)
      (name_wire ([[1, 2]] @ [SK_AUTH_MAGIC @ auth_body [0] demo_sent (replicate 32 0)])) (Some [1]) None
       (Some state_init) 2000
     = Ret (FAIL_VERIFICATION_FAILED, Some (moved (1001, 5) demo_sent state_init))"
    using demo_fresh
    by (intro forged_command_blocks [where app_id = "replicate 32 0" and key = "replicate 32 1", THEN conjunct1])
      (auto simp: appID_def appKey_def KDF_def mem_read_def auth_lengths sum_list_replicate freshness_ok
        simp del: demo_crypto_simps(7) simp: demo_crypto_simps(7) [of "[1]" "replicate 32 0"])
  then show ?thesis
    by (simp add: demo_component_def)
qed

text \<open>
  C31. The freshness check, on every branch: a number not above the state's is a duplicate
  whatever its age; otherwise the age in microseconds is reduced to 32 bits, and the command
  is expired if the result, in milliseconds, exceeds the bound in either direction. For ages
  below \<open>2^31\<close> microseconds that is the age itself; two ages that differ by a multiple of
  \<open>2^32\<close> microseconds (71 minutes and 35 seconds) are judged alike.
\<close>

theorem freshness_window:
  assumes "age_us later st = age_us now st + 2 ^ 32 * k"
  shows "fst (verify_update_state_freshness now (Some cur) st d)
      = (if seq st \<le> seq cur then FAIL_DUPLICATE_INTEREST
         else if 0 < d \<and> int d < \<bar>to_int32 (age_us now st)\<bar> div 1000 then FAIL_COMMAND_EXPIRED
         else AUTH_OK)
    \<and> (\<bar>age_us now st\<bar> < 2 ^ 31 \<longrightarrow> to_int32 (age_us now st) = age_us now st)
    \<and> fst (verify_update_state_freshness later (Some cur) st d)
      = fst (verify_update_state_freshness now (Some cur) st d)"
proof -
  have "to_int32 (age_us now st + 2 ^ 32 * k) = to_int32 (age_us now st)"
    by (simp add: to_int32_def signed_take_bit_eq_iff_take_bit_eq take_bit_eq_mod)
  then show ?thesis
    using assms
    by (auto simp: verify_update_state_freshness_def c_div_abs intro: to_int32_id)
qed

theorem freshness_window_witness:
  "fst (verify_update_state_freshness (1000 + 4294, 967301) (Some state_init) demo_sent 1) = AUTH_OK"
proof -
  have "age_us (1000 + 4294, 967301) demo_sent = age_us (1000, 5) demo_sent + 2 ^ 32 * 1"
    by (simp add: age_us_def demo_sent_def)
  from freshness_window [OF this, of state_init 1] show ?thesis
    by (simp add: age_us_def demo_sent_def state_init_def to_int32_id)
qed

text \<open>
  C32. The authenticator protects what stands before it only: components appended to a name that are
  not authenticators themselves change neither the verdict nor the new state, whatever the keys, the
  state and the bound are, if the last component is of two bytes or more before and after. A name that ends in an
  authenticator may be accepted or refused; the longer name has the same fate.
\<close>

theorem trailing_components_ignored:
  assumes "crypto_ready C" "2 \<le> length a" "extra \<noteq> []" "2 \<le> length (last extra)"
    and "\<forall>e \<in> set extra. magic_type e = NOT_AUTHENTICATOR"
    and "length (name_wire ((pre @ [a]) @ extra)) < 2 ^ 31"
  shows "verifyCommand C now (name_wire ((pre @ [a]) @ extra)) fk pk cur d
    = verifyCommand C now (name_wire (pre @ [a])) fk pk cur d"
proof -
  have nl: "name_library C" "mem C A_indexbuf" "mem C A_message"
    using assms(1) by (simp_all add: crypto_ready_def)
  have short: "length (name_wire (pre @ [a])) < 2 ^ 31"
    using assms(6) by (simp add: name_wire_eq)
  have "extractFromInterest C (name_wire ((pre @ [a]) @ extra))
      = extractFromInterest C (name_wire (pre @ [a]))"
    using extract_spec [OF nl _ assms(6)] extract_spec [OF nl _ short] assms(2-4)
      find_auth_trailing [OF assms(5), of pre a]
    by simp
  then show ?thesis
    by (simp add: verifyCommand_def)
qed

theorem trailing_components_ignored_witness:
  "verifyCommand demo_crypto (1001, 5) (name_wire (([[1, 2]] @ [demo_component demo_mac]) @ [[3, 3]])) (Some [1])
     None (Some state_init) 2000
   = verifyCommand demo_crypto (1001, 5) (name_wire ([[1, 2]] @ [demo_component demo_mac])) (Some [1])
     None (Some state_init) 2000"
proof (rule trailing_components_ignored [OF demo_crypto_ready])
  show "length (name_wire (([[1, 2]] @ [demo_component demo_mac]) @ [[3, 3]])) < 2 ^ 31"
    using length_demo_component [of demo_mac]
    by (simp add: demo_component_def name_wire_eq component_wire_eq ndnb_encode_def high_groups.simps
        Let_def NDN_BLOB_def length_auth_body del: demo_crypto_simps)
qed (simp_all add: demo_component_def magic_type_def SK_AUTH_MAGIC_def PK_AUTH_MAGIC_def)

text \<open>
  C33. A build with assertions can be stopped from the network. If the last component of a name is an
  authenticator for a shared key whose length is not the one its length field calls for (and it has this
  field), a verifier with a shared key fails an assertion, before it looks at the MAC, the
  sequence number or the age.
\<close>

theorem bad_length_aborts:
  assumes "crypto_ready C" "\<not> ndebug C" "pre \<noteq> []" "fk \<noteq> []"
    and "2 \<le> length body" "length (name_wire (pre @ [SK_AUTH_MAGIC @ body])) < 2 ^ 31"
    and "length body \<noteq> 2 + (unat (body ! 0) * 256 + unat (body ! 1)) + state_len + MACLEN"
  shows "verifyCommand C now (name_wire (pre @ [SK_AUTH_MAGIC @ body])) (Some fk) pk cur d = Abort"
proof -
  obtain b k where fk: "fk = b # k" using assms(4) by (cases fk) auto
  have hdr: "mem_read body 0 2 = Ret (take 2 body)"
    using assms(5) by (simp add: mem_read_def)
  have "length (SK_AUTH_MAGIC @ body) \<le> length (name_wire (pre @ [SK_AUTH_MAGIC @ body]))"
    by (simp add: name_wire_eq component_wire_eq)
  then have lb: "length body < 2 ^ 32"
    using assms(6) by simp
  let ?n = "2 + (unat (body ! 0) * 256 + unat (body ! 1)) + state_len + MACLEN"
  have "?n < 65600"
    using unat_byte [of "body ! 0"] unat_byte [of "body ! 1"] unfolding auth_lengths by linarith
  then have "?n < 2 ^ 32"
    by (rule order.strict_trans) simp
  then have "(of_nat (length body) :: u32) \<noteq> of_nat ?n"
    using lb assms(7) of_nat_u32_eq by blast
  then show ?thesis
    using extract_last [OF assms(1,3), of "SK_AUTH_MAGIC @ body"] assms(2,5,6) hdr
    by (simp add: verifyCommand_def fk auth_types verifyCommandSymm_def Let_def)
qed

theorem bad_length_aborts_witness:
  "verifyCommand demo_crypto (0, 0) (name_wire ([[1, 2]] @ [SK_AUTH_MAGIC @ [0, 0]])) (Some [1]) None
     (Some state_init) 1 = Abort"
  by (rule bad_length_aborts [OF demo_crypto_ready])
    (simp_all add: auth_lengths name_wire_eq component_wire_eq ndnb_encode_def high_groups.simps
      Let_def NDN_BLOB_def)

end
