(* ===== verification/Objects.thy ===== *)
theory Objects
  imports PyValues "HOL-Library.Multiset"
begin

section \<open>Capsules: csrc/objects.c\<close>

text \<open>
  Every C structure the module hands to Python travels in a \<^verbatim>\<open>PyCapsule\<close> whose name
  says what it points to. This theory models the table of capsule names, the constructors,
  the checks and the destructor of \<^verbatim>\<open>objects.c\<close>, and shows that for every type the table
  lists the name identifies the type, and that the destructor releases exactly what the
  capsule owns. It also shows what the table does not list: \<^verbatim>\<open>SIGNING_PARAMS\<close> is
  missing, so the entry of \<^verbatim>\<open>NAMECRYPTO_STATE\<close> is off by one.
\<close>

subsection \<open>Capsule types and their names\<close>

datatype capsule_type =
    CLOSURE | CONTENT_OBJECT | EXCLUSION_FILTER | HANDLE | INTEREST | KEY_LOCATOR | NAME
  | PKEY_PRIV | PKEY_PUB | SIGNATURE | SIGNED_INFO | SIGNING_PARAMS | NAMECRYPTO_STATE

fun capsule_code :: "capsule_type \<Rightarrow> nat" where
  "capsule_code CLOSURE = 1"
| "capsule_code CONTENT_OBJECT = 2"
| "capsule_code EXCLUSION_FILTER = 3"
| "capsule_code HANDLE = 4"
| "capsule_code INTEREST = 5"
| "capsule_code KEY_LOCATOR = 6"
| "capsule_code NAME = 7"
| "capsule_code PKEY_PRIV = 8"
| "capsule_code PKEY_PUB = 9"
| "capsule_code SIGNATURE = 10"
| "capsule_code SIGNED_INFO = 11"
| "capsule_code SIGNING_PARAMS = 12"
| "capsule_code NAMECRYPTO_STATE = 13"

definition g_types_to_names :: "(capsule_type option \<times> string option) list" where
  "g_types_to_names =
     [(Some CLOSURE, Some ''Closure_ndn_data''),
      (Some CONTENT_OBJECT, Some ''Data_ndn_data''),
      (Some EXCLUSION_FILTER, Some ''ExclusionFilter_ndn_data''),
      (Some HANDLE, Some ''NDN_ndn_data''),
      (Some INTEREST, Some ''Interest_ndn_data''),
      (Some KEY_LOCATOR, Some ''KeyLocator_ndn_data''),
      (Some NAME, Some ''Name_ndn_data''),
      (Some PKEY_PRIV, Some ''PKEY_PRIV_ndn_data''),
      (Some PKEY_PUB, Some ''PKEY_PUB_ndn_data''),
      (Some SIGNATURE, Some ''Signature_ndn_data''),
      (Some SIGNED_INFO, Some ''SignedInfo_ndn_data''),
      (Some NAMECRYPTO_STATE, Some ''Namecrypto_state''),
      (None, None)]"

text \<open>
  \<^verbatim>\<open>type2name\<close> indexes the table by the distance from the first type; a \<^verbatim>\<open>NULL\<close>
  name is \<open>None\<close>.
\<close>

definition type2name :: "'e env_scheme \<Rightarrow> capsule_type \<Rightarrow> string option outcome" where
  "type2name E ty =
     c_assert E (0 < capsule_code ty)
      (c_assert E (capsule_code ty < length g_types_to_names)
        (let i = capsule_code ty - capsule_code CLOSURE in
         if length g_types_to_names \<le> i then Undef
         else c_assert E (fst (g_types_to_names ! i) = Some ty)
                (Ret (snd (g_types_to_names ! i)))))"

fun lookup_name :: "(capsule_type option \<times> string option) list \<Rightarrow> string
    \<Rightarrow> capsule_type outcome" where
  "lookup_name ((Some ty, Some n) # rest) s = (if n = s then Ret ty else lookup_name rest s)"
| "lookup_name _ s = Abort"

definition name2type :: "'e env_scheme \<Rightarrow> string option \<Rightarrow> capsule_type outcome" where
  "name2type E nm =
     (case nm of
        None \<Rightarrow> c_assert E False Undef
      | Some s \<Rightarrow> lookup_name g_types_to_names s)"

text \<open>The types whose table entry is where \<^verbatim>\<open>type2name\<close> looks for it.\<close>

definition listed :: "capsule_type \<Rightarrow> bool" where
  "listed ty \<longleftrightarrow> ty \<noteq> SIGNING_PARAMS \<and> ty \<noteq> NAMECRYPTO_STATE"

fun capsule_name :: "capsule_type \<Rightarrow> string" where
  "capsule_name CLOSURE = ''Closure_ndn_data''"
| "capsule_name CONTENT_OBJECT = ''Data_ndn_data''"
| "capsule_name EXCLUSION_FILTER = ''ExclusionFilter_ndn_data''"
| "capsule_name HANDLE = ''NDN_ndn_data''"
| "capsule_name INTEREST = ''Interest_ndn_data''"
| "capsule_name KEY_LOCATOR = ''KeyLocator_ndn_data''"
| "capsule_name NAME = ''Name_ndn_data''"
| "capsule_name PKEY_PRIV = ''PKEY_PRIV_ndn_data''"
| "capsule_name PKEY_PUB = ''PKEY_PUB_ndn_data''"
| "capsule_name SIGNATURE = ''Signature_ndn_data''"
| "capsule_name SIGNED_INFO = ''SignedInfo_ndn_data''"
| "capsule_name SIGNING_PARAMS = ''SigningParams''"
| "capsule_name NAMECRYPTO_STATE = ''Namecrypto_state''"

lemma listed_simps [simp]:
  "listed CLOSURE" "listed CONTENT_OBJECT" "listed EXCLUSION_FILTER" "listed HANDLE"
  "listed INTEREST" "listed KEY_LOCATOR" "listed NAME" "listed PKEY_PRIV" "listed PKEY_PUB"
  "listed SIGNATURE" "listed SIGNED_INFO" "\<not> listed SIGNING_PARAMS" "\<not> listed NAMECRYPTO_STATE"
  by (simp_all add: listed_def)

lemma type2name_listed [simp, outcome_simps]:
  "listed ty \<Longrightarrow> type2name E ty = Ret (Some (capsule_name ty))"
  by (cases ty) (simp_all add: type2name_def g_types_to_names_def)

lemma type2name_unlisted_asserts:
  "\<not> listed ty \<Longrightarrow> \<not> ndebug E \<Longrightarrow> type2name E ty = Abort"
  by (cases ty) (simp_all add: type2name_def g_types_to_names_def)

lemma type2name_unlisted_ndebug:
  assumes "ndebug E"
  shows "type2name E SIGNING_PARAMS = Ret (Some ''Namecrypto_state'')"
    and "type2name E NAMECRYPTO_STATE = Ret None"
  using assms by (simp_all add: type2name_def g_types_to_names_def)

lemma name2type_listed [simp]:
  "listed ty \<Longrightarrow> name2type E (Some (capsule_name ty)) = Ret ty"
  by (cases ty) (simp_all add: name2type_def g_types_to_names_def)

lemma capsule_name_inj [simp]: "capsule_name a = capsule_name b \<longleftrightarrow> a = b"
  by (cases a; cases b) simp_all

subsection \<open>The destructor\<close>

text \<open>The resources a capsule's destructor gives back.\<close>

datatype release =
    R_decref_closure nat
  | R_free_closure
  | R_free_pco
  | R_indexbuf_destroy
  | R_free_context
  | R_free_pi
  | R_charbuf_destroy
  | R_disconnect
  | R_handle_destroy
  | R_pubkey_free
  | R_template_destroy
  | R_free_params
  | R_free_state

definition data_releases :: "content_object_data \<Rightarrow> release list" where
  "data_releases d =
     (case pco d of None \<Rightarrow> [] | Some _ \<Rightarrow> [R_free_pco]) @
     (case comps d of None \<Rightarrow> [] | Some _ \<Rightarrow> [R_indexbuf_destroy]) @ [R_free_context]"

definition interest_releases :: "interest_data \<Rightarrow> release list" where
  "interest_releases d =
     (case pi d of None \<Rightarrow> [] | Some _ \<Rightarrow> [R_free_pi]) @ [R_free_context]"

text \<open>
  \<^verbatim>\<open>pyndn_Capsule_Destructor\<close>. A pointer that is not what the type promises is type
  confusion, hence \<open>Undef\<close>; but \<^verbatim>\<open>NAMECRYPTO_STATE\<close>, whose name a build without assertions gives
  to signing parameters, frees any block.
\<close>

definition capsule_destructor :: "'e env_scheme \<Rightarrow> capsule \<Rightarrow> release list outcome" where
  "capsule_destructor E c =
     bnd (name2type E (cap_name c)) (\<lambda>ty.
       case ty of
         CLOSURE \<Rightarrow>
           (case (cap_context c, cap_pointer c) of
              (ClosureContext obj, P_Closure self) \<Rightarrow>
                c_assert E self (Ret [R_decref_closure obj, R_free_closure])
            | _ \<Rightarrow> c_assert E False Undef)
       | CONTENT_OBJECT \<Rightarrow>
           (case (cap_context c, cap_pointer c) of
              (DataContext d, P_Charbuf _) \<Rightarrow> Ret (data_releases d @ [R_charbuf_destroy])
            | (NoContext, P_Charbuf _) \<Rightarrow> Ret [R_charbuf_destroy]
            | _ \<Rightarrow> Undef)
       | HANDLE \<Rightarrow>
           (case cap_pointer c of
              P_Handle _ \<Rightarrow> Ret [R_disconnect, R_handle_destroy] | _ \<Rightarrow> Undef)
       | INTEREST \<Rightarrow>
           (case (cap_context c, cap_pointer c) of
              (InterestContext d, P_Charbuf _) \<Rightarrow> Ret (interest_releases d @ [R_charbuf_destroy])
            | (NoContext, P_Charbuf _) \<Rightarrow> Ret [R_charbuf_destroy]
            | _ \<Rightarrow> Undef)
       | PKEY_PRIV \<Rightarrow>
           (case cap_pointer c of P_Pkey _ \<Rightarrow> Ret [R_pubkey_free] | _ \<Rightarrow> Undef)
       | PKEY_PUB \<Rightarrow>
           (case cap_pointer c of P_Pkey _ \<Rightarrow> Ret [R_pubkey_free] | _ \<Rightarrow> Undef)
       | SIGNING_PARAMS \<Rightarrow>
           (case cap_pointer c of
              P_SigningParams p \<Rightarrow>
                Ret ((if sp_template_ndnb p \<noteq> None then [R_template_destroy] else []) @ [R_free_params])
            | _ \<Rightarrow> Undef)
       | NAMECRYPTO_STATE \<Rightarrow>
           (case cap_pointer c of
              P_State _ \<Rightarrow> Ret [R_free_state]
            | P_SigningParams _ \<Rightarrow> Ret [R_free_params]
            | _ \<Rightarrow> Undef)
       | _ \<Rightarrow>
           (case cap_pointer c of P_Charbuf _ \<Rightarrow> Ret [R_charbuf_destroy] | _ \<Rightarrow> Undef))"

text \<open>
  What a capsule owns, read off its fields: the structure behind the pointer and the parsed
  forms kept in its context.
\<close>

fun pointer_owned :: "payload \<Rightarrow> release multiset" where
  "pointer_owned (P_Charbuf _) = {#R_charbuf_destroy#}"
| "pointer_owned (P_Handle _) = {#R_disconnect, R_handle_destroy#}"
| "pointer_owned (P_Pkey _) = {#R_pubkey_free#}"
| "pointer_owned (P_Closure _) = {#R_free_closure#}"
| "pointer_owned (P_SigningParams p) =
     (if sp_template_ndnb p = None then {#R_free_params#} else {#R_free_params, R_template_destroy#})"
| "pointer_owned (P_State _) = {#R_free_state#}"

fun context_owned :: "capsule_context \<Rightarrow> release multiset" where
  "context_owned NoContext = {#}"
| "context_owned (DataContext d) =
     {#R_free_context#} + (if pco d = None then {#} else {#R_free_pco#})
     + (if comps d = None then {#} else {#R_indexbuf_destroy#})"
| "context_owned (InterestContext d) =
     {#R_free_context#} + (if pi d = None then {#} else {#R_free_pi#})"
| "context_owned (ClosureContext obj) = {#R_decref_closure obj#}"

text \<open>A capsule whose pointer and context are what its name promises.\<close>

fun is_charbuf :: "payload \<Rightarrow> bool" where
  "is_charbuf (P_Charbuf _) = True"
| "is_charbuf _ = False"

definition matches :: "capsule_type \<Rightarrow> payload \<Rightarrow> capsule_context \<Rightarrow> bool" where
  "matches ty p x =
     (case x of
        ClosureContext _ \<Rightarrow> ty = CLOSURE \<and> p = P_Closure True
      | DataContext _ \<Rightarrow> ty = CONTENT_OBJECT \<and> is_charbuf p
      | InterestContext _ \<Rightarrow> ty = INTEREST \<and> is_charbuf p
      | NoContext \<Rightarrow>
          (case p of
             P_Charbuf _ \<Rightarrow>
               ty \<in> set [EXCLUSION_FILTER, KEY_LOCATOR, NAME, SIGNATURE, SIGNED_INFO]
           | P_Handle _ \<Rightarrow> ty = HANDLE
           | P_Pkey _ \<Rightarrow> ty = PKEY_PRIV \<or> ty = PKEY_PUB
           | P_State _ \<Rightarrow> ty = NAMECRYPTO_STATE
           | _ \<Rightarrow> False))"

definition capsule_ok :: "capsule \<Rightarrow> bool" where
  "capsule_ok c \<longleftrightarrow>
     (\<exists>ty. listed ty \<and> cap_name c = Some (capsule_name ty)
           \<and> matches ty (cap_pointer c) (cap_context c))"

lemma destructor_releases_owned:
  assumes "capsule_ok c"
  shows "\<exists>rs. capsule_destructor E c = Ret rs
              \<and> mset rs = pointer_owned (cap_pointer c) + context_owned (cap_context c)"
proof -
  from assms obtain ty where ty: "listed ty" "cap_name c = Some (capsule_name ty)"
    "matches ty (cap_pointer c) (cap_context c)"
    by (auto simp: capsule_ok_def)
  have del: "name2type E (cap_name c) = Ret ty"
    using ty(1,2) by simp
  show ?thesis
    using ty(3) unfolding capsule_destructor_def del
    by (cases "cap_context c"; cases "cap_pointer c")
      (auto simp: matches_def data_releases_def interest_releases_def split: option.splits)
qed

subsection \<open>Constructors\<close>

text \<open>
  \<^verbatim>\<open>NDNObject_New\<close> returns the capsule and, where it fails after the capsule exists,
  what dropping the last reference to that capsule released on the way out.
\<close>

definition NDNObject_New ::
    "'e env_scheme \<Rightarrow> capsule_type \<Rightarrow> payload \<Rightarrow> capsule outcome \<times> release list" where
  "NDNObject_New E ty p =
     (case type2name E ty of
        Ret nm \<Rightarrow>
          if \<not> mem E A_capsule then (Raise MemoryError, [])
          else
            (let c = \<lparr>cap_pointer = p, cap_name = nm, cap_context = NoContext, cap_owned = True\<rparr> in
             if ty = CONTENT_OBJECT \<or> ty = INTEREST then
               (if mem E A_context
                then (Ret (c\<lparr>cap_context :=
                        (if ty = INTEREST then InterestContext \<lparr>pi = None\<rparr>
                         else DataContext \<lparr>pco = None, comps = None\<rparr>)\<rparr>), [])
                else (case capsule_destructor E c of
                        Ret rs \<Rightarrow> (Raise MemoryError, rs)
                      | Raise e \<Rightarrow> (Raise e, [])
                      | Abort \<Rightarrow> (Abort, [])
                      | Undef \<Rightarrow> (Undef, [])))
             else (Ret c, []))
      | Raise e \<Rightarrow> (Raise e, [])
      | Abort \<Rightarrow> (Abort, [])
      | Undef \<Rightarrow> (Undef, []))"

definition NDNObject_Borrow ::
    "'e env_scheme \<Rightarrow> capsule_type \<Rightarrow> payload \<Rightarrow> capsule option outcome" where
  "NDNObject_Borrow E ty p =
     bnd (type2name E ty) (\<lambda>nm.
       c_assert E (mem E A_capsule)
         (Ret (if mem E A_capsule
               then Some \<lparr>cap_pointer = p, cap_name = nm, cap_context = NoContext,
                          cap_owned = False\<rparr>
               else None)))"

text \<open>
  \<^verbatim>\<open>NDNObject_New_charbuf\<close> destroys the buffer itself when the capsule cannot be
  made. If the capsule's own destructor has destroyed it by then, that is a second
  destruction of the same buffer.
\<close>

definition charbuf_types :: "capsule_type list" where
  "charbuf_types =
     [CONTENT_OBJECT, EXCLUSION_FILTER, INTEREST, KEY_LOCATOR, NAME, SIGNATURE, SIGNED_INFO]"

definition NDNObject_New_charbuf :: "'e env_scheme \<Rightarrow> capsule_type \<Rightarrow> capsule outcome" where
  "NDNObject_New_charbuf E ty =
     c_assert E (ty \<in> set charbuf_types)
       (jump_if_null_mem (mem E A_charbuf)
         (case NDNObject_New E ty (P_Charbuf []) of
            (Ret c, _) \<Rightarrow> Ret c
          | (r, released) \<Rightarrow> if R_charbuf_destroy \<in> set released then Undef else r))"

text \<open>\<^verbatim>\<open>NDNObject_New_Closure\<close>: the structure is zeroed, so \<^verbatim>\<open>data\<close> is not set yet.\<close>

definition NDNObject_New_Closure :: "'e env_scheme \<Rightarrow> capsule outcome" where
  "NDNObject_New_Closure E =
     jump_if_null_mem (mem E A_closure) (fst (NDNObject_New E CLOSURE (P_Closure False)))"

subsection \<open>Checks\<close>

definition capsule_is_valid :: "string option \<Rightarrow> pyval \<Rightarrow> bool" where
  "capsule_is_valid nm v = (case v of PyCapsule c \<Rightarrow> cap_name c = nm | _ \<Rightarrow> False)"

definition NDNObject_IsValid :: "'e env_scheme \<Rightarrow> capsule_type \<Rightarrow> pyval \<Rightarrow> bool outcome" where
  "NDNObject_IsValid E ty v = bnd (type2name E ty) (\<lambda>nm. Ret (capsule_is_valid nm v))"

text \<open>Formatting a \<^verbatim>\<open>NULL\<close> name with \<^verbatim>\<open>%s\<close> is undefined.\<close>

definition NDNObject_ReqType :: "'e env_scheme \<Rightarrow> capsule_type \<Rightarrow> pyval \<Rightarrow> unit outcome" where
  "NDNObject_ReqType E ty v =
     bnd (type2name E ty) (\<lambda>nm.
       if capsule_is_valid nm v then Ret ()
       else if nm = None then Undef else Raise TypeError)"

definition NDNObject_Get :: "'e env_scheme \<Rightarrow> capsule_type \<Rightarrow> pyval \<Rightarrow> payload option outcome" where
  "NDNObject_Get E ty v =
     bnd (NDNObject_IsValid E ty v) (\<lambda>valid.
       c_assert E valid
         (Ret (if valid then (case v of PyCapsule c \<Rightarrow> Some (cap_pointer c) | _ \<Rightarrow> None)
               else None)))"

text \<open>
  What the callers do with the pointer: read the character buffer behind it. Any other
  structure, or \<^verbatim>\<open>NULL\<close>, is read through at the caller's peril.
\<close>

definition get_charbuf :: "'e env_scheme \<Rightarrow> capsule_type \<Rightarrow> pyval \<Rightarrow> bytes outcome" where
  "get_charbuf E ty v =
     bnd (NDNObject_Get E ty v) (\<lambda>p. case p of Some (P_Charbuf b) \<Rightarrow> Ret b | _ \<Rightarrow> Undef)"

definition get_pkey :: "'e env_scheme \<Rightarrow> capsule_type \<Rightarrow> pyval \<Rightarrow> nat outcome" where
  "get_pkey E ty v =
     bnd (NDNObject_Get E ty v) (\<lambda>p. case p of Some (P_Pkey k) \<Rightarrow> Ret k | _ \<Rightarrow> Undef)"

text \<open>Writing into the buffer of a capsule just made.\<close>

definition fill :: "capsule \<Rightarrow> bytes \<Rightarrow> pyval" where
  "fill c b = PyCapsule (c\<lparr>cap_pointer := P_Charbuf b\<rparr>)"

subsection \<open>The contract of the constructors and checks\<close>

definition has_type :: "capsule_type \<Rightarrow> pyval \<Rightarrow> bool" where
  "has_type ty v = capsule_is_valid (Some (capsule_name ty)) v"

text \<open>The capsule \<^verbatim>\<open>NDNObject_New_charbuf\<close> makes, once its buffer holds \<open>b\<close>.\<close>

definition fresh_context :: "capsule_type \<Rightarrow> capsule_context" where
  "fresh_context ty =
     (if ty = INTEREST then InterestContext \<lparr>pi = None\<rparr>
      else if ty = CONTENT_OBJECT then DataContext \<lparr>pco = None, comps = None\<rparr>
      else NoContext)"

definition box :: "capsule_type \<Rightarrow> bytes \<Rightarrow> pyval" where
  "box ty b =
     PyCapsule \<lparr>cap_pointer = P_Charbuf b, cap_name = Some (capsule_name ty),
                cap_context = fresh_context ty, cap_owned = True\<rparr>"

lemma charbuf_types_listed: "ty \<in> set charbuf_types \<Longrightarrow> listed ty"
  by (auto simp: charbuf_types_def)

lemma New_charbuf_ok [outcome_simps]:
  assumes "ty \<in> set charbuf_types" "allocs_ok E"
  shows "bnd (NDNObject_New_charbuf E ty) (\<lambda>c. k (fill c b)) = k (box ty b)"
  using assms charbuf_types_listed [OF assms(1)]
  by (auto simp: NDNObject_New_charbuf_def NDNObject_New_def jump_if_null_mem_def fill_def
      box_def fresh_context_def)

lemma is_valid_listed [simp, outcome_simps]:
  "listed ty \<Longrightarrow> NDNObject_IsValid E ty v = Ret (has_type ty v)"
  by (simp add: NDNObject_IsValid_def has_type_def)

lemma req_type_listed [simp, outcome_simps]:
  "listed ty \<Longrightarrow> NDNObject_ReqType E ty v = (if has_type ty v then Ret () else Raise TypeError)"
  by (simp add: NDNObject_ReqType_def has_type_def)

lemma has_type_box [simp]: "has_type ty (box ty' b) \<longleftrightarrow> ty = ty'"
  by (auto simp: has_type_def capsule_is_valid_def box_def)

lemma get_charbuf_box [simp]: "listed ty \<Longrightarrow> get_charbuf E ty (box ty b) = Ret b"
  by (simp add: get_charbuf_def NDNObject_Get_def) (simp add: box_def)

lemma capsule_ok_box:
  "ty \<in> set charbuf_types \<Longrightarrow> (\<exists>c. box ty b = PyCapsule c \<and> capsule_ok c)"
  by (auto simp: box_def capsule_ok_def fresh_context_def matches_def charbuf_types_def
      intro!: exI [of _ ty])

text \<open>
  The interface the wire components rely on: a box of one type opens as that type and as
  no other.
\<close>

locale typed_boxes =
  fixes box_of :: "'t \<Rightarrow> 'b \<Rightarrow> 'v"
    and valid :: "'t \<Rightarrow> 'v \<Rightarrow> bool"
    and open_box :: "'t \<Rightarrow> 'v \<Rightarrow> 'b outcome"
    and types :: "'t set"
  assumes valid_box: "t' \<in> types \<Longrightarrow> valid t (box_of t' b) \<longleftrightarrow> t = t'"
    and open_same: "t \<in> types \<Longrightarrow> open_box t (box_of t b) = Ret b"
begin

lemma box_inj: "t \<in> types \<Longrightarrow> t' \<in> types \<Longrightarrow> box_of t b = box_of t' b' \<longleftrightarrow> t = t' \<and> b = b'"
  by (metis open_same outcome.inject(1) valid_box)

lemma exactly_one_type: "t' \<in> types \<Longrightarrow> \<exists>!t. valid t (box_of t' b)"
  by (auto simp: valid_box)

end

interpretation capsule_boxes: typed_boxes box has_type "get_charbuf E" "set charbuf_types"
  by unfold_locales (auto simp: charbuf_types_listed)

subsection \<open>Properties\<close>

text \<open>
  The name table round-trips: for every type \<^verbatim>\<open>type2name\<close> finds, \<^verbatim>\<open>name2type\<close> of the
  name is the type, and two types never share a name. The two types it does not find are
  \<^verbatim>\<open>SIGNING_PARAMS\<close>, missing from the table, and \<^verbatim>\<open>NAMECRYPTO_STATE\<close>, whose entry
  stands one place early: with assertions on the process stops, with \<^verbatim>\<open>NDEBUG\<close> the
  former gets the latter's name and the latter gets \<^verbatim>\<open>NULL\<close>.
\<close>

theorem capsule_name_table:
  "(if listed ty
    then (\<exists>s. type2name E ty = Ret (Some s) \<and> name2type E (Some s) = Ret ty
              \<and> (type2name E ty' = Ret (Some s) \<longleftrightarrow> ty' = ty))
    else if \<not> ndebug E then type2name E ty = Abort
    else type2name E ty = Ret (if ty = SIGNING_PARAMS then Some ''Namecrypto_state'' else None))"
proof (cases "listed ty")
  case True
  have "type2name E ty' \<noteq> Ret (Some (capsule_name ty))" if "\<not> listed ty'"
    using that True type2name_unlisted_ndebug [of E] type2name_unlisted_asserts [of ty' E]
    by (cases "ndebug E"; cases ty'; cases ty) auto
  then show ?thesis
    using True by (cases "listed ty'") auto
next
  case False
  then show ?thesis
    using type2name_unlisted_ndebug [of E] type2name_unlisted_asserts [of ty E]
    by (cases ty) auto
qed

text \<open>
  C36. The destructor releases each resource its capsule owns exactly once and nothing
  else: the structure behind the pointer, the parsed forms and the context block, and for
  a callback capsule its reference to the Python closure.
\<close>

theorem destructor_exact:
  assumes "capsule_ok c"
  shows "\<exists>rs. capsule_destructor E c = Ret rs
              \<and> mset rs = pointer_owned (cap_pointer c) + context_owned (cap_context c)"
  using assms by (rule destructor_releases_owned)

theorem destructor_exact_witness:
  "\<exists>rs. capsule_destructor \<lparr>ndebug = False, mem = (\<lambda>_. True)\<rparr>
          \<lparr>cap_pointer = P_Charbuf [1], cap_name = Some ''Data_ndn_data'',
           cap_context = DataContext \<lparr>pco = Some zero_pco, comps = None\<rparr>, cap_owned = True\<rparr>
        = Ret rs \<and> mset rs = {#R_charbuf_destroy#} + ({#R_free_context#} + {#R_free_pco#} + {#})"
proof -
  have "capsule_ok \<lparr>cap_pointer = P_Charbuf [1], cap_name = Some ''Data_ndn_data'',
           cap_context = DataContext \<lparr>pco = Some zero_pco, comps = None\<rparr>, cap_owned = True\<rparr>"
    unfolding capsule_ok_def by (rule exI [of _ CONTENT_OBJECT]) (simp add: matches_def)
  from destructor_exact [OF this, of "\<lparr>ndebug = False, mem = (\<lambda>_. True)\<rparr>"] show ?thesis
    by simp
qed

text \<open>
  When the context block of a \<^verbatim>\<open>CONTENT_OBJECT\<close> or \<^verbatim>\<open>INTEREST\<close> capsule cannot be
  allocated, \<^verbatim>\<open>NDNObject_New_charbuf\<close> destroys the buffer a second time, after the
  capsule's destructor has; when only the buffer or the capsule cannot be allocated it
  raises \<^verbatim>\<open>MemoryError\<close>; and when all three can, the result is a fresh capsule of the type.
\<close>

theorem new_charbuf_outcomes:
  "ty \<in> set charbuf_types \<Longrightarrow>
   NDNObject_New_charbuf E ty =
     (if \<not> mem E A_charbuf \<or> \<not> mem E A_capsule then Raise MemoryError
      else if ty \<in> {CONTENT_OBJECT, INTEREST} \<and> \<not> mem E A_context then Undef
      else Ret \<lparr>cap_pointer = P_Charbuf [], cap_name = Some (capsule_name ty),
                cap_context = fresh_context ty, cap_owned = True\<rparr>)"
  using charbuf_types_listed [of ty]
  by (auto simp: NDNObject_New_charbuf_def NDNObject_New_def jump_if_null_mem_def
      fresh_context_def capsule_destructor_def
      name2type_listed [of CONTENT_OBJECT, simplified] name2type_listed [of INTEREST, simplified])

theorem new_charbuf_outcomes_witness:
  "NDNObject_New_charbuf \<lparr>ndebug = False, mem = (\<lambda>a. a \<noteq> A_context)\<rparr> INTEREST = Undef"
  using new_charbuf_outcomes [of INTEREST "\<lparr>ndebug = False, mem = (\<lambda>a. a \<noteq> A_context)\<rparr>"]
  by (simp add: charbuf_types_def)

end
