(* ===== verification/NameCryptoM.thy ===== *)
theory NameCryptoM
  imports CommandAuth Objects
begin

section \<open>The command authenticators from Python: csrc/methods\_namecrypto.c\<close>

text \<open>
  The commands check their arguments and pass them to theory \<open>NameCrypto\<close>. The state is a
  C structure behind a capsule that the calls change in place: a command returns its result
  together with the structure's new contents. \<open>now\<close> is the time \<^verbatim>\<open>gettimeofday\<close>
  gives. The capsule type of the state has no entry in the table of names (theory
  \<open>Objects\<close>), so a build with assertions cannot make one; the last part shows both what
  happens there and that with \<^verbatim>\<open>NDEBUG\<close> the protocol works.
\<close>

definition cmd_nc_new_state :: "'e crypto_scheme \<Rightarrow> pyval outcome" where
  "cmd_nc_new_state C =
     jump_if_null_mem (mem C A_nc_state)
       (bnd (fst (NDNObject_New C NAMECRYPTO_STATE (P_State state_init))) (\<lambda>c. Ret (PyCapsule c)))"

definition get_state :: "'e crypto_scheme \<Rightarrow> pyval \<Rightarrow> state_st outcome" where
  "get_state C v =
     bnd (NDNObject_Get C NAMECRYPTO_STATE v) (\<lambda>p.
       case p of Some (P_State st) \<Rightarrow> Ret st | _ \<Rightarrow> Undef)"

definition cmd_nc_authenticate_command ::
    "'e crypto_scheme \<Rightarrow> time \<Rightarrow> pyval list \<Rightarrow> (pyval \<times> state_st) outcome" where
  "cmd_nc_authenticate_command C now args =
     (case args of
        [py_state, py_name, py_appname, py_appkey] \<Rightarrow>
          bnd (NDNObject_ReqType C NAMECRYPTO_STATE py_state) (\<lambda>_.
          bnd (NDNObject_ReqType C NAME py_name) (\<lambda>_.
          bnd (get_state C py_state) (\<lambda>auth_state.
          bnd (get_charbuf C NAME py_name) (\<lambda>name.
          bnd (bytes_as_string_and_size py_appname) (\<lambda>appname.
          bnd (bytes_as_string_and_size py_appkey) (\<lambda>appkey.
            if length appkey \<noteq> APPKEYLEN then Raise ValueError
            else bnd (NDNObject_New_charbuf C NAME) (\<lambda>c.
                   try_mem (l_append C [] name) (\<lambda>new_name.
                     bnd (authenticateCommand C now auth_state new_name appname appkey)
                       (\<lambda>(st', name'). Ret (fill c name', st'))))))))))
      | _ \<Rightarrow> Raise TypeError)"

definition cmd_nc_authenticate_command_sig ::
    "'e crypto_scheme \<Rightarrow> time \<Rightarrow> pyval list \<Rightarrow> (pyval \<times> state_st) outcome" where
  "cmd_nc_authenticate_command_sig C now args =
     (case args of
        [py_state, py_name, py_appname, py_sigkey] \<Rightarrow>
          bnd (NDNObject_ReqType C NAMECRYPTO_STATE py_state) (\<lambda>_.
          bnd (NDNObject_ReqType C NAME py_name) (\<lambda>_.
          bnd (get_state C py_state) (\<lambda>auth_state.
          bnd (get_charbuf C NAME py_name) (\<lambda>name.
          bnd (bytes_as_string_and_size py_appname) (\<lambda>appname.
          bnd (NDNObject_ReqType C PKEY_PRIV py_sigkey) (\<lambda>_.
          bnd (get_pkey C PKEY_PRIV py_sigkey) (\<lambda>priv_key.
          bnd (NDNObject_New_charbuf C NAME) (\<lambda>c.
            try_mem (l_append C [] name) (\<lambda>new_name.
              case c_pkey_rsa C priv_key of
                None \<Rightarrow> Raise NDNKeyError
              | Some rsa \<Rightarrow>
                  bnd (authenticateCommandSig C now auth_state new_name appname rsa)
                    (\<lambda>(st', name'). Ret (fill c name', st')))))))))))
      | _ \<Rightarrow> Raise TypeError)"

text \<open>The \<^verbatim>\<open>k\<close> conversion: an integer, reduced to an \<^verbatim>\<open>unsigned long\<close>.\<close>

definition arg_ulong :: "pyval \<Rightarrow> nat outcome" where
  "arg_ulong v =
     (case v of
        PyInt n \<Rightarrow> Ret (nat (n mod 2 ^ 64))
      | PyBool b \<Rightarrow> Ret (if b then 1 else 0)
      | _ \<Rightarrow> Raise TypeError)"

definition opt_key :: "pyval \<Rightarrow> bytes option outcome" where
  "opt_key v =
     (if v = PyNone then Ret None else bnd (bytes_as_string_and_size v) (\<lambda>b. Ret (Some b)))"

definition opt_rsa :: "'e crypto_scheme \<Rightarrow> pyval \<Rightarrow> nat option outcome" where
  "opt_rsa C v =
     (if v = PyNone then Ret None
      else bnd (NDNObject_ReqType C PKEY_PUB v) (\<lambda>_.
             bnd (get_pkey C PKEY_PUB v) (\<lambda>k.
               case c_pkey_rsa C k of None \<Rightarrow> Raise NDNKeyError | Some rsa \<Rightarrow> Ret (Some rsa))))"

text \<open>
  \<^verbatim>\<open>_pyndn_cmd_nc_verify_command\<close>, with its keyword arguments already bound; the last
  two default to \<^verbatim>\<open>None\<close>.
\<close>

definition cmd_nc_verify_command ::
    "'e crypto_scheme \<Rightarrow> time \<Rightarrow> pyval \<Rightarrow> pyval \<Rightarrow> pyval \<Rightarrow> pyval \<Rightarrow> pyval
      \<Rightarrow> (pyval \<times> state_st option) outcome" where
  "cmd_nc_verify_command C now py_auth_state py_name maxdiff_ms py_fixture_key py_pub_key =
     bnd (arg_ulong maxdiff_ms) (\<lambda>maxtime_ms.
     bnd (NDNObject_ReqType C NAMECRYPTO_STATE py_auth_state) (\<lambda>_.
     bnd (NDNObject_ReqType C NAME py_name) (\<lambda>_.
     bnd (get_state C py_auth_state) (\<lambda>auth_state.
     bnd (get_charbuf C NAME py_name) (\<lambda>name.
     bnd (opt_key py_fixture_key) (\<lambda>fixture_key.
     bnd (opt_rsa C py_pub_key) (\<lambda>rsa_pub_key.
     bnd (verifyCommand C now name fixture_key rsa_pub_key (Some auth_state) maxtime_ms)
       (\<lambda>(r, st'). Ret (if r = AUTH_OK then PyBool True else PyInt r, st')))))))))"

definition cmd_nc_app_id :: "'e crypto_scheme \<Rightarrow> pyval \<Rightarrow> pyval outcome" where
  "cmd_nc_app_id C py_appname =
     bnd (bytes_as_string_and_size py_appname) (\<lambda>appname.
       case appID C appname of None \<Rightarrow> Raise MemoryError | Some i \<Rightarrow> Ret (PyBytes i))"

definition cmd_nc_app_key :: "'e crypto_scheme \<Rightarrow> pyval list \<Rightarrow> pyval outcome" where
  "cmd_nc_app_key C args =
     (case args of
        [py_fixture_key, py_appid] \<Rightarrow>
          bnd (bytes_as_string_and_size py_fixture_key) (\<lambda>fixture_key.
          bnd (bytes_as_string_and_size py_appid) (\<lambda>appid.
            if length appid \<noteq> APPIDLEN then Raise ValueError
            else bnd (appKey C fixture_key appid) (\<lambda>k.
                   case k of None \<Rightarrow> Raise MemoryError | Some key \<Rightarrow> Ret (PyBytes key))))
      | _ \<Rightarrow> Raise TypeError)"

subsection \<open>State capsules\<close>

text \<open>The capsule a build without assertions makes: its name is \<^verbatim>\<open>NULL\<close>.\<close>

definition state_capsule :: "state_st \<Rightarrow> pyval" where
  "state_capsule st =
     PyCapsule \<lparr>cap_pointer = P_State st, cap_name = None, cap_context = NoContext, cap_owned = True\<rparr>"

lemma state_capsule_ndebug:
  assumes "ndebug C"
  shows "NDNObject_ReqType C NAMECRYPTO_STATE (state_capsule st) = Ret ()"
    and "get_state C (state_capsule st) = Ret st"
  using type2name_unlisted_ndebug [OF assms] assms
  by (simp_all add: NDNObject_ReqType_def get_state_def NDNObject_Get_def NDNObject_IsValid_def
      state_capsule_def capsule_is_valid_def)

subsection \<open>Properties\<close>

text \<open>
  In a build with assertions the feature does not work at all: making a state stops the
  process, and so do authenticating and verifying, whatever is passed for the state. Without
  assertions a state can be made, but its capsule has no name and dropping it crashes.
\<close>

theorem state_capsules_unusable:
  assumes "mem C A_nc_state" "mem C A_capsule"
  shows "if \<not> ndebug C
    then cmd_nc_new_state C = Abort
       \<and> cmd_nc_authenticate_command C now [v, n, a, k] = Abort
       \<and> cmd_nc_authenticate_command_sig C now [v, n, a, k] = Abort
       \<and> cmd_nc_verify_command C now v n (PyInt d) fk pk = Abort
    else \<exists>c. cmd_nc_new_state C = Ret (PyCapsule c) \<and> PyCapsule c = state_capsule state_init
       \<and> capsule_destructor C c = Undef"
proof (cases "ndebug C")
  case True
  then show ?thesis
    using assms type2name_unlisted_ndebug [OF True]
    by (simp add: cmd_nc_new_state_def NDNObject_New_def jump_if_null_mem_def state_capsule_def
        capsule_destructor_def name2type_def)
next
  case False
  have "type2name C NAMECRYPTO_STATE = Abort"
    using False by (intro type2name_unlisted_asserts) simp_all
  then show ?thesis
    using False assms
    by (simp add: cmd_nc_new_state_def NDNObject_New_def jump_if_null_mem_def NDNObject_ReqType_def
        cmd_nc_authenticate_command_def cmd_nc_authenticate_command_sig_def
        cmd_nc_verify_command_def arg_ulong_def)
qed

theorem state_capsules_unusable_witness: "cmd_nc_new_state demo_crypto = Abort"
  using state_capsules_unusable [of demo_crypto "(0, 0)" PyNone PyNone PyNone PyNone 0 PyNone PyNone]
  by simp

text \<open>The protocol with the name the command is given: one more component.\<close>

lemma command_through_python:
  assumes "crypto_ready C" "buffer_writer C" "ndebug C" "pre \<noteq> []" "length app < 65536" "fk \<noteq> []"
    and "cmd_nc_app_id C (PyBytes app) = Ret app_id"
    and "cmd_nc_app_key C [PyBytes fk, app_id] = Ret key"
    and "cmd_nc_authenticate_command C sent [state_capsule st, box NAME (name_wire pre), PyBytes app, key]
          = Ret (cmd, st')"
    and "cmd = box NAME wire" "length wire < 2 ^ 31" "wall_clock sent" "seq cur < seq st'"
    and "\<bar>elapsed_us sent received\<bar> < 2 ^ 31" "\<bar>elapsed_us sent received\<bar> div 1000 \<le> d" "0 < d" "d < 2 ^ 64"
  shows "\<exists>c cur'. wire = name_wire (pre @ [c])
    \<and> cmd_nc_verify_command C received (state_capsule cur) cmd (PyInt d) (PyBytes fk) PyNone
        = Ret (PyBool True, Some cur')
    \<and> cmd_nc_verify_command C later (state_capsule cur') cmd (PyInt d) (PyBytes fk) PyNone
        = Ret (PyInt FAIL_DUPLICATE_INTEREST, Some cur')"
proof -
  have cl: "crypto_lengths C" and m: "mem C A_digest" and ok: "allocs_ok C"
    using assms(1) by (simp_all add: crypto_ready_def)
  let ?key = "crypto_lengths.derived_key C fk app"
  have aid: "app_id = PyBytes (c_sha256 C app)"
    using assms(7) crypto_lengths.appID_eq [OF cl m, of app] by (simp add: cmd_nc_app_id_def)
  then have key: "key = PyBytes ?key"
    using assms(8) crypto_lengths.appKey_eq [OF cl m, of fk app] crypto_lengths.sha256_length [OF cl]
    by (simp add: cmd_nc_app_key_def APPIDLEN_def split: if_splits)
  have lk: "length ?key = 32"
    by (rule crypto_lengths.length_derived_key [OF cl])
  let ?st = "update_state sent st"
  let ?mac = "c_hmac C ?key (name_wire pre @ app @ state_wire ?st)"
  let ?wire = "name_wire (pre @ [SK_AUTH_MAGIC @ auth_body app ?st ?mac])"
  have "cmd_nc_authenticate_command C sent [state_capsule st, box NAME (name_wire pre), PyBytes app, key]
      = Ret (box NAME ?wire, ?st)"
    using authenticate_symm [OF assms(1) lk, of sent st pre app] state_capsule_ndebug [OF assms(3)]
      buffer_writer.append [OF assms(2), of "[]"] ok lk key
      New_charbuf_ok [of NAME C "\<lambda>v. Ret (v, ?st)" ?wire]
    by (simp add: cmd_nc_authenticate_command_def APPKEYLEN_def charbuf_types_def)
  then have st': "st' = ?st" and wire: "wire = ?wire"
    using assms(9,10) by (auto simp: box_def)
  let ?cur' = "moved received ?st cur"
  have fr: "verify_update_state_freshness received (Some cur) ?st (nat d) = (AUTH_OK, Some ?cur')"
    using assms(12-16) st' by (intro fresh_command) auto
  have dup: "verify_update_state_freshness later (Some ?cur') ?st (nat d)
      = (FAIL_DUPLICATE_INTEREST, Some ?cur')"
    by (simp add: verify_update_state_freshness_def moved_def)
  have lm: "length ?mac = MACLEN"
    using crypto_lengths.hmac_length [OF cl] by (simp add: MACLEN_def)
  note v = verify_symm_name [OF assms(1,4,5) lm assms(6) assms(11) [unfolded wire]]
  have "arg_ulong (PyInt d) = Ret (nat d)"
    using assms(16,17) by (simp add: arg_ulong_def)
  then show ?thesis
    using state_capsule_ndebug [OF assms(3)] v [of received None "Some cur" "nat d"]
      v [of later None "Some ?cur'" "nat d"] fr dup assms(10) wire
    by (intro exI [of _ "SK_AUTH_MAGIC @ auth_body app ?st ?mac"] exI [of _ ?cur'])
      (simp add: cmd_nc_verify_command_def opt_key_def opt_rsa_def auth_codes)
qed

text \<open>
  Without assertions the protocol works from Python: with the key the fixture's secret
  gives for an application, an authenticated command is accepted by a fixture whose state is
  behind, and every later presentation of the same command to the state that verification
  left is answered with \<^verbatim>\<open>FAIL_DUPLICATE_INTEREST\<close>.
\<close>

theorem python_protocol:
  assumes "crypto_ready C" "buffer_writer C" "ndebug C" "pre \<noteq> []" "length app < 65536" "fk \<noteq> []"
    and "cmd_nc_app_id C (PyBytes app) = Ret app_id"
    and "cmd_nc_app_key C [PyBytes fk, app_id] = Ret key"
    and "cmd_nc_authenticate_command C sent [state_capsule st, box NAME (name_wire pre), PyBytes app, key]
          = Ret (cmd, st')"
    and "cmd = box NAME wire" "length wire < 2 ^ 31" "wall_clock sent" "seq cur < seq st'"
    and "\<bar>elapsed_us sent received\<bar> < 2 ^ 31" "\<bar>elapsed_us sent received\<bar> div 1000 \<le> d" "0 < d" "d < 2 ^ 64"
  shows "\<exists>cur'. cmd_nc_verify_command C received (state_capsule cur) cmd (PyInt d) (PyBytes fk) PyNone
        = Ret (PyBool True, Some cur')
    \<and> cmd_nc_verify_command C later (state_capsule cur') cmd (PyInt d) (PyBytes fk) PyNone
        = Ret (PyInt FAIL_DUPLICATE_INTEREST, Some cur')"
  using command_through_python [OF assms] by blast

definition release_crypto :: crypto where
  "release_crypto = demo_crypto\<lparr>ndebug := True\<rparr>"

lemma release_crypto_ready [simp]: "crypto_ready release_crypto" "buffer_writer release_crypto"
proof -
  have ready: "crypto_ready demo_crypto" by simp
  then have nl: "name_library demo_crypto" and cl: "crypto_lengths demo_crypto"
    by (simp_all add: crypto_ready_def)
  have "name_library release_crypto"
    using nl by (simp add: name_library_def release_crypto_def)
  moreover have "crypto_lengths release_crypto"
    using cl by (simp add: crypto_lengths_def release_crypto_def)
  ultimately show "crypto_ready release_crypto"
    by (simp add: crypto_ready_def allocs_ok_def release_crypto_def)
  show "buffer_writer release_crypto"
    using ndnb_writer.buffer_writer_axioms
    by (simp add: buffer_writer_def release_crypto_def number_wire_def)
qed

theorem python_protocol_witness:
  "\<exists>cmd st' cur'. cmd_nc_authenticate_command release_crypto (1000, 5)
        [state_capsule demo_state, box NAME (name_wire [[1, 2]]), PyBytes [0], PyBytes (replicate 32 1)]
      = Ret (cmd, st')
    \<and> cmd_nc_verify_command release_crypto (1001, 5) (state_capsule state_init) cmd (PyInt 2000) (PyBytes [1]) PyNone
      = Ret (PyBool True, Some cur')
    \<and> cmd_nc_verify_command release_crypto (1002, 5) (state_capsule cur') cmd (PyInt 2000) (PyBytes [1]) PyNone
      = Ret (PyInt FAIL_DUPLICATE_INTEREST, Some cur')"
proof -
  let ?mac = "c_hmac release_crypto (replicate 32 1) (name_wire [[1, 2]] @ [0] @ state_wire demo_sent)"
  let ?wire = "name_wire [[1, 2], demo_component ?mac]"
  have sent: "update_state (1000, 5) demo_state = demo_sent"
    by (simp add: update_state_def demo_state_def demo_sent_def)
  have nd: "ndebug release_crypto"
    by (simp add: release_crypto_def)
  have "allocs_ok release_crypto" "l_append release_crypto [] b = (0, b)" for b
    using release_crypto_ready(1) by (simp_all add: crypto_ready_def release_crypto_def ndnb_lib_def)
  then have made: "cmd_nc_authenticate_command release_crypto (1000, 5)
        [state_capsule demo_state, box NAME (name_wire [[1, 2]]), PyBytes [0], PyBytes (replicate 32 1)]
      = Ret (box NAME ?wire, demo_sent)"
    using authenticate_symm [OF release_crypto_ready(1), of "replicate 32 1" "(1000, 5)" demo_state "[[1, 2]]" "[0]"]
      state_capsule_ndebug [OF nd] New_charbuf_ok [of NAME release_crypto "\<lambda>v. Ret (v, demo_sent)" ?wire]
    by (simp add: cmd_nc_authenticate_command_def APPKEYLEN_def charbuf_types_def sent demo_component_def)
  have "length ?wire < 2 ^ 31"
    by (rule length_demo_component) (simp add: release_crypto_def)
  then have "\<exists>cur'. cmd_nc_verify_command release_crypto (1001, 5) (state_capsule state_init) (box NAME ?wire)
        (PyInt 2000) (PyBytes [1]) PyNone = Ret (PyBool True, Some cur')
    \<and> cmd_nc_verify_command release_crypto (1002, 5) (state_capsule cur') (box NAME ?wire)
        (PyInt 2000) (PyBytes [1]) PyNone = Ret (PyInt FAIL_DUPLICATE_INTEREST, Some cur')"
    by (intro python_protocol [OF release_crypto_ready nd _ _ _ _ _ made refl,
          where app_id = "PyBytes (replicate 32 0)"])
      (simp_all add: cmd_nc_app_id_def cmd_nc_app_key_def appID_def appKey_def KDF_def mem_read_def
        auth_lengths sum_list_replicate release_crypto_def wall_clock_def demo_sent_def state_init_def
        elapsed_us_def)
  with made show ?thesis
    by blast
qed

end
