(* ===== verification/NameM.thy ===== *)
theory NameM
  imports LibNdn Objects
begin

section \<open>Names: csrc/methods\_name.c\<close>

text \<open>
  The conversions between a Python list of components and the buffer that holds a name, the
  URI conversions and the comparison. Buffers are the byte strings of theory \<open>Ndnb\<close>, and
  the calls into libndn go through its record. The properties say that encoding a list and
  decoding it gives the components back, and what the walk over a component's header does
  to a component that has no BLOB header.
\<close>

subsection \<open>Components of a buffer\<close>

text \<open>
  The loop that walks the header: \<open>p\<close> is where \<^verbatim>\<open>component\<close> points, \<open>h\<close> the
  counter and \<open>len\<close> the length of the component's element.
\<close>

function skip_header :: "bytes \<Rightarrow> nat \<Rightarrow> nat \<Rightarrow> nat \<Rightarrow> (nat \<times> nat) outcome" where
  "skip_header buf p h len =
     (if h < len then
        (if length buf \<le> p then Undef
         else if 127 < unat (buf ! p) then Ret (p + 1, h)
         else skip_header buf (p + 1) (h + 1) len)
      else Ret (p, h))"
  by pat_completeness auto
termination by (relation "measure (\<lambda>(buf, p, h, len). len - h)") auto

declare skip_header.simps [simp del]

text \<open>
  One round of the loop over the components: the element from \<open>a\<close> to \<open>b\<close>. The
  difference of the offsets is a \<^verbatim>\<open>size_t\<close>, the size of the component an
  \<^verbatim>\<open>int\<close>.
\<close>

definition component_at :: "bytes \<Rightarrow> nat \<Rightarrow> nat \<Rightarrow> pyval outcome" where
  "component_at buf a b =
     (let len = nat ((int b - int a) mod 2 ^ 64) in
      bnd (skip_header buf (a + 1) 2 len) (\<lambda>(p, h).
        bnd (bytes_from_string_and_size buf p (to_int32 (int len - 1 - int h))) (\<lambda>c.
          Ret (PyBytes c))))"

definition name_comps_from_ndn :: "'e ndnlib_scheme \<Rightarrow> pyval \<Rightarrow> pyval outcome" where
  "name_comps_from_ndn L py_cname =
     bnd (NDNObject_IsValid L NAME py_cname) (\<lambda>valid.
      c_assert L valid
       (bnd (get_charbuf L NAME py_cname) (\<lambda>name.
         jump_if_null_mem (mem L A_indexbuf)
          (let (r, idx) = l_name_split L name in
           if r < 0 then Raise TypeError
           else if idx = [] then Undef
           else bnd (traverse (\<lambda>(a, b). component_at name a b) (zip idx (tl idx)))
                  (\<lambda>cs. Ret (PyList cs))))))"

definition cmd_name_comps_from_ndn :: "'e ndnlib_scheme \<Rightarrow> pyval \<Rightarrow> pyval outcome" where
  "cmd_name_comps_from_ndn L py_cname =
     bnd (NDNObject_IsValid L NAME py_cname) (\<lambda>valid.
       if \<not> valid then Raise TypeError else name_comps_from_ndn L py_cname)"

text \<open>
  \<^verbatim>\<open>_pyndn_cmd_name_comps_from_ndn_buffer\<close>: the status of \<^verbatim>\<open>ndn_name_split\<close> is
  not looked at, and the loop runs until \<^verbatim>\<open>ndn_name_comp_get\<close> says there is no such
  component. That it does is the library's promise, so not returning is \<open>None\<close>. The index
  buffer is not checked before it is used.
\<close>

partial_function (option) comps_from_buffer ::
    "'e ndnlib_scheme \<Rightarrow> bytes \<Rightarrow> nat list \<Rightarrow> nat \<Rightarrow> pyval list \<Rightarrow> pyval outcome option" where
  "comps_from_buffer L buf idx i acc =
     (let (r, off, n) = l_name_comp_get L buf idx i in
      if r = 0 then
        (case bytes_from_string_and_size buf off (int n) of
           Ret c \<Rightarrow> comps_from_buffer L buf idx (i + 1) (acc @ [PyBytes c])
         | Raise e \<Rightarrow> Some (Raise e)
         | Abort \<Rightarrow> Some Abort
         | Undef \<Rightarrow> Some Undef)
      else Some (Ret (PyList acc)))"

definition cmd_name_comps_from_ndn_buffer ::
    "'e ndnlib_scheme \<Rightarrow> pyval \<Rightarrow> pyval outcome option" where
  "cmd_name_comps_from_ndn_buffer L py_buffer =
     (case buffer_of py_buffer of
        None \<Rightarrow> Some (Raise TypeError)
      | Some buf \<Rightarrow>
          if \<not> mem L A_indexbuf then Some Undef
          else comps_from_buffer L buf (snd (l_name_split L buf)) 0 [])"

subsection \<open>A buffer from components\<close>

text \<open>\<^verbatim>\<open>PyObject_Str\<close> of a number; for a \<^verbatim>\<open>float\<close> the interpreter's.\<close>

definition number_str :: "'e ndnlib_scheme \<Rightarrow> pyval \<Rightarrow> bytes" where
  "number_str L v =
     (case v of
        PyInt n \<Rightarrow> int_digits n
      | PyBool b \<Rightarrow> (if b then [84, 114, 117, 101] else [70, 97, 108, 115, 101])
      | PyFloat d \<Rightarrow> l_float_str L d
      | _ \<Rightarrow> [])"

text \<open>One item of the list: the body of the loop.\<close>

definition name_append_item :: "'e ndnlib_scheme \<Rightarrow> bytes \<Rightarrow> pyval \<Rightarrow> bytes outcome" where
  "name_append_item L name item =
     (case item of
        PyUnicode _ \<Rightarrow>
          bnd (pyndn_unicode_to_utf8 L item True) (\<lambda>s. try_mem (l_name_append L name s) Ret)
      | PyBytes _ \<Rightarrow>
          bnd (bytes_as_string_and_size item) (\<lambda>s. try_mem (l_name_append L name s) Ret)
      | PyByteArray b \<Rightarrow> try_mem (l_name_append L name b) Ret
      | _ \<Rightarrow>
          if is_number item then
            bnd (pyndn_unicode_to_utf8 L (PyBytes (number_str L item)) False) (\<lambda>s.
              try_mem (l_name_append_str L name s) Ret)
          else Raise TypeError)"

fun name_append_items :: "'e ndnlib_scheme \<Rightarrow> bytes \<Rightarrow> pyval list \<Rightarrow> bytes outcome" where
  "name_append_items L name [] = Ret name"
| "name_append_items L name (item # items) =
     bnd (name_append_item L name item) (\<lambda>name'. name_append_items L name' items)"

text \<open>
  \<^verbatim>\<open>name_comps_to_ndn\<close>. When the capsule cannot be made, the variable the next line
  tests has not been written. The buffer is wrapped in a second capsule at the end, the
  first one keeps its reference.
\<close>

definition name_comps_to_ndn :: "'e ndnlib_scheme \<Rightarrow> pyval \<Rightarrow> pyval outcome" where
  "name_comps_to_ndn L py_comps =
     (case py_comps of
        PyList items \<Rightarrow>
          (case NDNObject_New_charbuf L NAME of
             Ret _ \<Rightarrow>
               try_mem (l_name_init L []) (\<lambda>name.
                 bnd (name_append_items L name items) (\<lambda>name'.
                   bnd (fst (NDNObject_New L NAME (P_Charbuf name'))) (\<lambda>c. Ret (PyCapsule c))))
           | Abort \<Rightarrow> Abort
           | _ \<Rightarrow> Undef)
      | _ \<Rightarrow> Raise TypeError)"

definition cmd_name_comps_to_ndn :: "'e ndnlib_scheme \<Rightarrow> pyval \<Rightarrow> pyval outcome" where
  "cmd_name_comps_to_ndn L py_comps = name_comps_to_ndn L py_comps"

subsection \<open>Name objects\<close>

definition Name_obj_from_ndn :: "'e ndnlib_scheme \<Rightarrow> pyval \<Rightarrow> pyval outcome" where
  "Name_obj_from_ndn L py_cname =
     bnd (NDNObject_IsValid L NAME py_cname) (\<lambda>valid.
      c_assert L valid
       (bnd (name_comps_from_ndn L py_cname) (\<lambda>py_comps.
          py_setattr new_Name ''components'' py_comps)))"

definition Name_obj_to_ndn :: "'e ndnlib_scheme \<Rightarrow> pyval \<Rightarrow> pyval outcome" where
  "Name_obj_to_ndn L py_obj_Name =
     bnd (py_getattr py_obj_Name ''components'') (name_comps_to_ndn L)"

definition Name_from_ndn_tagged_bytearray :: "'e ndnlib_scheme \<Rightarrow> bytes \<Rightarrow> pyval outcome" where
  "Name_from_ndn_tagged_bytearray L buf =
     jump_if_null_mem (mem L A_charbuf)
      (bnd (fst (NDNObject_New L NAME (P_Charbuf []))) (\<lambda>c.
        try_mem (l_append L [] buf) (\<lambda>name. Name_obj_from_ndn L (fill c name))))"

text \<open>
  Reading \<^verbatim>\<open>ndn_data\<close> of a Python \<^verbatim>\<open>Name\<close> encodes the components on first use
  (\<^verbatim>\<open>Name.__getattribute__\<close>); the wrapper \<^verbatim>\<open>Const\<close> passes it through.
\<close>

fun name_ndn_data :: "'e ndnlib_scheme \<Rightarrow> pyval \<Rightarrow> pyval outcome" where
  "name_ndn_data L (PyConst v) = name_ndn_data L v"
| "name_ndn_data L (PyInst cls attrs) =
     bnd (py_getattr (PyInst cls attrs) ''ndn_data'') (\<lambda>d.
       if cls = ''Name'' \<and> d = PyNone then
         bnd (py_getattr (PyInst cls attrs) ''components'') (name_comps_to_ndn L)
       else Ret d)"
| "name_ndn_data L v = Raise AttributeError"

subsection \<open>URIs and comparison\<close>

text \<open>\<^verbatim>\<open>_pyndn_STRING_CHECK\<close>.\<close>

definition is_string :: "pyval \<Rightarrow> bool" where
  "is_string v = (case v of PyBytes _ \<Rightarrow> True | PyUnicode _ \<Rightarrow> True | _ \<Rightarrow> False)"

definition cmd_name_from_uri :: "'e ndnlib_scheme \<Rightarrow> pyval \<Rightarrow> pyval outcome" where
  "cmd_name_from_uri L py_uri =
     (if \<not> is_string py_uri then Raise TypeError
      else bnd (NDNObject_New_charbuf L NAME) (\<lambda>c.
             bnd (pyndn_unicode_to_utf8 L py_uri False) (\<lambda>uri.
               let (r, name) = l_name_from_uri L [] uri in
               if r < 0 then Raise NDNNameError else Ret (fill c name))))"

definition cmd_name_to_uri :: "'e ndnlib_scheme \<Rightarrow> pyval \<Rightarrow> pyval outcome" where
  "cmd_name_to_uri L py_name =
     bnd (NDNObject_IsValid L NAME py_name) (\<lambda>valid.
       if \<not> valid then Raise TypeError
       else bnd (get_charbuf L NAME py_name) (\<lambda>cb.
              jump_if_null_mem (mem L A_charbuf)
               (let (r, uri) = l_uri_append L [] cb in
                if r < 0 then Raise NDNNameError else unicode_from_string uri)))"

definition cmd_compare_names :: "'e ndnlib_scheme \<Rightarrow> pyval list \<Rightarrow> pyval outcome" where
  "cmd_compare_names L args =
     (case args of
        [py_name1, py_name2] \<Rightarrow>
          bnd (NDNObject_IsValid L NAME py_name1) (\<lambda>v1.
           if \<not> v1 then Raise TypeError
           else bnd (NDNObject_IsValid L NAME py_name2) (\<lambda>v2.
             if \<not> v2 then Raise TypeError
             else bnd (get_charbuf L NAME py_name1) (\<lambda>name1.
                    bnd (get_charbuf L NAME py_name2) (\<lambda>name2.
                      Ret (PyInt (l_compare_names L name1 name2))))))
      | _ \<Rightarrow> Raise TypeError)"

subsection \<open>The walk over the components\<close>

text \<open>
  A component's element is a BLOB in a Component tag; the format also allows an empty
  component to have no BLOB header at all. \<open>None\<close> is such a bare element.
\<close>

fun elem_wire :: "bytes option \<Rightarrow> bytes" where
  "elem_wire (Some c) = component_wire c"
| "elem_wire None = [250, 0]"

fun elem_offsets :: "nat \<Rightarrow> bytes option list \<Rightarrow> nat list" where
  "elem_offsets p [] = [p]"
| "elem_offsets p (e # es) = p # elem_offsets (p + length (elem_wire e)) es"

lemma elem_offsets_not_nil [simp]: "elem_offsets p es \<noteq> []"
  by (cases es) auto

lemma offsets_from_elems: "offsets_from p cs = elem_offsets p (map Some cs)"
  by (induction cs arbitrary: p) auto

lemma zip_elem_offsets:
  "zip (elem_offsets p (e # es)) (tl (elem_offsets p (e # es)))
     = (p, p + length (elem_wire e))
       # zip (elem_offsets (p + length (elem_wire e)) es)
             (tl (elem_offsets (p + length (elem_wire e)) es))"
  by (cases es) auto

lemma skip_header_walk:
  assumes "\<forall>b \<in> set hs. unat b < 128" "128 \<le> unat l" "h + length hs < len"
  shows "skip_header (pre @ hs @ l # post) (length pre) h len
    = Ret (length pre + length hs + 1, h + length hs)"
  using assms
proof (induction hs arbitrary: pre h)
  case Nil
  then show ?case by (subst skip_header.simps) (simp add: nth_append)
next
  case (Cons b hs)
  have "skip_header (pre @ (b # hs) @ l # post) (length pre) h len
      = skip_header ((pre @ [b]) @ hs @ l # post) (length (pre @ [b])) (h + 1) len"
    using Cons.prems by (subst skip_header.simps) (simp add: nth_append)
  also have "\<dots> = Ret (length (pre @ [b]) + length hs + 1, h + 1 + length hs)"
    using Cons.prems by (intro Cons.IH) auto
  finally show ?case by simp
qed

lemma offset_difference:
  "n < 2 ^ 31 \<Longrightarrow> nat ((int (a + n) - int a) mod 2 ^ 64) = n"
  by simp

lemma component_at_blob:
  assumes "length (component_wire c) < 2 ^ 31"
  shows "component_at (pre @ component_wire c @ post) (length pre)
           (length pre + length (component_wire c)) = Ret (PyBytes c)"
proof -
  obtain hs l where h: "ndnb_encode (length c) NDN_BLOB = hs @ [l]"
    "\<forall>b \<in> set hs. unat b < 128" "128 \<le> unat l"
    by (rule encode_split)
  let ?buf = "pre @ component_wire c @ post" and ?len = "length (component_wire c)"
  have w: "component_wire c = 250 # hs @ l # c @ [0]"
    by (simp add: component_wire_eq h(1))
  have buf: "?buf = (pre @ [250]) @ hs @ l # (c @ 0 # post)"
    by (simp add: w)
  have "skip_header ?buf (length (pre @ [250])) 2 ?len
      = Ret (length (pre @ [250]) + length hs + 1, 2 + length hs)"
    unfolding buf by (rule skip_header_walk) (use h w in auto)
  then have walk: "skip_header ?buf (length pre + 1) 2 ?len
      = Ret (length pre + 2 + length hs, 2 + length hs)"
    by simp
  have size: "to_int32 (int ?len - 1 - int (2 + length hs)) = int (length c)"
    using assms by (subst to_int32_id) (auto simp: w)
  have "mem_read ?buf (length pre + 2 + length hs) (length c) = Ret c"
    using mem_read_mid [of "pre @ 250 # hs @ [l]" "length pre + 2 + length hs" c _ "0 # post"]
    by (simp add: w)
  then show ?thesis
    using offset_difference [OF assms, of "length pre"] walk size
    by (simp add: component_at_def Let_def bytes_from_string_and_size_def)
qed

lemma component_at_bare:
  "component_at (pre @ elem_wire None @ post) (length pre) (length pre + length (elem_wire None))
     = Raise SystemError"
  using offset_difference [of 2 "length pre"]
  by (simp add: component_at_def skip_header.simps to_int32_id bytes_from_string_and_size_def)

lemma traverse_elems:
  assumes "\<forall>e \<in> set es. length (elem_wire e) < 2 ^ 31"
  shows "traverse (\<lambda>(a, b). component_at (pre @ concat (map elem_wire es) @ post) a b)
           (zip (elem_offsets (length pre) es) (tl (elem_offsets (length pre) es)))
         = (if None \<in> set es then Raise SystemError else Ret (map (PyBytes \<circ> the) es))"
  using assms
proof (induction es arbitrary: pre)
  case Nil
  then show ?case by simp
next
  case (Cons e es)
  let ?rest = "concat (map elem_wire es) @ post"
  have one: "component_at (pre @ elem_wire e @ ?rest) (length pre) (length pre + length (elem_wire e))
      = (case e of None \<Rightarrow> Raise SystemError | Some c \<Rightarrow> Ret (PyBytes c))"
    using Cons.prems component_at_blob [of _ pre ?rest] component_at_bare [of pre ?rest]
    by (cases e) simp_all
  show ?case
    using Cons.IH [of "pre @ elem_wire e"] Cons.prems one
    by (cases e) (auto simp: zip_elem_offsets simp del: elem_offsets.simps)
qed

lemma name_comps_from_elems:
  assumes "mem L A_indexbuf" "l_name_split L (242 # concat (map elem_wire es) @ [0]) = (r, elem_offsets 1 es)"
    and "0 \<le> r" "\<forall>e \<in> set es. length (elem_wire e) < 2 ^ 31"
  shows "name_comps_from_ndn L (box NAME (242 # concat (map elem_wire es) @ [0]))
         = (if None \<in> set es then Raise SystemError else Ret (PyList (map (PyBytes \<circ> the) es)))"
  using assms traverse_elems [OF assms(4), of "[242]" "[0]"]
  by (simp add: name_comps_from_ndn_def jump_if_null_mem_def)

subsection \<open>Encoding\<close>

text \<open>What an item of the list stands for as a name component.\<close>

definition item_component :: "'e ndnlib_scheme \<Rightarrow> pyval \<Rightarrow> bytes outcome" where
  "item_component L item =
     (case item of
        PyUnicode cs \<Rightarrow> Ret (utf8 cs)
      | PyBytes b \<Rightarrow> Ret b
      | PyByteArray b \<Rightarrow> Ret b
      | _ \<Rightarrow>
          if is_number item then
            (if 0 \<in> set (number_str L item) then Raise TypeError else Ret (number_str L item))
          else Raise TypeError)"

lemma traverse_PyBytes [simp]: "traverse (item_component L) (map PyBytes cs) = Ret cs"
  by (induction cs) (simp_all add: item_component_def)

text \<open>The Python object for a name whose components are byte strings.\<close>

definition name_obj :: "bytes list \<Rightarrow> pyval" where
  "name_obj cs = PyInst ''Name'' [(''components'', PyList (map PyBytes cs)), (''ndn_data'', PyNone)]"

context name_library begin

lemma append_item:
  "name_append_item L (name_wire cs) item
     = bnd (item_component L item) (\<lambda>c. Ret (name_wire (cs @ [c])))"
  by (cases item)
    (simp_all add: name_append_item_def item_component_def pyndn_unicode_to_utf8_def
      string_and_size_def name_append name_append_str)

lemma append_items:
  "name_append_items L (name_wire cs) items
     = bnd (traverse (item_component L) items) (\<lambda>ds. Ret (name_wire (cs @ ds)))"
  by (induction items arbitrary: cs) (simp_all add: append_item outcome_simps)

lemma comps_to_ndn:
  assumes "allocs_ok L"
  shows "name_comps_to_ndn L (PyList items)
    = bnd (traverse (item_component L) items) (\<lambda>cs. Ret (box NAME (name_wire cs)))"
  using assms
  by (simp add: name_comps_to_ndn_def NDNObject_New_charbuf_def charbuf_types_def
      NDNObject_New_def jump_if_null_mem_def name_init append_items box_def fresh_context_def
      outcome_simps)

lemma comps_from_ndn:
  assumes "mem L A_indexbuf" "\<forall>c \<in> set cs. length (component_wire c) < 2 ^ 31"
  shows "name_comps_from_ndn L (box NAME (name_wire cs)) = Ret (PyList (map PyBytes cs))"
proof -
  have "map elem_wire (map Some cs) = map component_wire cs"
    by simp
  then show ?thesis
    using name_comps_from_elems [of L "map Some cs" "int (length cs)"] assms name_split [of cs]
    by (auto simp: name_wire_eq name_offsets_def offsets_from_elems comp_def)
qed

lemma name_from_box:
  assumes "mem L A_indexbuf" "\<forall>c \<in> set cs. length (component_wire c) < 2 ^ 31"
  shows "Name_obj_from_ndn L (box NAME (name_wire cs)) = Ret (name_obj cs)"
  using comps_from_ndn [OF assms] by (simp add: Name_obj_from_ndn_def new_Name_def name_obj_def)

lemma comps_from_buffer_walk:
  "i \<le> length cs \<Longrightarrow>
   comps_from_buffer L (name_wire cs) (name_offsets cs) i acc
     = Some (Ret (PyList (acc @ map PyBytes (drop i cs))))"
proof (induction "length cs - i" arbitrary: i acc)
  case 0
  then show ?case
    using name_comp_end [of cs i] by (subst comps_from_buffer.simps) (auto split: prod.splits)
next
  case (Suc n)
  then have i: "i < length cs" by simp
  have "bytes_from_string_and_size (name_wire cs) (content_offset cs i) (int (length (cs ! i)))
      = Ret (cs ! i)"
    using read_content [OF i] by (simp add: bytes_from_string_and_size_def)
  then show ?case
    using name_comp_get [OF i] Suc.hyps(1) [of "i + 1" "acc @ [PyBytes (cs ! i)]"] Suc.hyps(2) i
    by (subst comps_from_buffer.simps) (simp add: Cons_nth_drop_Suc [symmetric])
qed

end

subsection \<open>Properties\<close>

text \<open>
  C34. Encoding a list of components is the wire form of what its items stand for: text as
  UTF-8, byte strings and byte arrays as they are, numbers as their decimal digits; the
  first item that stands for nothing decides the error.
\<close>

theorem name_encoding:
  assumes "name_library L" "allocs_ok L"
  shows "cmd_name_comps_to_ndn L (PyList items)
    = bnd (traverse (item_component L) items) (\<lambda>cs. Ret (box NAME (name_wire cs)))"
  unfolding cmd_name_comps_to_ndn_def using assms by (rule name_library.comps_to_ndn)

lemma ndnb_lib_ok [simp]: "allocs_ok ndnb_lib" "mem ndnb_lib a" "\<not> ndebug ndnb_lib"
  by (simp_all add: allocs_ok_def ndnb_lib_def)

theorem name_encoding_witness:
  "cmd_name_comps_to_ndn ndnb_lib (PyList [PyUnicode [97], PyInt 7])
     = Ret (box NAME (name_wire [[97], [55]]))"
  using name_encoding [OF ndnb_names.name_library_axioms, of "[PyUnicode [97], PyInt 7]"]
  by (simp add: item_component_def utf8_def utf8_char_def number_str_def int_digits_def
      nat_digits.simps)

text \<open>
  C4. Round trip: decoding the buffer that encoding a list of items made gives the list of
  the components the items stand for, as byte strings, as long as no component reaches 2 GB.
\<close>

theorem name_roundtrip:
  assumes "name_library L" "allocs_ok L"
    and "traverse (item_component L) items = Ret cs"
    and "\<forall>c \<in> set cs. length (component_wire c) < 2 ^ 31"
  shows "bnd (cmd_name_comps_to_ndn L (PyList items)) (cmd_name_comps_from_ndn L)
    = Ret (PyList (map PyBytes cs))"
  using assms name_library.comps_to_ndn [OF assms(1,2), of items]
    name_library.comps_from_ndn [OF assms(1), of cs]
  by (simp add: cmd_name_comps_to_ndn_def cmd_name_comps_from_ndn_def)

theorem name_roundtrip_witness:
  "bnd (cmd_name_comps_to_ndn ndnb_lib (PyList [PyBytes [1, 0], PyByteArray []]))
       (cmd_name_comps_from_ndn ndnb_lib) = Ret (PyList [PyBytes [1, 0], PyBytes []])"
  using name_roundtrip [OF ndnb_names.name_library_axioms,
      of "[PyBytes [1, 0], PyByteArray []]" "[[1, 0], []]"]
  by (simp add: item_component_def component_wire_eq ndnb_encode_def high_groups.simps
      NDN_BLOB_def)

text \<open>
  What decoding does with every mixture of full and bare components: a component with
  no BLOB header makes the computed size minus one, and the call fails with
  \<^verbatim>\<open>SystemError\<close> instead of giving an empty component; otherwise all components come
  back.
\<close>

theorem bare_component_fails:
  assumes "mem L A_indexbuf"
    and "l_name_split L (242 # concat (map elem_wire es) @ [0]) = (r, elem_offsets 1 es)" "0 \<le> r"
    and "\<forall>e \<in> set es. length (elem_wire e) < 2 ^ 31"
  shows "name_comps_from_ndn L (box NAME (242 # concat (map elem_wire es) @ [0]))
    = (if None \<in> set es then Raise SystemError else Ret (PyList (map (PyBytes \<circ> the) es)))"
  using assms by (rule name_comps_from_elems)

theorem bare_component_fails_witness:
  "name_comps_from_ndn (ndnb_lib\<lparr>l_name_split := (\<lambda>_. (1, [1, 3]))\<rparr>) (box NAME [242, 250, 0, 0])
     = Raise SystemError"
  using bare_component_fails [of "ndnb_lib\<lparr>l_name_split := (\<lambda>_. (1, [1, 3]))\<rparr>" "[None]" 1]
  by (simp add: ndnb_lib_def)

lemma comps_of_buffer:
  assumes "name_library L" "mem L A_indexbuf" "buffer_of v = Some (name_wire cs)"
  shows "cmd_name_comps_from_ndn_buffer L v = Some (Ret (PyList (map PyBytes cs)))"
  using assms name_library.comps_from_buffer_walk [OF assms(1), of 0 cs "[]"]
    name_library.name_split [OF assms(1), of cs]
  by (simp add: cmd_name_comps_from_ndn_buffer_def)

text \<open>
  C39. The buffer variant returns, and on the wire form of a name gives its components; a
  byte array is as good as a byte string.
\<close>

theorem name_from_buffer:
  assumes "name_library L" "mem L A_indexbuf" "buffer_of v = Some (name_wire cs)"
  shows "cmd_name_comps_from_ndn_buffer L v = Some (Ret (PyList (map PyBytes cs)))"
  by (rule comps_of_buffer [OF assms])

theorem name_from_buffer_witness:
  "cmd_name_comps_from_ndn_buffer ndnb_lib (PyByteArray (name_wire [[1], []]))
     = Some (Ret (PyList [PyBytes [1], PyBytes []]))"
  using name_from_buffer [OF ndnb_names.name_library_axioms,
      of "PyByteArray (name_wire [[1], []])" "[[1], []]"] by simp

text \<open>
  A \<^verbatim>\<open>Name\<close> object survives the trip through its wire form: parsing the bytes of
  the buffer its \<^verbatim>\<open>ndn_data\<close> holds gives an equal name with byte string components,
  and comparing the two buffers gives zero.
\<close>

theorem name_object_roundtrip:
  assumes "name_library L" "buffer_writer L" "allocs_ok L"
    and "traverse (item_component L) items = Ret cs"
    and "\<forall>c \<in> set cs. length (component_wire c) < 2 ^ 31"
    and "attr obj ''components'' = Some (PyList items)" "attr obj ''ndn_data'' = Some PyNone"
    and "tp_name obj = ''Name''" "\<And>v. obj \<noteq> PyConst v"
  shows "\<exists>b obj'. name_ndn_data L obj = Ret (box NAME b)
    \<and> Name_from_ndn_tagged_bytearray L b = Ret obj'
    \<and> attr obj' ''components'' = Some (PyList (map PyBytes cs))
    \<and> bnd (name_ndn_data L obj') (\<lambda>d. cmd_compare_names L [box NAME b, d]) = Ret (PyInt 0)"
proof -
  let ?b = "name_wire cs"
  let ?obj = "PyInst ''Name'' [(''components'', PyList (map PyBytes cs)), (''ndn_data'', PyNone)]"
  have enc: "name_comps_to_ndn L (PyList xs) = Ret (box NAME ?b)"
    if "traverse (item_component L) xs = Ret cs" for xs
    using name_library.comps_to_ndn [OF assms(1,3), of xs] that by simp
  have "traverse (item_component L) (map PyBytes cs) = Ret cs"
    by (rule traverse_PyBytes)
  then have enc': "name_comps_to_ndn L (PyList (map PyBytes cs)) = Ret (box NAME ?b)"
    by (rule enc)
  have "name_ndn_data L obj = Ret (box NAME ?b)"
    using assms(6-9) enc [OF assms(4)]
    by (cases obj) (auto simp: py_getattr.simps)
  moreover have "Name_from_ndn_tagged_bytearray L ?b = Ret ?obj"
    using name_library.comps_from_ndn [OF assms(1) _ assms(5)] assms(3)
      buffer_writer.append [OF assms(2), of "[]"]
    by (simp add: Name_from_ndn_tagged_bytearray_def jump_if_null_mem_def NDNObject_New_def
        fill_def Name_obj_from_ndn_def new_Name_def box_def [symmetric]
        box_def [of NAME ?b, symmetric, unfolded fresh_context_def, simplified])
  moreover have "name_ndn_data L ?obj = Ret (box NAME ?b)"
    using enc' by simp
  moreover have "cmd_compare_names L [box NAME ?b, box NAME ?b] = Ret (PyInt 0)"
    using name_library.compare_names [OF assms(1), of cs cs] by (simp add: cmd_compare_names_def)
  ultimately show ?thesis
    by (intro exI [of _ ?b] exI [of _ ?obj]) simp
qed

theorem name_object_roundtrip_witness:
  "\<exists>b obj'. name_ndn_data ndnb_lib
      (PyInst ''Name'' [(''components'', PyList [PyBytes [5]]), (''ndn_data'', PyNone)]) = Ret (box NAME b)
    \<and> Name_from_ndn_tagged_bytearray ndnb_lib b = Ret obj'
    \<and> attr obj' ''components'' = Some (PyList [PyBytes [5]])
    \<and> bnd (name_ndn_data ndnb_lib obj') (\<lambda>d. cmd_compare_names ndnb_lib [box NAME b, d])
        = Ret (PyInt 0)"
  using name_object_roundtrip [OF ndnb_names.name_library_axioms
      ndnb_writer.buffer_writer_axioms, of "[PyBytes [5]]" "[[5]]"
      "PyInst ''Name'' [(''components'', PyList [PyBytes [5]]), (''ndn_data'', PyNone)]"]
  by (simp add: item_component_def component_wire_eq ndnb_encode_def high_groups.simps
      NDN_BLOB_def)

text \<open>
  Comparison refuses anything but two names, and says zero exactly for equal names.
\<close>

theorem compare_names_spec:
  assumes "name_library L"
  shows "cmd_compare_names L [box t1 (name_wire cs), box t2 (name_wire ds)]
    = (if t1 \<noteq> NAME \<or> t2 \<noteq> NAME then Raise TypeError
       else Ret (PyInt (l_compare_names L (name_wire cs) (name_wire ds))))
    \<and> (cmd_compare_names L [box NAME (name_wire cs), box NAME (name_wire ds)] = Ret (PyInt 0)
         \<longleftrightarrow> cs = ds)"
  using name_library.compare_names [OF assms, of cs ds] by (simp add: cmd_compare_names_def)

theorem compare_names_spec_witness:
  "cmd_compare_names ndnb_lib [box NAME (name_wire [[1]]), box NAME (name_wire [[1]])] = Ret (PyInt 0)
   \<and> cmd_compare_names ndnb_lib [box NAME (name_wire [[1]]), box INTEREST (name_wire [[1]])]
       = Raise TypeError"
  using compare_names_spec [OF ndnb_names.name_library_axioms, of NAME "[[1]]" NAME "[[1]]"]
    compare_names_spec [OF ndnb_names.name_library_axioms, of NAME "[[1]]" INTEREST "[[1]]"]
  by simp

end
