(* ===== verification/MethodsM.thy ===== *)
theory MethodsM
  imports NameM
begin

section \<open>Buffers as bytes: csrc/methods.c\<close>

text \<open>
  \<^verbatim>\<open>dump_charbuf\<close>, with which the \<^verbatim>\<open>toWire\<close> methods of the package hand out the wire form
  of a capsule, and \<^verbatim>\<open>new_charbuf\<close>, which makes one capsule type from bytes. The other command of
  the file, \<^verbatim>\<open>generate_RSA_key\<close>, is in theory \<open>KeyM\<close>.
\<close>

definition dump_types :: "capsule_type list" where
  "dump_types = [CONTENT_OBJECT, EXCLUSION_FILTER, INTEREST, KEY_LOCATOR, NAME, SIGNATURE, SIGNED_INFO]"

fun first_valid :: "'e env_scheme \<Rightarrow> capsule_type list \<Rightarrow> pyval \<Rightarrow> capsule_type option outcome" where
  "first_valid E [] v = Ret None"
| "first_valid E (ty # tys) v =
     bnd (NDNObject_IsValid E ty v) (\<lambda>ok. if ok then Ret (Some ty) else first_valid E tys v)"

definition cmd_dump_charbuf :: "'e env_scheme \<Rightarrow> pyval \<Rightarrow> pyval outcome" where
  "cmd_dump_charbuf E py_charbuf =
     bnd (first_valid E dump_types py_charbuf) (\<lambda>found.
       case found of
         None \<Rightarrow> Raise TypeError
       | Some ty \<Rightarrow> bnd (get_charbuf E ty py_charbuf) (\<lambda>b. Ret (PyBytes b)))"

text \<open>The \<^verbatim>\<open>s\<close> conversion of \<^verbatim>\<open>PyArg_ParseTuple\<close> refuses a zero byte, \<^verbatim>\<open>s#\<close> does not.\<close>

definition arg_cstring :: "pyval \<Rightarrow> bytes outcome" where
  "arg_cstring v = bnd (bytes_as_string_and_size v) (string_and_size False)"

definition cmd_new_charbuf :: "'e ndnlib_scheme \<Rightarrow> pyval list \<Rightarrow> pyval outcome" where
  "cmd_new_charbuf L args =
     (case args of
        [py_type, py_data] \<Rightarrow>
          bnd (arg_cstring py_type) (\<lambda>ty.
          bnd (bytes_as_string_and_size py_data) (\<lambda>charbuf_data.
            if ty \<noteq> map of_char ''KeyLocator_ndn_data'' then Raise ValueError
            else bnd (NDNObject_New_charbuf L KEY_LOCATOR) (\<lambda>c.
                   try_mem (l_append L [] charbuf_data) (\<lambda>b. Ret (fill c b)))))
      | _ \<Rightarrow> Raise TypeError)"

subsection \<open>Properties\<close>

lemma first_valid_spec:
  "list_all listed tys \<Longrightarrow> first_valid E tys v = Ret (find (\<lambda>ty. has_type ty v) tys)"
  by (induction tys) auto

lemma dump_types_listed: "list_all listed dump_types" "set dump_types = set charbuf_types"
  by (simp_all add: dump_types_def charbuf_types_def)

lemma dump_box: "ty \<in> set charbuf_types \<Longrightarrow> cmd_dump_charbuf E (box ty b) = Ret (PyBytes b)"
  by (auto simp: cmd_dump_charbuf_def first_valid_spec dump_types_listed)
    (auto simp: dump_types_def charbuf_types_def)

lemma dump_other: "(\<And>ty. ty \<in> set charbuf_types \<Longrightarrow> \<not> has_type ty v) \<Longrightarrow> cmd_dump_charbuf E v = Raise TypeError"
  by (simp add: cmd_dump_charbuf_def first_valid_spec dump_types_listed)
    (simp add: dump_types_def charbuf_types_def)

text \<open>
  The bytes of every buffer type can be dumped and of nothing else, whatever the build. Made
  again from its bytes, a key locator is the same capsule; no other type can be made.
\<close>

theorem charbuf_bytes:
  assumes "buffer_writer L" "allocs_ok L"
  shows "(ty \<in> set charbuf_types \<longrightarrow> cmd_dump_charbuf L (box ty b) = Ret (PyBytes b))
    \<and> (cmd_dump_charbuf L v \<noteq> Raise TypeError \<longrightarrow> (\<exists>ty \<in> set charbuf_types. has_type ty v))
    \<and> bnd (cmd_dump_charbuf L (box KEY_LOCATOR b))
        (\<lambda>d. cmd_new_charbuf L [PyBytes (map of_char ''KeyLocator_ndn_data''), d]) = Ret (box KEY_LOCATOR b)
    \<and> (cmd_new_charbuf L [PyBytes s, PyBytes b] = Ret v \<longrightarrow>
         s = map of_char ''KeyLocator_ndn_data'' \<and> v = box KEY_LOCATOR b)"
proof -
  have made: "cmd_new_charbuf L [PyBytes s, PyBytes b]
    = (if 0 \<in> set s then Raise TypeError
       else if s = map of_char ''KeyLocator_ndn_data'' then Ret (box KEY_LOCATOR b) else Raise ValueError)" for s
    using New_charbuf_ok [of KEY_LOCATOR L Ret b] assms(2) buffer_writer.append [OF assms(1)]
    by (simp add: cmd_new_charbuf_def arg_cstring_def string_and_size_def charbuf_types_def)
  have "cmd_dump_charbuf L (box KEY_LOCATOR b) = Ret (PyBytes b)"
    by (rule dump_box) (simp add: charbuf_types_def)
  moreover have "cmd_dump_charbuf L v \<noteq> Raise TypeError \<Longrightarrow> \<exists>ty \<in> set charbuf_types. has_type ty v"
    using dump_other [of v L] by auto
  ultimately show ?thesis
    using dump_box [of ty L b] made by (auto split: if_splits)
qed

theorem charbuf_bytes_witness:
  "cmd_dump_charbuf ndnb_lib (box SIGNATURE [1, 2]) = Ret (PyBytes [1, 2])
   \<and> bnd (cmd_dump_charbuf ndnb_lib (box KEY_LOCATOR [3]))
       (\<lambda>d. cmd_new_charbuf ndnb_lib [PyBytes (map of_char ''KeyLocator_ndn_data''), d]) = Ret (box KEY_LOCATOR [3])"
  using charbuf_bytes [OF ndnb_writer.buffer_writer_axioms ndnb_lib_ok(1), of SIGNATURE "[1, 2]"]
    charbuf_bytes [OF ndnb_writer.buffer_writer_axioms ndnb_lib_ok(1), of SIGNATURE "[3]"]
  by (simp add: charbuf_types_def)

end
