(* ===== verification/NameClass.thy ===== *)
theory NameClass
  imports MethodsM "HOL-Library.List_Lexorder" "HOL-Library.Sublist"
begin

section \<open>The class of names: python/ndn/Name.py\<close>

text \<open>
  The methods of the Python class that stand on the commands of \<open>NameM\<close>: construction,
  slices, the six comparisons, segment numbers, prefix tests. Comparison encodes both
  names and calls \<^verbatim>\<open>compare_names\<close>; its contract is the canonical order of names,
  given here as an instance of \<open>linorder\<close>, so that the order on lists of the library is the order of
  names.
\<close>

subsection \<open>Components in canonical order\<close>

datatype component = Comp (content: bytes)

instantiation component :: linorder
begin

definition less_component :: "component \<Rightarrow> component \<Rightarrow> bool" where
  "less_component a b \<longleftrightarrow>
     length (content a) < length (content b)
     \<or> length (content a) = length (content b) \<and> content a < content b"

definition less_eq_component :: "component \<Rightarrow> component \<Rightarrow> bool" where
  "less_eq_component a b \<longleftrightarrow> a < b \<or> a = (b :: component)"

instance
proof
  fix a b c :: component
  show "a < b \<longleftrightarrow> a \<le> b \<and> \<not> b \<le> a"
    by (auto simp: less_component_def less_eq_component_def)
  show "a \<le> a"
    by (simp add: less_eq_component_def)
  show "a \<le> b \<Longrightarrow> b \<le> c \<Longrightarrow> a \<le> c"
    by (auto simp: less_component_def less_eq_component_def)
  show "a \<le> b \<Longrightarrow> b \<le> a \<Longrightarrow> a = b"
    by (auto simp: less_component_def less_eq_component_def)
  show "a \<le> b \<or> b \<le> a"
    by (cases a; cases b) (auto simp: less_component_def less_eq_component_def)
qed

end

lemma less_Comp [simp]:
  "Comp a < Comp b \<longleftrightarrow> length a < length b \<or> length a = length b \<and> a < b"
  by (simp add: less_component_def)

abbreviation canonical :: "bytes list \<Rightarrow> component list" where
  "canonical cs \<equiv> map Comp cs"

lemma canonical_inj [simp]: "canonical cs = canonical ds \<longleftrightarrow> cs = ds"
  by (rule inj_map_eq_map) (simp add: inj_def)

lemma bytes_compare_less:
  "length a = length b \<Longrightarrow> bytes_compare a b = (if a < b then - 1 else if a = b then 0 else 1)"
  by (induction a b rule: bytes_compare.induct) auto

lemma comps_compare_less:
  "comps_compare cs ds = (if canonical cs < canonical ds then - 1 else if cs = ds then 0 else 1)"
  by (induction cs ds rule: comps_compare.induct) (auto simp: bytes_compare_less)

lemma sgn_minus_one: "sgn (x :: int) = - 1 \<longleftrightarrow> x < 0" and sgn_one: "sgn (x :: int) = 1 \<longleftrightarrow> 0 < x"
  by (auto simp: sgn_if)

context canonical_names
begin

lemma compare_sign:
  "l_compare_names L (name_wire cs) (name_wire ds) < 0 \<longleftrightarrow> canonical cs < canonical ds"
  "l_compare_names L (name_wire cs) (name_wire ds) = 0 \<longleftrightarrow> cs = ds"
  using compare_canonical [of cs ds] compare_names [of cs ds]
  by (auto simp: comps_compare_less sgn_if split: if_splits)

end

subsection \<open>Construction\<close>

text \<open>\<^verbatim>\<open>not value\<close>; a \<^verbatim>\<open>Name\<close> is as long as its components, a \<^verbatim>\<open>Const\<close> has no length.\<close>

fun py_len :: "pyval \<Rightarrow> nat outcome" where
  "py_len (PyBytes b) = Ret (length b)"
| "py_len (PyUnicode u) = Ret (length u)"
| "py_len (PyByteArray b) = Ret (length b)"
| "py_len (PyList xs) = Ret (length xs)"
| "py_len (PyTuple xs) = Ret (length xs)"
| "py_len _ = Raise TypeError"

definition name_len :: "pyval \<Rightarrow> nat outcome" where
  "name_len py_name = bnd (py_getattr py_name ''components'') py_len"

fun py_true :: "pyval \<Rightarrow> bool outcome" where
  "py_true PyNone = Ret False"
| "py_true (PyBool b) = Ret b"
| "py_true (PyInt n) = Ret (n \<noteq> 0)"
| "py_true (PyFloat d) = Ret (d \<noteq> Fin 0)"
| "py_true (PyCapsule c) = Ret True"
| "py_true (PyConst v) = Ret True"
| "py_true (PyInst cls attrs) =
     (if cls = ''Name'' then bnd (name_len (PyInst cls attrs)) (\<lambda>n. Ret (n \<noteq> 0)) else Ret True)"
| "py_true v = bnd (py_len v) (\<lambda>n. Ret (n \<noteq> 0))"

definition name_of :: "pyval \<Rightarrow> pyval" where
  "name_of cs = PyInst ''Name'' [(''components'', cs), (''ndn_data'', PyNone)]"

definition Name_init :: "'e ndnlib_scheme \<Rightarrow> pyval \<Rightarrow> pyval outcome" where
  "Name_init L value =
     bnd (py_true value) (\<lambda>t.
       if \<not> t then Ret (name_of (PyList []))
       else if is_name value then bnd (py_getattr value ''components'') (\<lambda>cs. Ret (name_of cs))
       else case value of
              PyBytes _ \<Rightarrow>
                bnd (cmd_name_from_uri L value) (\<lambda>n.
                bnd (cmd_name_comps_from_ndn L n) (\<lambda>cs. Ret (name_of cs)))
            | PyList _ \<Rightarrow> Ret (name_of value)
            | _ \<Rightarrow> Raise TypeError)"

subsection \<open>Appending and slices\<close>

text \<open>
  A list is copied before it grows; what else the components may be has no \<^verbatim>\<open>append\<close> (a byte
  array, which has one for single bytes, is taken to have none). \<^verbatim>\<open>str\<close> is the interpreter's \<^verbatim>\<open>str()\<close> (\<^verbatim>\<open>bytes\<close> of
  Python 2), which on a byte string is the string itself.
\<close>

fun as_list :: "pyval \<Rightarrow> pyval list outcome" where
  "as_list (PyList xs) = Ret xs"
| "as_list _ = Raise AttributeError"

definition name_append_component :: "'e ndnlib_scheme \<Rightarrow> pyval \<Rightarrow> pyval \<Rightarrow> pyval outcome" where
  "name_append_component L self component =
     bnd (py_getattr self ''components'') (\<lambda>cs.
     bnd (as_list cs) (\<lambda>xs. Name_init L (PyList (xs @ [component]))))"

definition name_append_value ::
    "'e ndnlib_scheme \<Rightarrow> (pyval \<Rightarrow> bytes outcome) \<Rightarrow> pyval \<Rightarrow> pyval \<Rightarrow> pyval outcome" where
  "name_append_value L str self value =
     bnd (py_getattr self ''components'') (\<lambda>cs.
     bnd (as_list cs) (\<lambda>xs.
     bnd (if is_name value then bnd (py_getattr value ''components'') as_list
          else case value of
                 PyList ys \<Rightarrow> Ret ys
               | _ \<Rightarrow> bnd (str value) (\<lambda>b. Ret [PyBytes b])) (\<lambda>ys.
       Name_init L (PyList (xs @ ys)))))"

text \<open>
  \<^verbatim>\<open>self[:n]\<close>; with \<open>None\<close> the slice \<^verbatim>\<open>self[:]\<close>. The slice is that of the
  components, of whatever sequence they are, and the constructor gets it. (Instances are taken to have no
  slices; components that are a \<^verbatim>\<open>Name\<close> are not followed.)
\<close>

fun py_prefix :: "nat option \<Rightarrow> pyval \<Rightarrow> pyval outcome" where
  "py_prefix stop (PyList xs) = Ret (PyList (case stop of None \<Rightarrow> xs | Some n \<Rightarrow> take n xs))"
| "py_prefix stop (PyTuple xs) = Ret (PyTuple (case stop of None \<Rightarrow> xs | Some n \<Rightarrow> take n xs))"
| "py_prefix stop (PyBytes b) = Ret (PyBytes (case stop of None \<Rightarrow> b | Some n \<Rightarrow> take n b))"
| "py_prefix stop (PyByteArray b) = Ret (PyByteArray (case stop of None \<Rightarrow> b | Some n \<Rightarrow> take n b))"
| "py_prefix stop (PyUnicode u) = Ret (PyUnicode (case stop of None \<Rightarrow> u | Some n \<Rightarrow> take n u))"
| "py_prefix stop (PyConst v) = py_prefix stop v"
| "py_prefix stop _ = Raise TypeError"

definition name_slice :: "'e ndnlib_scheme \<Rightarrow> pyval \<Rightarrow> nat option \<Rightarrow> pyval outcome" where
  "name_slice L self stop =
     bnd (py_getattr self ''components'') (\<lambda>cs. bnd (py_prefix stop cs) (Name_init L))"

subsection \<open>Wire forms\<close>

text \<open>
  \<^verbatim>\<open>fromWire\<close> converts its argument with \<^verbatim>\<open>bytes()\<close>, which in Python 2 is
  \<^verbatim>\<open>str()\<close>, and sets the components of a new name; it may not return, as the command it
  calls.
\<close>

definition Name_fromWire ::
    "'e ndnlib_scheme \<Rightarrow> (pyval \<Rightarrow> bytes outcome) \<Rightarrow> pyval \<Rightarrow> pyval outcome option" where
  "Name_fromWire L str wire =
     (case str wire of
        Ret b \<Rightarrow>
          map_option (\<lambda>m. bnd m (py_setattr (name_of (PyList [])) ''components''))
            (cmd_name_comps_from_ndn_buffer L (PyBytes b))
      | m \<Rightarrow> Some (bnd m (\<lambda>_. Undef)))"

definition Name_toWire :: "'e ndnlib_scheme \<Rightarrow> pyval \<Rightarrow> pyval outcome" where
  "Name_toWire L self = bnd (name_ndn_data L self) (cmd_dump_charbuf L)"

definition Name_toUri :: "'e ndnlib_scheme \<Rightarrow> pyval \<Rightarrow> pyval outcome" where
  "Name_toUri L self = bnd (name_ndn_data L self) (cmd_name_to_uri L)"

text \<open>
  Calling the class with keyword arguments: its constructor knows \<^verbatim>\<open>value\<close> only.
\<close>

definition call_Name_kwds :: "'e ndnlib_scheme \<Rightarrow> (string \<times> pyval) list \<Rightarrow> pyval outcome" where
  "call_Name_kwds L kwds =
     (if \<not> set (map fst kwds) \<subseteq> {''value''} then Raise TypeError
      else Name_init L (case map_of kwds ''value'' of None \<Rightarrow> PyNone | Some v \<Rightarrow> v))"

subsection \<open>Comparison\<close>

datatype cmp_op = Op_lt | Op_gt | Op_eq | Op_le | Op_ge | Op_ne

fun cmp_test :: "cmp_op \<Rightarrow> int \<Rightarrow> bool" where
  "cmp_test Op_lt r = (r < 0)"
| "cmp_test Op_gt r = (r > 0)"
| "cmp_test Op_eq r = (r = 0)"
| "cmp_test Op_le r = (r \<le> 0)"
| "cmp_test Op_ge r = (r \<ge> 0)"
| "cmp_test Op_ne r = (r \<noteq> 0)"

definition name_compare :: "'e ndnlib_scheme \<Rightarrow> cmp_op \<Rightarrow> pyval \<Rightarrow> pyval \<Rightarrow> bool outcome" where
  "name_compare L op self other =
     bnd (name_ndn_data L self) (\<lambda>a.
     bnd (name_ndn_data L other) (\<lambda>b.
     bnd (cmd_compare_names L [a, b]) (\<lambda>r.
       case r of PyInt n \<Rightarrow> Ret (cmp_test op n) | _ \<Rightarrow> Undef)))"

definition isPrefixOf :: "'e ndnlib_scheme \<Rightarrow> pyval \<Rightarrow> pyval \<Rightarrow> bool outcome" where
  "isPrefixOf L self other =
     bnd (name_slice L self None) (\<lambda>a.
     bnd (name_len self) (\<lambda>n.
     bnd (name_slice L other (Some n)) (\<lambda>b. name_compare L Op_eq a b)))"

text \<open>The items of a sequence, in order.\<close>

fun py_items :: "pyval \<Rightarrow> pyval list outcome" where
  "py_items (PyList xs) = Ret xs"
| "py_items (PyTuple xs) = Ret xs"
| "py_items (PyBytes b) = Ret (map (\<lambda>x. PyBytes [x]) b)"
| "py_items (PyByteArray b) = Ret (map (\<lambda>x. PyInt (int (unat x))) b)"
| "py_items (PyUnicode u) = Ret (map (\<lambda>x. PyUnicode [x]) u)"
| "py_items _ = Raise TypeError"

text \<open>
  \<^verbatim>\<open>Interest.matches_name\<close>: component by component with the interpreter's \<^verbatim>\<open>==\<close>, which is
  the parameter \<open>eq\<close>.
\<close>

definition matches_name :: "(pyval \<Rightarrow> pyval \<Rightarrow> bool) \<Rightarrow> pyval \<Rightarrow> pyval \<Rightarrow> bool outcome" where
  "matches_name eq self name =
     bnd (py_getattr self ''name'') (\<lambda>n.
     bnd (py_getattr n ''components'') (\<lambda>i_name.
     bnd (py_getattr name ''components'') (\<lambda>o_name.
     bnd (py_items i_name) (\<lambda>is. bnd (py_items o_name) (\<lambda>os.
       if length os < length is then Ret False
       else if \<not> list_all (\<lambda>(i, j). eq i j) (zip is os) then Ret False
       else Ret True)))))"

subsection \<open>Numbers in components\<close>

text \<open>\<^verbatim>\<open>struct.pack("!Q", n)\<close> and \<^verbatim>\<open>struct.unpack\<close>: eight bytes, the highest first.\<close>

fun be_bytes :: "nat \<Rightarrow> nat \<Rightarrow> bytes" where
  "be_bytes 0 n = []"
| "be_bytes (Suc k) n = be_bytes k (n div 256) @ [of_nat (n mod 256)]"

fun be_value :: "bytes \<Rightarrow> nat" where
  "be_value [] = 0"
| "be_value (b # bs) = unat b * 256 ^ length bs + be_value bs"

definition pack_Q :: "int \<Rightarrow> bytes outcome" where
  "pack_Q n = (if 0 \<le> n \<and> n < 2 ^ 64 then Ret (be_bytes 8 (nat n)) else Raise StructError)"

definition unpack_Q :: "bytes \<Rightarrow> nat outcome" where
  "unpack_Q b = (if length b = 8 then Ret (be_value b) else Raise StructError)"

definition lstrip_zero :: "bytes \<Rightarrow> bytes" where
  "lstrip_zero b = dropWhile (\<lambda>x. x = 0) b"

definition num2seg :: "int \<Rightarrow> bytes outcome" where
  "num2seg num = bnd (pack_Q num) (\<lambda>b. Ret (0 # lstrip_zero b))"

definition seg2num :: "bytes \<Rightarrow> nat outcome" where
  "seg2num segment = unpack_Q (replicate (8 - length segment) 0 @ segment)"

definition appendSegment :: "'e ndnlib_scheme \<Rightarrow> pyval \<Rightarrow> int \<Rightarrow> pyval outcome" where
  "appendSegment L self segment =
     bnd (num2seg segment) (\<lambda>c. name_append_component L self (PyBytes c))"

text \<open>
  \<^verbatim>\<open>pre + v\<close> of a byte string that is no ASCII: text makes the interpreter decode it
  and fail, a byte array gives a byte array.
\<close>

definition str_plus :: "bytes \<Rightarrow> pyval \<Rightarrow> pyval outcome" where
  "str_plus pre v =
     (case v of
        PyBytes b \<Rightarrow> Ret (PyBytes (pre @ b))
      | PyByteArray b \<Rightarrow> Ret (PyByteArray (pre @ b))
      | PyUnicode _ \<Rightarrow> Raise ValueError
      | _ \<Rightarrow> Raise TypeError)"

text \<open>\<open>inttime\<close> is the clock in units of a 4096th of a second, as the method rounds it.\<close>

definition appendVersion :: "'e ndnlib_scheme \<Rightarrow> int \<Rightarrow> pyval \<Rightarrow> pyval \<Rightarrow> pyval outcome" where
  "appendVersion L inttime self version =
     bnd (py_true version) (\<lambda>t.
     bnd (if t then Ret version else bnd (pack_Q inttime) (\<lambda>b. Ret (PyBytes (lstrip_zero b)))) (\<lambda>v.
     bnd (str_plus [0xFD] v) (name_append_component L self)))"

definition appendKeyID :: "'e ndnlib_scheme \<Rightarrow> pyval \<Rightarrow> pyval \<Rightarrow> pyval outcome" where
  "appendKeyID L self key_or_digest =
     bnd (if tp_name key_or_digest = ''Key'' then py_getattr key_or_digest ''publicKeyID'' else Ret key_or_digest) (\<lambda>d.
     bnd (str_plus [0xC1, 0x2E, 0x4D, 0x2E, 0x4B, 0] d) (name_append_component L self))"

text \<open>The nonce is packed in the byte order of the machine, which is little-endian.\<close>

definition appendNonce :: "'e ndnlib_scheme \<Rightarrow> nat \<Rightarrow> pyval \<Rightarrow> pyval outcome" where
  "appendNonce L val self =
     name_append_component L self (PyBytes ([0xC1, 0x2E, 0x4E, 0] @ rev (be_bytes 8 val)))"

subsection \<open>Numbers sort as their components\<close>

lemma length_be_bytes [simp]: "length (be_bytes k n) = k"
  by (induction k arbitrary: n) auto

lemma be_value_append: "be_value (xs @ ys) = be_value xs * 256 ^ length ys + be_value ys"
  by (induction xs) (auto simp: power_add algebra_simps)

lemma unat_mod_byte: "unat (of_nat (n mod 256) :: byte) = n mod 256"
  by (rule unat_of_nat_small) simp

lemma be_value_bytes: "n < 256 ^ k \<Longrightarrow> be_value (be_bytes k n) = n"
proof (induction k arbitrary: n)
  case (Suc k)
  then have "n div 256 < 256 ^ k"
    by (simp add: div_less_iff_less_mult mult.commute)
  from Suc.IH [OF this] show ?case
    by (simp add: be_value_append unat_mod_byte)
qed simp

lemma be_value_bound: "be_value bs < 256 ^ length bs"
proof (induction bs)
  case (Cons b bs)
  have "unat b * 256 ^ length bs + be_value bs < (unat b + 1) * 256 ^ length bs"
    using Cons.IH by simp
  also have "\<dots> \<le> 256 * 256 ^ length bs"
    using unat_byte [of b] by (intro mult_right_mono) (simp_all add: Suc_le_eq)
  finally show ?case by simp
qed simp

lemma be_value_strip [simp]: "be_value (lstrip_zero bs) = be_value bs"
  by (induction bs) (auto simp: lstrip_zero_def)

lemma be_value_zeros [simp]: "be_value (replicate k 0 @ bs) = be_value bs"
  by (induction k) auto

lemma digit_less:
  assumes "a < b" "u < (k :: nat)"
  shows "a * k + u < b * k + v"
proof -
  have "a * k + u < (a + 1) * k"
    using assms(2) by simp
  also have "\<dots> \<le> b * k"
    using assms(1) by (intro mult_right_mono) auto
  finally show ?thesis by simp
qed

lemma same_length_value:
  "length xs = length ys \<Longrightarrow> xs < ys \<longleftrightarrow> be_value xs < be_value ys"
proof (induction xs ys rule: list_induct2)
  case (Cons x xs y ys)
  consider "unat x < unat y" | "x = y" | "unat y < unat x"
    using word_unat_eq_iff [of x y] by (meson linorder_neqE_nat)
  then show ?case
  proof cases
    case 1
    then show ?thesis
      using digit_less [OF 1 be_value_bound [of xs], of "be_value ys"] Cons.hyps
      by (simp add: word_less_nat_alt)
  next
    case 2
    then show ?thesis using Cons by simp
  next
    case 3
    then show ?thesis
      using digit_less [OF 3 be_value_bound [of ys], of "be_value xs"] Cons.hyps
      by (auto simp: word_less_nat_alt)
  qed
qed simp

text \<open>No leading zero: the longer string is the greater number.\<close>

definition stripped :: "bytes \<Rightarrow> bool" where
  "stripped bs \<longleftrightarrow> (bs \<noteq> [] \<longrightarrow> hd bs \<noteq> 0)"

lemma stripped_strip [simp]: "stripped (lstrip_zero bs)"
  unfolding stripped_def lstrip_zero_def using hd_dropWhile by blast

lemma stripped_value_ge:
  assumes "stripped bs" "bs \<noteq> []"
  shows "256 ^ (length bs - 1) \<le> be_value bs"
proof -
  obtain b r where b: "bs = b # r" using assms(2) by (cases bs) auto
  then have "1 \<le> unat b"
    using assms(1) by (simp add: stripped_def Suc_leI unat_gt_0)
  then have "1 * 256 ^ length r \<le> unat b * 256 ^ length r"
    by (rule mult_right_mono) simp
  then show ?thesis using b by (simp add: trans_le_add1)
qed

lemma longer_is_greater:
  assumes "stripped ys" "length xs < length ys"
  shows "be_value xs < be_value ys"
proof -
  have "be_value xs < 256 ^ length xs" by (rule be_value_bound)
  also have "\<dots> \<le> 256 ^ (length ys - 1)"
    using assms(2) by (intro power_increasing) auto
  also have "\<dots> \<le> be_value ys"
    using assms by (intro stripped_value_ge) auto
  finally show ?thesis .
qed

lemma stripped_order:
  assumes "stripped xs" "stripped ys"
  shows "Comp (p # xs) < Comp (p # ys) \<longleftrightarrow> be_value xs < be_value ys"
  using longer_is_greater [OF assms(1), of ys] longer_is_greater [OF assms(2), of xs]
    same_length_value [of xs ys]
  by (cases "length xs" "length ys" rule: linorder_cases) auto

lemma numbered_order:
  "m < 2 ^ 64 \<Longrightarrow> n < 2 ^ 64 \<Longrightarrow>
   Comp (p # lstrip_zero (be_bytes 8 m)) < Comp (p # lstrip_zero (be_bytes 8 n)) \<longleftrightarrow> m < n"
  by (simp only: stripped_order [OF stripped_strip stripped_strip] be_value_strip) (simp add: be_value_bytes)

lemma length_strip_bytes:
  assumes "n < 256 ^ k"
  shows "length (lstrip_zero (be_bytes k n)) \<le> j \<longleftrightarrow> n < 256 ^ j"
proof -
  let ?b = "lstrip_zero (be_bytes k n)"
  have v: "be_value ?b = n"
    using be_value_bytes [OF assms] by simp
  show ?thesis
  proof
    assume "length ?b \<le> j"
    then have "(256::nat) ^ length ?b \<le> 256 ^ j"
      by (intro power_increasing) auto
    then show "n < 256 ^ j"
      using be_value_bound [of ?b] v by linarith
  next
    assume n: "n < 256 ^ j"
    show "length ?b \<le> j"
    proof (rule ccontr)
      assume "\<not> length ?b \<le> j"
      then have "?b \<noteq> []" "(256::nat) ^ j \<le> 256 ^ (length ?b - 1)"
        by (auto intro: power_increasing)
      then show False
        using stripped_value_ge [OF stripped_strip, of "be_bytes k n"] v n by linarith
    qed
  qed
qed

subsection \<open>What the methods give on names of the package\<close>

lemma Name_init_list [simp]: "Name_init L (PyList xs) = Ret (name_of (PyList xs))"
  by (simp add: Name_init_def)

lemma append_component [simp]:
  "name_append_component L (name_of (PyList xs)) c = Ret (name_of (PyList (xs @ [c])))"
  by (simp add: name_append_component_def name_of_def [of "PyList xs"])

lemma name_slice_list [simp]:
  "name_slice L (name_of (PyList xs)) stop
     = Ret (name_of (PyList (case stop of None \<Rightarrow> xs | Some n \<Rightarrow> take n xs)))"
  by (simp add: name_slice_def name_of_def [of "PyList xs"])

lemma name_len_list [simp]: "name_len (name_of (PyList xs)) = Ret (length xs)"
  by (simp add: name_len_def name_of_def)

lemma name_obj_of: "name_obj cs = name_of (PyList (map PyBytes cs))"
  by (simp add: name_obj_def name_of_def)

lemma fromWire_name:
  assumes "name_library L" "mem L A_indexbuf" "str v = Ret (name_wire cs)"
  shows "Name_fromWire L str v = Some (Ret (name_obj cs))"
  using comps_of_buffer [OF assms(1,2), of "PyBytes (name_wire cs)" cs] assms(3)
  by (simp add: Name_fromWire_def name_obj_def name_of_def)

fun cmp_order :: "cmp_op \<Rightarrow> 'a::linorder \<Rightarrow> 'a \<Rightarrow> bool" where
  "cmp_order Op_lt a b = (a < b)"
| "cmp_order Op_gt a b = (a > b)"
| "cmp_order Op_eq a b = (a = b)"
| "cmp_order Op_le a b = (a \<le> b)"
| "cmp_order Op_ge a b = (a \<ge> b)"
| "cmp_order Op_ne a b = (a \<noteq> b)"

context name_library
begin

lemma ndn_data_of:
  assumes "allocs_ok L"
  shows "name_ndn_data L (name_of (PyList xs))
    = bnd (traverse (item_component L) xs) (\<lambda>cs. Ret (box NAME (name_wire cs)))"
  using comps_to_ndn [OF assms] by (simp add: name_of_def)

lemma name_compare_wire:
  assumes "allocs_ok L"
    and "traverse (item_component L) xs = Ret cs" "traverse (item_component L) ys = Ret ds"
  shows "name_compare L op (name_of (PyList xs)) (name_of (PyList ys))
    = Ret (cmp_test op (l_compare_names L (name_wire cs) (name_wire ds)))"
  using assms by (simp add: name_compare_def ndn_data_of cmd_compare_names_def)

end

context canonical_names
begin

lemma name_compare_order:
  assumes "allocs_ok L"
    and "traverse (item_component L) xs = Ret cs" "traverse (item_component L) ys = Ret ds"
  shows "name_compare L op (name_of (PyList xs)) (name_of (PyList ys))
    = Ret (cmp_order op (canonical cs) (canonical ds))"
  using name_compare_wire [OF assms, of op] compare_sign [of cs ds] canonical_inj [of cs ds]
  by (cases op) (auto simp: not_less order.order_iff_strict)

end

lemma cmp_order_transfer:
  "(a < b) = (c < d) \<Longrightarrow> (b < a) = (d < c) \<Longrightarrow> cmp_order op a b = cmp_order op c d"
  by (cases op) (auto simp: not_less [symmetric] order.eq_iff)

lemma traverse_append:
  "traverse f (xs @ ys) = bnd (traverse f xs) (\<lambda>as. bnd (traverse f ys) (\<lambda>bs. Ret (as @ bs)))"
  by (induction xs) (simp_all add: outcome_simps)

lemma traverse_take: "traverse f xs = Ret cs \<Longrightarrow> traverse f (take n xs) = Ret (take n cs)"
proof (induction xs arbitrary: n cs)
  case (Cons x xs)
  then show ?case by (cases n) (auto simp: bnd_eq_Ret)
qed simp

lemma less_append_same [simp]: "(xs @ ys :: component list) < xs @ zs \<longleftrightarrow> ys < zs"
  by (induction xs) auto

subsection \<open>Properties\<close>

text \<open>
  C17. The six comparisons of \<^verbatim>\<open>Name\<close> are those of a linear order, the canonical order of the
  components the items stand for: a list of components compares as a list of words does, a
  component by its length and then by its bytes.
\<close>

theorem name_comparisons_canonical:
  assumes "canonical_names L" "allocs_ok L"
    and "traverse (item_component L) xs = Ret cs" "traverse (item_component L) ys = Ret ds"
  shows "name_compare L op (name_of (PyList xs)) (name_of (PyList ys))
    = Ret (cmp_order op (canonical cs) (canonical ds))"
  using assms by (rule canonical_names.name_compare_order)

theorem name_comparisons_canonical_witness:
  "name_compare ndnb_lib Op_lt (name_of (PyList [PyBytes [9]])) (name_of (PyList [PyUnicode [97], PyInt 7])) = Ret True
   \<and> name_compare ndnb_lib Op_le (name_of (PyList [PyBytes [0, 0]])) (name_of (PyList [PyBytes [255]])) = Ret False"
  using name_comparisons_canonical [OF ndnb_canonical.canonical_names_axioms, of "[PyBytes [9]]" "[[9]]"
      "[PyUnicode [97], PyInt 7]" "[[97], [55]]" Op_lt]
    name_comparisons_canonical [OF ndnb_canonical.canonical_names_axioms, of "[PyBytes [0, 0]]" "[[0, 0]]"
      "[PyBytes [255]]" "[[255]]" Op_le]
  by (simp add: item_component_def utf8_def utf8_char_def number_str_def int_digits_def nat_digits.simps
      canonical_names.name_compare_order [OF ndnb_canonical.canonical_names_axioms] less_eq_component_def)

text \<open>
  C18. The segments appended to a name sort as their numbers, and so do the versions made
  from the clock, for all numbers the methods accept.
\<close>

theorem numbered_names_sorted:
  assumes "canonical_names L" "allocs_ok L" "traverse (item_component L) xs = Ret cs"
    and "0 \<le> i" "i < 2 ^ 64" "0 \<le> j" "j < 2 ^ 64"
  shows "bnd (appendSegment L (name_of (PyList xs)) i) (\<lambda>a.
         bnd (appendSegment L (name_of (PyList xs)) j) (\<lambda>b. name_compare L op a b))
      = Ret (cmp_order op i j)
    \<and> bnd (appendVersion L i (name_of (PyList xs)) PyNone) (\<lambda>a.
         bnd (appendVersion L j (name_of (PyList xs)) PyNone) (\<lambda>b. name_compare L op a b))
      = Ret (cmp_order op i j)"
proof -
  have "name_compare L op (name_of (PyList (xs @ [PyBytes (p # lstrip_zero (be_bytes 8 (nat i)))])))
          (name_of (PyList (xs @ [PyBytes (p # lstrip_zero (be_bytes 8 (nat j)))])))
        = Ret (cmp_order op i j)" for p
  proof -
    let ?c = "\<lambda>n. p # lstrip_zero (be_bytes 8 (nat n))"
    have t: "traverse (item_component L) (xs @ [PyBytes c]) = Ret (cs @ [c])" for c
      using assms(3) by (simp add: traverse_append item_component_def)
    have lt: "Comp (?c m) < Comp (?c n) \<longleftrightarrow> m < n" if "0 \<le> m" "m < 2 ^ 64" "0 \<le> n" "n < 2 ^ 64" for m n
      using that numbered_order [of "nat m" "nat n" p] by (auto simp: nat_less_iff simp del: less_Comp)
    have "cmp_order op (canonical (cs @ [?c i])) (canonical (cs @ [?c j])) = cmp_order op i j"
      using lt [of i j] lt [of j i] assms(4-7)
      by (intro cmp_order_transfer) (simp_all del: less_Comp)
    then show ?thesis
      using canonical_names.name_compare_order [OF assms(1,2) t t] by simp
  qed
  then show ?thesis
    using assms(4-7)
    by (simp add: appendSegment_def appendVersion_def num2seg_def pack_Q_def str_plus_def)
qed

theorem numbered_names_sorted_witness:
  "bnd (appendSegment ndnb_lib (name_of (PyList [])) 255) (\<lambda>a.
     bnd (appendSegment ndnb_lib (name_of (PyList [])) 256) (\<lambda>b. name_compare ndnb_lib Op_lt a b)) = Ret True"
  using numbered_names_sorted [OF ndnb_canonical.canonical_names_axioms, of "[]" "[]" 255 256 Op_lt] by simp

text \<open>
  The number of a segment is read back exactly when it takes at most seven bytes; from
  \<open>2 ^ 56\<close> on \<^verbatim>\<open>seg2num\<close> fails on what \<^verbatim>\<open>num2seg\<close> made, and from \<open>2 ^ 64\<close> on, and below
  zero, \<^verbatim>\<open>num2seg\<close> itself fails.
\<close>

theorem segment_numbers:
  "bnd (num2seg n) seg2num = (if 0 \<le> n \<and> n < 2 ^ 56 then Ret (nat n) else Raise StructError)"
proof (cases "0 \<le> n \<and> n < 2 ^ 64")
  case True
  let ?s = "lstrip_zero (be_bytes 8 (nat n))"
  have v: "be_value ?s = nat n"
    using True by (simp add: be_value_bytes nat_less_iff)
  have "length ?s \<le> 7 \<longleftrightarrow> nat n < 256 ^ 7"
    using True by (intro length_strip_bytes) (simp add: nat_less_iff)
  then have len: "length ?s \<le> 7 \<longleftrightarrow> n < 2 ^ 56"
    using True by (simp add: nat_less_iff)
  show ?thesis
    using True v len be_value_zeros [of "7 - length ?s" "0 # ?s"]
    by (auto simp: num2seg_def pack_Q_def seg2num_def unpack_Q_def)
qed (auto simp: num2seg_def pack_Q_def)

text \<open>
  C30. On names of byte strings \<^verbatim>\<open>isPrefixOf\<close>, which compares the encoded names, and
  \<^verbatim>\<open>matches_name\<close> of an interest, which compares components, are the same test. They
  part when a component is a number: encoded it is its digits, compared it is a number.
\<close>

theorem prefix_tests:
  assumes "name_library L" "allocs_ok L" "\<And>a b. eq (PyBytes a) (PyBytes b) \<longleftrightarrow> a = b"
    and "py_getattr interest ''name'' = Ret (PyConst (name_obj cs))"
    and "py_getattr interest' ''name'' = Ret (PyConst (name_of (PyList [PyInt 5])))"
    and "\<not> eq (PyInt 5) (PyBytes [53])"
  shows "isPrefixOf L (name_obj cs) (name_obj ds) = Ret (prefix cs ds)
    \<and> matches_name eq interest (name_obj ds) = Ret (prefix cs ds)
    \<and> isPrefixOf L (name_of (PyList [PyInt 5])) (name_obj [[53]]) = Ret True
    \<and> matches_name eq interest' (name_obj [[53]]) = Ret False"
proof -
  note L = name_library.name_compare_wire [OF assms(1,2)]
  note C = name_library.compare_names [OF assms(1)]
  have pre: "take (length cs) ds = cs \<longleftrightarrow> prefix cs ds" for cs ds :: "bytes list"
    by (metis append_eq_conv_conj prefix_def)
  have a: "isPrefixOf L (name_obj cs) (name_obj ds) = Ret (prefix cs ds)"
    using L [of "map PyBytes cs" cs "map PyBytes (take (length cs) ds)" "take (length cs) ds" Op_eq]
      pre [of cs ds]
    by (auto simp: isPrefixOf_def name_obj_of take_map C)
  have zip_eq: "length cs \<le> length ds \<Longrightarrow>
      list_all (\<lambda>(i, j). eq i j) (zip (map PyBytes cs) (map PyBytes ds)) \<longleftrightarrow> prefix cs ds"
    for cs ds
  proof (induction cs arbitrary: ds)
    case (Cons c cs)
    then show ?case by (cases ds) (auto simp: assms(3))
  qed simp
  have b: "matches_name eq interest (name_obj ds) = Ret (prefix cs ds)"
    using assms(4) zip_eq [of cs ds]
    by (auto simp: matches_name_def name_obj_def dest: prefix_length_le)
  have "traverse (item_component L) [PyInt 5] = Ret [[53]]"
    by (simp add: item_component_def number_str_def int_digits_def nat_digits.simps)
  then have c: "isPrefixOf L (name_of (PyList [PyInt 5])) (name_obj [[53]]) = Ret True"
    using L [of "[PyInt 5]" "[[53]]" "[PyBytes [53]]" "[[53]]" Op_eq] C [of "[[53]]" "[[53]]"]
    by (simp add: isPrefixOf_def name_obj_of item_component_def)
  have d: "matches_name eq interest' (name_obj [[53]]) = Ret False"
    using assms(5,6) by (simp add: matches_name_def name_obj_def name_of_def)
  from a b c d show ?thesis by blast
qed

definition interest_for :: "pyval \<Rightarrow> pyval" where
  "interest_for n = PyInst ''Interest'' [(''name'', n), (''ndn_data'', PyNone)]"

theorem prefix_tests_witness:
  "isPrefixOf ndnb_lib (name_obj [[1]]) (name_obj [[1], [2]]) = Ret True
   \<and> matches_name (=) (interest_for (name_obj [[1]])) (name_obj [[1], [2]]) = Ret True"
  using prefix_tests [OF ndnb_names.name_library_axioms, of "(=)" "interest_for (name_obj [[1]])" "[[1]]"
      "interest_for (name_of (PyList [PyInt 5]))" "[[1], [2]]"]
  by (simp add: interest_for_def)

end
