(* ===== verification/InterestM.thy ===== *)
theory InterestM
  imports NameM Doubles
begin

section \<open>Interests: csrc/methods\_interest.c\<close>

text \<open>
  Encoding a Python \<^verbatim>\<open>Interest\<close> into a buffer, decoding a buffer into one, the parsed
  form kept beside the buffer, and the (unregistered) encoder of exclusion filters. Encoding
  and decoding are composed of one definition per attribute, in the order of the code.
\<close>

subsection \<open>Attributes\<close>

definition is_attr_set :: "pyval \<Rightarrow> string \<Rightarrow> pyval option outcome" where
  "is_attr_set py_obj a =
     bnd (py_getattr py_obj a) (\<lambda>v. Ret (if v = PyNone then None else Some v))"

subsection \<open>Exclusion filters\<close>

text \<open>
  One element of the list: a name's components without the Name tag, or the Any element.
  \<^verbatim>\<open>PyLong_AsLong\<close> of Python 2.7 converts as \<^verbatim>\<open>PyInt_AsLong\<close> does, through
  \<^verbatim>\<open>__int__\<close> where there is one; the result is stored in an \<^verbatim>\<open>int\<close>.
\<close>

definition exclusion_item :: "'e ndnlib_scheme \<Rightarrow> bytes \<Rightarrow> pyval \<Rightarrow> bytes outcome" where
  "exclusion_item L exclude item =
     (if \<not> is_name item then Raise ValueError
      else bnd (py_getattr item ''type'') (\<lambda>py_o.
        bnd (py_int_as_long py_o) (\<lambda>ty.
          if to_int32 ty = 0 then
            bnd (name_ndn_data L item) (\<lambda>d.
              bnd (NDNObject_IsValid L NAME d) (\<lambda>valid.
                if \<not> valid then Raise TypeError
                else bnd (get_charbuf L NAME d) (\<lambda>name.
                  c_assert L (4 \<le> length name)
                    (if length name < 2 then Undef
                     else bnd (mem_read name 1 (length name - 2)) (\<lambda>x.
                            try_mem (l_append L exclude x) Ret)))))
          else if to_int32 ty = 1 then
            try_mem (l_append_tt L exclude (l_dtag L NDN_DTAG_Any) NDN_DTAG) (\<lambda>b.
              try_mem (l_append_closer L b) Ret)
          else Raise ValueError)))"

fun exclusion_items :: "'e ndnlib_scheme \<Rightarrow> bytes \<Rightarrow> pyval list \<Rightarrow> bytes outcome" where
  "exclusion_items L exclude [] = Ret exclude"
| "exclusion_items L exclude (item # items) =
     bnd (exclusion_item L exclude item) (\<lambda>b. exclusion_items L b items)"

definition ExclusionFilter_names_to_ndn :: "'e ndnlib_scheme \<Rightarrow> pyval \<Rightarrow> pyval outcome" where
  "ExclusionFilter_names_to_ndn L names =
     bnd (NDNObject_New_charbuf L EXCLUSION_FILTER) (\<lambda>c.
       if names = PyNone then Ret (fill c [])
       else try_mem (l_append_tt L [] (l_dtag L NDN_DTAG_Exclude) NDN_DTAG) (\<lambda>b.
         case names of
           PyList items \<Rightarrow>
             bnd (exclusion_items L b items) (\<lambda>b'.
               try_mem (l_append_closer L b') (\<lambda>b''. Ret (fill c b'')))
         | _ \<Rightarrow> Raise TypeError))"

definition cmd_ExclusionFilter_names_to_ndn :: "'e ndnlib_scheme \<Rightarrow> pyval \<Rightarrow> pyval outcome" where
  "cmd_ExclusionFilter_names_to_ndn L names =
     (case names of PyList _ \<Rightarrow> ExclusionFilter_names_to_ndn L names | _ \<Rightarrow> Raise TypeError)"

subsection \<open>Encoding\<close>

text \<open>The value is a \<^verbatim>\<open>long\<close> stored in an \<^verbatim>\<open>int\<close>.\<close>

definition process_int_attribute ::
    "'e ndnlib_scheme \<Rightarrow> ndn_dtag \<Rightarrow> pyval \<Rightarrow> string \<Rightarrow> bytes \<Rightarrow> bytes outcome" where
  "process_int_attribute L tag obj attr_name interest =
     bnd (is_attr_set obj attr_name) (\<lambda>v.
       case v of
         None \<Rightarrow> Ret interest
       | Some a \<Rightarrow>
           bnd (py_int_as_long a) (\<lambda>val.
             try_mem (l_tagged_putf_d L interest (l_dtag L tag) (to_int32 val)) Ret))"

definition append_name :: "'e ndnlib_scheme \<Rightarrow> pyval \<Rightarrow> bytes \<Rightarrow> bytes outcome" where
  "append_name L obj interest =
     bnd (is_attr_set obj ''name'') (\<lambda>v.
       case v of
         Some n \<Rightarrow>
           bnd (Name_obj_to_ndn L n) (\<lambda>py_name.
             bnd (get_charbuf L NAME py_name) (\<lambda>name. try_mem (l_append L interest name) Ret))
       | None \<Rightarrow>
           try_neg (l_append_tt L interest (l_dtag L NDN_DTAG_Name) NDN_DTAG) (\<lambda>b.
             try_neg (l_append_closer L b) Ret))"

definition append_publisher :: "'e ndnlib_scheme \<Rightarrow> pyval \<Rightarrow> bytes \<Rightarrow> bytes outcome" where
  "append_publisher L obj interest =
     bnd (is_attr_set obj ''publisherPublicKeyDigest'') (\<lambda>v.
       case v of
         None \<Rightarrow> Ret interest
       | Some d \<Rightarrow>
           bnd (bytes_as_string_and_size d) (\<lambda>blob.
             try_mem (l_tagged_blob L interest (l_dtag L NDN_DTAG_PublisherPublicKeyDigest) blob) Ret))"

text \<open>The attribute is read and, its encoding being commented out, not used.\<close>

definition append_exclude :: "pyval \<Rightarrow> bytes \<Rightarrow> bytes outcome" where
  "append_exclude obj interest = bnd (is_attr_set obj ''exclude'') (\<lambda>_. Ret interest)"

text \<open>
  The lifetime in units of 1/4096 second, truncated to an \<^verbatim>\<open>unsigned long\<close> (out of
  range, C leaves the conversion undefined), and of that the low three bytes. For this
  attribute and the nonce the status is tested for not being zero, so a missing attribute
  makes the code go on with a pointer it does not own.
\<close>

definition lifetime_bytes :: "double \<Rightarrow> bytes outcome" where
  "lifetime_bytes lifetime =
     (case lifetime of
        Fin q \<Rightarrow>
          (let i = rat_trunc (q * 4096) in
           if 0 \<le> i \<and> i < 2 ^ 64
           then Ret [word_of_int (i div 65536), word_of_int (i div 256), word_of_int i]
           else Undef)
      | _ \<Rightarrow> Undef)"

definition append_lifetime :: "'e ndnlib_scheme \<Rightarrow> pyval \<Rightarrow> bytes \<Rightarrow> bytes outcome" where
  "append_lifetime L obj interest =
     (case is_attr_set obj ''interestLifetime'' of
        Ret None \<Rightarrow> Ret interest
      | Ret (Some (PyFloat lifetime)) \<Rightarrow>
          bnd (lifetime_bytes lifetime) (\<lambda>buf.
            try_mem (l_tagged_blob L interest (l_dtag L NDN_DTAG_InterestLifetime) buf) Ret)
      | Ret (Some _) \<Rightarrow> Raise TypeError
      | _ \<Rightarrow> Undef)"

definition append_nonce :: "'e ndnlib_scheme \<Rightarrow> pyval \<Rightarrow> bytes \<Rightarrow> bytes outcome" where
  "append_nonce L obj interest =
     (case is_attr_set obj ''nonce'' of
        Ret None \<Rightarrow> Ret interest
      | Ret (Some n) \<Rightarrow>
          bnd (bytes_as_string_and_size n) (\<lambda>s.
            try_mem (l_tagged_blob L interest (l_dtag L NDN_DTAG_Nonce) s) Ret)
      | _ \<Rightarrow> Undef)"

definition Interest_obj_to_ndn :: "'e ndnlib_scheme \<Rightarrow> pyval \<Rightarrow> pyval outcome" where
  "Interest_obj_to_ndn L obj =
     bnd (NDNObject_New_charbuf L INTEREST) (\<lambda>c.
     try_mem (l_append_tt L [] (l_dtag L NDN_DTAG_Interest) NDN_DTAG) (\<lambda>b.
     bnd (append_name L obj b) (\<lambda>b.
     bnd (process_int_attribute L NDN_DTAG_MinSuffixComponents obj ''minSuffixComponents'' b) (\<lambda>b.
     bnd (process_int_attribute L NDN_DTAG_MaxSuffixComponents obj ''maxSuffixComponents'' b) (\<lambda>b.
     bnd (append_publisher L obj b) (\<lambda>b.
     bnd (append_exclude obj b) (\<lambda>b.
     bnd (process_int_attribute L NDN_DTAG_ChildSelector obj ''childSelector'' b) (\<lambda>b.
     bnd (process_int_attribute L NDN_DTAG_AnswerOriginKind obj ''answerOriginKind'' b) (\<lambda>b.
     bnd (process_int_attribute L NDN_DTAG_Scope obj ''scope'' b) (\<lambda>b.
     bnd (append_lifetime L obj b) (\<lambda>b.
     bnd (append_nonce L obj b) (\<lambda>b.
     try_mem (l_append_closer L b) (\<lambda>b. Ret (fill c b))))))))))))))"

definition cmd_Interest_obj_to_ndn :: "'e ndnlib_scheme \<Rightarrow> pyval \<Rightarrow> pyval outcome" where
  "cmd_Interest_obj_to_ndn L obj =
     (if tp_name obj \<noteq> ''Interest'' then Raise TypeError else Interest_obj_to_ndn L obj)"

subsection \<open>The parsed form\<close>

text \<open>
  \<^verbatim>\<open>_pyndn_interest_get_pi\<close>: the structure is stored in the capsule's context before it
  is filled, and stays there when parsing fails.
\<close>

definition interest_get_pi :: "'e ndnlib_scheme \<Rightarrow> capsule \<Rightarrow> parsed_interest outcome \<times> capsule" where
  "interest_get_pi L c =
     (if \<not> has_type INTEREST (PyCapsule c) then (c_assert L False Undef, c)
      else case cap_context c of
             InterestContext d \<Rightarrow>
               (case pi d of
                  Some p \<Rightarrow> (Ret p, c)
                | None \<Rightarrow>
                    (case cap_pointer c of
                       P_Charbuf interest \<Rightarrow>
                         if \<not> mem L A_parsed then (Raise MemoryError, c)
                         else (let (r, p) = l_parse_interest L interest;
                                   c' = c\<lparr>cap_context := InterestContext (d\<lparr>pi := Some p\<rparr>)\<rparr>
                               in if r < 0 then (Raise NDNInterestError, c') else (Ret p, c'))
                     | _ \<Rightarrow> (Undef, c)))
           | _ \<Rightarrow> (c_assert L False Undef, c))"

definition interest_set_pi :: "'e ndnlib_scheme \<Rightarrow> capsule \<Rightarrow> parsed_interest option \<Rightarrow> capsule outcome" where
  "interest_set_pi L c p =
     (if \<not> has_type INTEREST (PyCapsule c) then c_assert L False Undef
      else case cap_context c of
             InterestContext d \<Rightarrow> Ret (c\<lparr>cap_context := InterestContext (d\<lparr>pi := p\<rparr>)\<rparr>)
           | _ \<Rightarrow> c_assert L False Undef)"

subsection \<open>Decoding\<close>

definition pi_len :: "parsed_interest \<Rightarrow> pi_idx \<Rightarrow> pi_idx \<Rightarrow> int" where
  "pi_len p e b = int (pi_offset p e) - int (pi_offset p b)"

definition read_name_attr :: "'e ndnlib_scheme \<Rightarrow> bytes \<Rightarrow> parsed_interest \<Rightarrow> pyval \<Rightarrow> pyval outcome" where
  "read_name_attr L interest p obj =
     (let len = pi_len p NDN_PI_E_Name NDN_PI_B_Name in
      if 0 < len then
        bnd (NDNObject_New_charbuf L NAME) (\<lambda>c.
        bnd (mem_read interest (pi_offset p NDN_PI_B_Name) (nat len)) (\<lambda>x.
        try_mem (l_append L [] x) (\<lambda>cb.
        bnd (Name_obj_from_ndn L (fill c cb)) (\<lambda>n. py_setattr obj ''name'' n))))
      else Raise NDNInterestError)"

text \<open>One integer attribute; the five blocks of the code differ in tag, offsets and name.\<close>

definition read_int_attr ::
    "'e ndnlib_scheme \<Rightarrow> bytes \<Rightarrow> parsed_interest \<Rightarrow> ndn_dtag \<Rightarrow> pi_idx \<Rightarrow> pi_idx \<Rightarrow> string
      \<Rightarrow> pyval \<Rightarrow> pyval outcome" where
  "read_int_attr L interest p tag b e attr_name obj =
     (if 0 < pi_len p e b then
        (let r = l_fetch_nonneg L (l_dtag L tag) interest (pi_offset p b) (pi_offset p e) in
         if r < 0 then Raise NDNInterestError else py_setattr obj attr_name (PyInt r))
      else Ret obj)"

text \<open>A byte string attribute: the publisher's digest and the nonce.\<close>

definition read_blob_at ::
    "'e ndnlib_scheme \<Rightarrow> bytes \<Rightarrow> parsed_interest \<Rightarrow> ndn_dtag \<Rightarrow> pi_idx \<Rightarrow> pi_idx \<Rightarrow> bytes outcome" where
  "read_blob_at L interest p tag b e =
     (let (r, off, n) = l_ref_tagged_blob L (l_dtag L tag) interest (pi_offset p b) (pi_offset p e) in
      if r < 0 then Raise NDNInterestError else mem_read interest off n)"

definition read_bytes_attr ::
    "'e ndnlib_scheme \<Rightarrow> bytes \<Rightarrow> parsed_interest \<Rightarrow> ndn_dtag \<Rightarrow> pi_idx \<Rightarrow> pi_idx \<Rightarrow> string
      \<Rightarrow> pyval \<Rightarrow> pyval outcome" where
  "read_bytes_attr L interest p tag b e attr_name obj =
     (if 0 < pi_len p e b then
        bnd (read_blob_at L interest p tag b e) (\<lambda>x. py_setattr obj attr_name (PyBytes x))
      else Ret obj)"

text \<open>The exclusion filter is copied into a capsule that nothing refers to.\<close>

definition read_exclude :: "'e ndnlib_scheme \<Rightarrow> bytes \<Rightarrow> parsed_interest \<Rightarrow> pyval \<Rightarrow> pyval outcome" where
  "read_exclude L interest p obj =
     (let len = pi_len p NDN_PI_E_Exclude NDN_PI_B_Exclude in
      if 0 < len then
        bnd (NDNObject_New_charbuf L EXCLUSION_FILTER) (\<lambda>c.
        bnd (mem_read interest (pi_offset p NDN_PI_B_Exclude) (nat len)) (\<lambda>x.
        try_mem (l_append L [] x) (\<lambda>_. Ret obj)))
      else Ret obj)"

text \<open>
  The lifetime is summed up in a \<^verbatim>\<open>double\<close>: each step rounds to 53 bits, half to even,
  and beyond \<open>2^1024\<close> there is only infinity.
\<close>

definition lifetime_value :: "bytes \<Rightarrow> double" where
  "lifetime_value blob =
     (let v = foldl (\<lambda>acc b. round53 (acc * 256 + unat b)) 0 blob in
      if v < 2 ^ 1024 then Fin (of_nat v / 4096) else PInf)"

definition read_lifetime :: "'e ndnlib_scheme \<Rightarrow> bytes \<Rightarrow> parsed_interest \<Rightarrow> pyval \<Rightarrow> pyval outcome" where
  "read_lifetime L interest p obj =
     (if 0 < pi_len p NDN_PI_E_InterestLifetime NDN_PI_B_InterestLifetime then
        bnd (read_blob_at L interest p NDN_DTAG_InterestLifetime NDN_PI_B_InterestLifetime
               NDN_PI_E_InterestLifetime) (\<lambda>blob.
          py_setattr obj ''interestLifetime'' (PyFloat (lifetime_value blob)))
      else Ret obj)"

definition fill_interest :: "'e ndnlib_scheme \<Rightarrow> bytes \<Rightarrow> parsed_interest \<Rightarrow> pyval \<Rightarrow> pyval outcome" where
  "fill_interest L interest p obj =
     bnd (read_name_attr L interest p obj) (\<lambda>obj.
     bnd (read_int_attr L interest p NDN_DTAG_MinSuffixComponents NDN_PI_B_MinSuffixComponents
            NDN_PI_E_MinSuffixComponents ''minSuffixComponents'' obj) (\<lambda>obj.
     bnd (read_int_attr L interest p NDN_DTAG_MaxSuffixComponents NDN_PI_B_MaxSuffixComponents
            NDN_PI_E_MaxSuffixComponents ''maxSuffixComponents'' obj) (\<lambda>obj.
     bnd (read_bytes_attr L interest p NDN_DTAG_PublisherPublicKeyDigest NDN_PI_B_PublisherID
            NDN_PI_E_PublisherID ''publisherPublicKeyDigest'' obj) (\<lambda>obj.
     bnd (read_exclude L interest p obj) (\<lambda>obj.
     bnd (read_int_attr L interest p NDN_DTAG_ChildSelector NDN_PI_B_ChildSelector
            NDN_PI_E_ChildSelector ''childSelector'' obj) (\<lambda>obj.
     bnd (read_int_attr L interest p NDN_DTAG_AnswerOriginKind NDN_PI_B_AnswerOriginKind
            NDN_PI_E_AnswerOriginKind ''answerOriginKind'' obj) (\<lambda>obj.
     bnd (read_int_attr L interest p NDN_DTAG_Scope NDN_PI_B_Scope NDN_PI_E_Scope ''scope'' obj) (\<lambda>obj.
     bnd (read_lifetime L interest p obj) (\<lambda>obj.
     read_bytes_attr L interest p NDN_DTAG_Nonce NDN_PI_B_Nonce NDN_PI_E_Nonce ''nonce'' obj)))))))))"

text \<open>
  \<^verbatim>\<open>Interest_obj_from_ndn\<close>: the result and the capsule, whose context may have been
  filled. The capsule is made the object's \<^verbatim>\<open>ndn_data\<close> before the attributes are set.
\<close>

definition Interest_obj_from_ndn :: "'e ndnlib_scheme \<Rightarrow> capsule \<Rightarrow> pyval outcome \<times> capsule" where
  "Interest_obj_from_ndn L py_interest =
     (let (p, c) = interest_get_pi L py_interest in
      (bnd (get_charbuf L INTEREST (PyCapsule py_interest)) (\<lambda>interest.
         bnd p (\<lambda>p.
           bnd (py_setattr new_Interest ''ndn_data'' (PyCapsule c)) (fill_interest L interest p))), c))"

definition cmd_Interest_obj_from_ndn :: "'e ndnlib_scheme \<Rightarrow> pyval \<Rightarrow> pyval outcome \<times> pyval" where
  "cmd_Interest_obj_from_ndn L py_interest =
     (case py_interest of
        PyCapsule c \<Rightarrow>
          if has_type INTEREST (PyCapsule c)
          then (let (r, c') = Interest_obj_from_ndn L c in (r, PyCapsule c'))
          else (Raise TypeError, py_interest)
      | _ \<Rightarrow> (Raise TypeError, py_interest))"

subsection \<open>The wire form of an interest\<close>

text \<open>
  An interest as the fields of its Python object, with the object and its wire form. The
  exclusion filter is any object; it does not occur in the wire form.
\<close>

record interest_fields =
  f_name :: "bytes list"
  f_min :: "int option"
  f_max :: "int option"
  f_publisher :: "bytes option"
  f_exclude :: pyval
  f_child :: "int option"
  f_answer :: "int option"
  f_scope :: "int option"
  f_lifetime :: "rat option"
  f_nonce :: "bytes option"

definition opt_py :: "('a \<Rightarrow> pyval) \<Rightarrow> 'a option \<Rightarrow> pyval" where
  "opt_py g v = (case v of None \<Rightarrow> PyNone | Some x \<Rightarrow> g x)"

definition interest_obj :: "interest_fields \<Rightarrow> pyval" where
  "interest_obj f =
     PyInst ''Interest''
       [(''name'', name_obj (f_name f)),
        (''minSuffixComponents'', opt_py PyInt (f_min f)),
        (''maxSuffixComponents'', opt_py PyInt (f_max f)),
        (''publisherPublicKeyDigest'', opt_py PyBytes (f_publisher f)),
        (''exclude'', f_exclude f),
        (''childSelector'', opt_py PyInt (f_child f)),
        (''answerOriginKind'', opt_py PyInt (f_answer f)),
        (''scope'', opt_py PyInt (f_scope f)),
        (''interestLifetime'', opt_py (\<lambda>q. PyFloat (Fin q)) (f_lifetime f)),
        (''nonce'', opt_py PyBytes (f_nonce f)),
        (''ndn_data'', PyNone)]"

definition int_wire :: "'e ndnlib_scheme \<Rightarrow> ndn_dtag \<Rightarrow> int option \<Rightarrow> bytes" where
  "int_wire L tag v =
     (case v of None \<Rightarrow> [] | Some n \<Rightarrow> ndnb_dtag (l_dtag L tag) (number_wire L (to_int32 n)))"

definition blob_wire :: "'e ndnlib_scheme \<Rightarrow> ndn_dtag \<Rightarrow> bytes option \<Rightarrow> bytes" where
  "blob_wire L tag v =
     (case v of None \<Rightarrow> [] | Some x \<Rightarrow> ndnb_dtag (l_dtag L tag) (ndnb_blob x))"

text \<open>The three bytes of a lifetime of \<open>q\<close> seconds.\<close>

definition lifetime_code :: "rat \<Rightarrow> bytes" where
  "lifetime_code q =
     (let i = \<lfloor>q * 4096\<rfloor> in [word_of_int (i div 65536), word_of_int (i div 256), word_of_int i])"

definition interest_wire :: "'e ndnlib_scheme \<Rightarrow> interest_fields \<Rightarrow> bytes" where
  "interest_wire L f =
     ndnb_dtag (l_dtag L NDN_DTAG_Interest)
       (name_wire (f_name f)
        @ int_wire L NDN_DTAG_MinSuffixComponents (f_min f)
        @ int_wire L NDN_DTAG_MaxSuffixComponents (f_max f)
        @ blob_wire L NDN_DTAG_PublisherPublicKeyDigest (f_publisher f)
        @ int_wire L NDN_DTAG_ChildSelector (f_child f)
        @ int_wire L NDN_DTAG_AnswerOriginKind (f_answer f)
        @ int_wire L NDN_DTAG_Scope (f_scope f)
        @ blob_wire L NDN_DTAG_InterestLifetime (map_option lifetime_code (f_lifetime f))
        @ blob_wire L NDN_DTAG_Nonce (f_nonce f))"

text \<open>Fields the encoder accepts: numbers that are C \<^verbatim>\<open>long\<close>s, byte strings that are not empty.\<close>

definition encodable :: "interest_fields \<Rightarrow> bool" where
  "encodable f \<longleftrightarrow>
     list_all (\<lambda>v. case v of None \<Rightarrow> True | Some n \<Rightarrow> - (2 ^ 63) \<le> n \<and> n < 2 ^ 63)
       [f_min f, f_max f, f_child f, f_answer f, f_scope f]
     \<and> f_publisher f \<noteq> Some [] \<and> f_nonce f \<noteq> Some []
     \<and> (case f_lifetime f of None \<Rightarrow> True | Some q \<Rightarrow> 0 \<le> q \<and> q * 4096 < 2 ^ 64)"

lemma opt_py_None [simp]: "opt_py g None = PyNone"
  and opt_py_Some [simp]: "opt_py g (Some x) = g x"
  by (simp_all add: opt_py_def)

lemma is_attr_set_inst:
  "is_attr_set (PyInst cls attrs) a =
     (case map_of attrs a of
        None \<Rightarrow> Raise AttributeError
      | Some v \<Rightarrow>
          (if cls = ''Interest'' \<and> a = ''name'' \<or> cls = ''Data'' \<and> (a = ''name'' \<or> a = ''signedInfo'')
           then Ret (Some (PyConst v))
           else Ret (if v = PyNone then None else Some v)))"
  by (auto simp: is_attr_set_def split: option.splits)

context buffer_writer begin

lemma int_attribute:
  assumes "is_attr_set obj a = Ret (map_option PyInt v)"
    and "case v of None \<Rightarrow> True | Some n \<Rightarrow> - (2 ^ 63) \<le> n \<and> n < 2 ^ 63"
  shows "process_int_attribute L tag obj a b = Ret (b @ int_wire L tag v)"
  using assms
  by (cases v) (simp_all add: process_int_attribute_def int_wire_def long_range_def tagged_putf_d)

lemma publisher_attribute:
  assumes "is_attr_set obj ''publisherPublicKeyDigest'' = Ret (map_option PyBytes v)" "v \<noteq> Some []"
  shows "append_publisher L obj b = Ret (b @ blob_wire L NDN_DTAG_PublisherPublicKeyDigest v)"
  using assms by (cases v) (simp_all add: append_publisher_def blob_wire_def tagged_blob)

lemma nonce_attribute:
  assumes "is_attr_set obj ''nonce'' = Ret (map_option PyBytes v)" "v \<noteq> Some []"
  shows "append_nonce L obj b = Ret (b @ blob_wire L NDN_DTAG_Nonce v)"
  using assms by (cases v) (simp_all add: append_nonce_def blob_wire_def tagged_blob)

lemma lifetime_attribute:
  assumes "is_attr_set obj ''interestLifetime'' = Ret (map_option (\<lambda>q. PyFloat (Fin q)) v)"
    and "case v of None \<Rightarrow> True | Some q \<Rightarrow> 0 \<le> q \<and> q * 4096 < 2 ^ 64"
  shows "append_lifetime L obj b = Ret (b @ blob_wire L NDN_DTAG_InterestLifetime (map_option lifetime_code v))"
proof (cases v)
  case None
  then show ?thesis using assms by (simp add: append_lifetime_def blob_wire_def)
next
  case (Some q)
  then have "0 \<le> q" "\<lfloor>q * 4096\<rfloor> < 2 ^ 64"
    using assms(2) by (simp_all add: floor_less_iff)
  then have "lifetime_bytes (Fin q) = Ret (lifetime_code q)" "lifetime_code q \<noteq> []"
    by (simp_all add: lifetime_bytes_def lifetime_code_def rat_trunc_def Let_def)
  then show ?thesis
    using Some assms(1) by (simp add: append_lifetime_def blob_wire_def tagged_blob)
qed

end

lemma interest_attrs:
  "is_attr_set (interest_obj f) ''name'' = Ret (Some (PyConst (name_obj (f_name f))))"
  "is_attr_set (interest_obj f) ''minSuffixComponents'' = Ret (map_option PyInt (f_min f))"
  "is_attr_set (interest_obj f) ''maxSuffixComponents'' = Ret (map_option PyInt (f_max f))"
  "is_attr_set (interest_obj f) ''publisherPublicKeyDigest'' = Ret (map_option PyBytes (f_publisher f))"
  "is_attr_set (interest_obj f) ''childSelector'' = Ret (map_option PyInt (f_child f))"
  "is_attr_set (interest_obj f) ''answerOriginKind'' = Ret (map_option PyInt (f_answer f))"
  "is_attr_set (interest_obj f) ''scope'' = Ret (map_option PyInt (f_scope f))"
  "is_attr_set (interest_obj f) ''interestLifetime'' = Ret (map_option (\<lambda>q. PyFloat (Fin q)) (f_lifetime f))"
  "is_attr_set (interest_obj f) ''nonce'' = Ret (map_option PyBytes (f_nonce f))"
  by (auto simp: interest_obj_def is_attr_set_inst opt_py_def split: option.splits)

lemma append_exclude_any: "append_exclude (interest_obj f) b = Ret b"
  by (simp add: append_exclude_def interest_obj_def is_attr_set_inst)

lemma append_name_wire:
  assumes "name_library L" "buffer_writer L" "allocs_ok L"
  shows "append_name L (interest_obj f) b = Ret (b @ name_wire (f_name f))"
  using name_library.comps_to_ndn [OF assms(1,3)] buffer_writer.append [OF assms(2)]
  by (simp add: append_name_def interest_attrs(1) Name_obj_to_ndn_def name_obj_def)

lemma interest_encodes:
  assumes "name_library L" "buffer_writer L" "allocs_ok L" "encodable f"
  shows "cmd_Interest_obj_to_ndn L (interest_obj f) = Ret (box INTEREST (interest_wire L f))"
proof -
  note int = buffer_writer.int_attribute [OF assms(2)]
    and pub = buffer_writer.publisher_attribute [OF assms(2)]
    and life = buffer_writer.lifetime_attribute [OF assms(2)]
    and nonce = buffer_writer.nonce_attribute [OF assms(2)]
  have enc: "tp_name (interest_obj f) = ''Interest''"
    by (simp add: interest_obj_def)
  show ?thesis
    using assms(4) append_name_wire [OF assms(1-3)] buffer_writer.append_tt [OF assms(2)]
      buffer_writer.append_closer [OF assms(2)] New_charbuf_ok [of INTEREST L Ret] assms(3)
    by (simp add: cmd_Interest_obj_to_ndn_def enc Interest_obj_to_ndn_def int pub life nonce
        interest_attrs append_exclude_any encodable_def charbuf_types_def interest_wire_def
        ndnb_dtag_def)
qed

subsection \<open>Decoding the wire form\<close>

text \<open>What the parser says about a wire form: where each field's element stands.\<close>

definition field_at :: "bytes \<Rightarrow> parsed_interest \<Rightarrow> pi_idx \<Rightarrow> pi_idx \<Rightarrow> bytes \<Rightarrow> bool" where
  "field_at w p b e x \<longleftrightarrow>
     (if x = [] then pi_len p e b \<le> 0 else element_at w (pi_offset p b) (pi_offset p e) x)"

definition locates :: "'e ndnlib_scheme \<Rightarrow> parsed_interest \<Rightarrow> interest_fields \<Rightarrow> bytes \<Rightarrow> bool" where
  "locates L p f w \<longleftrightarrow>
     field_at w p NDN_PI_B_Name NDN_PI_E_Name (name_wire (f_name f))
     \<and> field_at w p NDN_PI_B_MinSuffixComponents NDN_PI_E_MinSuffixComponents
         (int_wire L NDN_DTAG_MinSuffixComponents (f_min f))
     \<and> field_at w p NDN_PI_B_MaxSuffixComponents NDN_PI_E_MaxSuffixComponents
         (int_wire L NDN_DTAG_MaxSuffixComponents (f_max f))
     \<and> field_at w p NDN_PI_B_PublisherID NDN_PI_E_PublisherID
         (blob_wire L NDN_DTAG_PublisherPublicKeyDigest (f_publisher f))
     \<and> pi_len p NDN_PI_E_Exclude NDN_PI_B_Exclude \<le> 0
     \<and> field_at w p NDN_PI_B_ChildSelector NDN_PI_E_ChildSelector
         (int_wire L NDN_DTAG_ChildSelector (f_child f))
     \<and> field_at w p NDN_PI_B_AnswerOriginKind NDN_PI_E_AnswerOriginKind
         (int_wire L NDN_DTAG_AnswerOriginKind (f_answer f))
     \<and> field_at w p NDN_PI_B_Scope NDN_PI_E_Scope (int_wire L NDN_DTAG_Scope (f_scope f))
     \<and> field_at w p NDN_PI_B_InterestLifetime NDN_PI_E_InterestLifetime
         (blob_wire L NDN_DTAG_InterestLifetime (map_option lifetime_code (f_lifetime f)))
     \<and> field_at w p NDN_PI_B_Nonce NDN_PI_E_Nonce (blob_wire L NDN_DTAG_Nonce (f_nonce f))"

definition parses_interest :: "'e ndnlib_scheme \<Rightarrow> interest_fields \<Rightarrow> bool" where
  "parses_interest L f \<longleftrightarrow>
     (\<exists>r p. l_parse_interest L (interest_wire L f) = (r, p) \<and> 0 \<le> r \<and> locates L p f (interest_wire L f))"

text \<open>What the receiver gets: no exclusion filter, and a lifetime of 24 bits.\<close>

definition received :: "interest_fields \<Rightarrow> interest_fields" where
  "received f =
     f\<lparr>f_exclude := PyNone,
       f_lifetime := map_option (\<lambda>q. of_int (\<lfloor>q * 4096\<rfloor> mod 2 ^ 24) / 4096) (f_lifetime f)\<rparr>"

lemma ndnb_dtag_not_nil [simp]: "ndnb_dtag tag x \<noteq> []"
  by (simp add: ndnb_dtag_def)

lemma name_wire_not_nil [simp]: "name_wire cs \<noteq> []"
  by (simp add: name_wire_def)

lemma field_present:
  assumes "field_at w p b e x" "x \<noteq> []"
  shows "0 < pi_len p e b"
    and "element_at w (pi_offset p b) (pi_offset p e) x"
    and "mem_read w (pi_offset p b) (nat (pi_len p e b)) = Ret x"
  using assms by (auto simp: field_at_def element_at_def pi_len_def mem_read_def nat_diff_distrib')

lemma round53_three_bytes:
  "foldl (\<lambda>acc b. round53 (acc * 256 + unat b)) 0 [x, y, z :: byte]
     = (unat x * 256 + unat y) * 256 + unat z
   \<and> (unat x * 256 + unat y) * 256 + unat z < 16777216"
proof -
  have small: "n < 16777216 \<Longrightarrow> round53 n = n" for n
    by (rule round53_small) (erule order.strict_trans, simp)
  have le: "unat b \<le> 255" for b :: byte
    using unat_byte [of b] by linarith
  have "unat x \<le> 255" "unat x * 256 + unat y \<le> 255 * 256 + 255"
    "(unat x * 256 + unat y) * 256 + unat z \<le> (255 * 256 + 255) * 256 + 255"
    by (intro add_mono mult_right_mono le; simp)+
  then have "unat x < 16777216" "unat x * 256 + unat y < 16777216"
    "(unat x * 256 + unat y) * 256 + unat z < 16777216"
    by (elim order.strict_trans1; simp)+
  then show ?thesis
    by (simp only: foldl.simps small mult_0 add_0)
qed

lemma lifetime_of_code:
  assumes "0 \<le> q"
  shows "lifetime_value (lifetime_code q) = Fin (of_int (\<lfloor>q * 4096\<rfloor> mod 2 ^ 24) / 4096)"
proof -
  define i where "i = \<lfloor>q * 4096\<rfloor>"
  have byte: "unat (word_of_int x :: byte) = nat (x mod 256)" for x :: int
    by (simp add: unat_eq_nat_uint uint_word_of_int)
  let ?a = "nat (i div 65536 mod 256)" and ?b = "nat (i div 256 mod 256)" and ?c = "nat (i mod 256)"
  have lt: "?a < 256" "?b < 256" "?c < 256"
    by (simp_all add: nat_less_iff)
  have "int ((?a * 256 + ?b) * 256 + ?c) = (i div 65536 mod 256 * 256 + i div 256 mod 256) * 256 + i mod 256"
    by simp
  also have "\<dots> = i mod 2 ^ 24"
  proof -
    define j where "j = i div 256"
    have k: "i div 65536 = j div 256"
      using zdiv_zmult2_eq [of 256 i 256] by (simp add: j_def)
    have m1: "i mod 2 ^ 24 = 256 * (j mod 65536) + i mod 256"
      using zmod_zmult2_eq [of 65536 i 256] unfolding j_def by simp
    have m2: "j mod 65536 = 256 * (j div 256 mod 256) + j mod 256"
      using zmod_zmult2_eq [of 256 j 256] by simp
    show ?thesis
      unfolding k m1 m2 j_def [symmetric] by (simp only: distrib_left distrib_right ac_simps)
  qed
  finally have v: "int ((?a * 256 + ?b) * 256 + ?c) = i mod 2 ^ 24" .
  have "(of_nat ((?a * 256 + ?b) * 256 + ?c) :: rat) = of_int (i mod 2 ^ 24)"
    by (metis v of_int_of_nat_eq)
  moreover have f: "foldl (\<lambda>acc b. round53 (acc * 256 + unat b)) 0 (lifetime_code q)
      = (?a * 256 + ?b) * 256 + ?c" and "(?a * 256 + ?b) * 256 + ?c < 16777216"
    using round53_three_bytes [of "word_of_int (i div 65536)" "word_of_int (i div 256)" "word_of_int i"]
    by (simp_all only: lifetime_code_def Let_def i_def [symmetric] byte)
  then have "(?a * 256 + ?b) * 256 + ?c < 2 ^ 1024"
    by (elim order.strict_trans)
      (rule order.strict_trans [OF _ power_strict_increasing [of 30 1024 2]], simp_all)
  ultimately show ?thesis
    by (simp only: lifetime_value_def Let_def if_True f i_def)
qed

text \<open>Setting one attribute of an interest.\<close>

lemma set_interest_attr:
  "py_setattr (interest_obj g) ''minSuffixComponents'' (PyInt n) = Ret (interest_obj (g\<lparr>f_min := Some n\<rparr>))"
  "py_setattr (interest_obj g) ''maxSuffixComponents'' (PyInt n) = Ret (interest_obj (g\<lparr>f_max := Some n\<rparr>))"
  "py_setattr (interest_obj g) ''publisherPublicKeyDigest'' (PyBytes x)
     = Ret (interest_obj (g\<lparr>f_publisher := Some x\<rparr>))"
  "py_setattr (interest_obj g) ''childSelector'' (PyInt n) = Ret (interest_obj (g\<lparr>f_child := Some n\<rparr>))"
  "py_setattr (interest_obj g) ''answerOriginKind'' (PyInt n) = Ret (interest_obj (g\<lparr>f_answer := Some n\<rparr>))"
  "py_setattr (interest_obj g) ''scope'' (PyInt n) = Ret (interest_obj (g\<lparr>f_scope := Some n\<rparr>))"
  "py_setattr (interest_obj g) ''interestLifetime'' (PyFloat (Fin q))
     = Ret (interest_obj (g\<lparr>f_lifetime := Some q\<rparr>))"
  "py_setattr (interest_obj g) ''nonce'' (PyBytes x) = Ret (interest_obj (g\<lparr>f_nonce := Some x\<rparr>))"
  by (simp_all add: interest_obj_def caches_wire_def)

definition blank :: "bytes list \<Rightarrow> interest_fields" where
  "blank cs =
     \<lparr>f_name = cs, f_min = None, f_max = None, f_publisher = None, f_exclude = PyNone,
      f_child = None, f_answer = None, f_scope = None, f_lifetime = None, f_nonce = None\<rparr>"

context element_reader begin

lemma read_int:
  assumes "field_at w p b e (int_wire L tag v)"
    and "case v of None \<Rightarrow> True | Some n \<Rightarrow> 0 \<le> n \<and> n < 2 ^ 31"
  shows "read_int_attr L w p tag b e a obj =
    (case v of None \<Rightarrow> Ret obj | Some n \<Rightarrow> py_setattr obj a (PyInt n))"
proof (cases v)
  case None
  then show ?thesis
    using assms(1) by (simp add: int_wire_def field_at_def read_int_attr_def)
next
  case (Some n)
  then have "int_wire L tag v = ndnb_dtag (l_dtag L tag) (number_wire L n)"
    using assms(2) by (simp add: int_wire_def to_int32_id)
  with field_present(1,2) [OF assms(1)] Some assms(2) fetch_nonneg [of n w "pi_offset p b" "pi_offset p e" "l_dtag L tag"]
  show ?thesis
    by (simp add: read_int_attr_def Let_def)
qed

lemma read_blob:
  assumes "field_at w p b e (blob_wire L tag (Some x))"
  shows "read_blob_at L w p tag b e = Ret x" and "0 < pi_len p e b"
  using field_present [OF assms] ref_blob ref_read
  by (simp_all add: read_blob_at_def blob_wire_def)

lemma read_bytes:
  assumes "field_at w p b e (blob_wire L tag v)"
  shows "read_bytes_attr L w p tag b e a obj =
    (case v of None \<Rightarrow> Ret obj | Some x \<Rightarrow> py_setattr obj a (PyBytes x))"
  using assms read_blob
  by (cases v) (auto simp: read_bytes_attr_def blob_wire_def field_at_def)

lemma read_lifetime_code:
  assumes "field_at w p NDN_PI_B_InterestLifetime NDN_PI_E_InterestLifetime
      (blob_wire L NDN_DTAG_InterestLifetime (map_option lifetime_code v))"
    and "case v of None \<Rightarrow> True | Some q \<Rightarrow> 0 \<le> q"
  shows "read_lifetime L w p obj =
    (case v of None \<Rightarrow> Ret obj
     | Some q \<Rightarrow> py_setattr obj ''interestLifetime''
         (PyFloat (Fin (of_int (\<lfloor>q * 4096\<rfloor> mod 2 ^ 24) / 4096))))"
  using assms read_blob lifetime_of_code
  by (cases v) (auto simp: read_lifetime_def blob_wire_def field_at_def)

end

text \<open>The numbers a decoder gives back as they were.\<close>

definition readable :: "interest_fields \<Rightarrow> bool" where
  "readable f \<longleftrightarrow>
     list_all (\<lambda>v. case v of None \<Rightarrow> True | Some n \<Rightarrow> 0 \<le> n \<and> n < 2 ^ 31)
       [f_min f, f_max f, f_child f, f_answer f, f_scope f]
     \<and> (case f_lifetime f of None \<Rightarrow> True | Some q \<Rightarrow> 0 \<le> q)"

lemma same_fields:
  "f_min g = None \<Longrightarrow> g\<lparr>f_min := None\<rparr> = g" "f_max g = None \<Longrightarrow> g\<lparr>f_max := None\<rparr> = g"
  "f_publisher g = None \<Longrightarrow> g\<lparr>f_publisher := None\<rparr> = g" "f_child g = None \<Longrightarrow> g\<lparr>f_child := None\<rparr> = g"
  "f_answer g = None \<Longrightarrow> g\<lparr>f_answer := None\<rparr> = g" "f_scope g = None \<Longrightarrow> g\<lparr>f_scope := None\<rparr> = g"
  "f_lifetime g = None \<Longrightarrow> g\<lparr>f_lifetime := None\<rparr> = g" "f_nonce g = None \<Longrightarrow> g\<lparr>f_nonce := None\<rparr> = g"
  by (cases g; simp)+

lemma read_name_attr_wire:
  assumes "name_library L" "buffer_writer L" "allocs_ok L"
    and "\<forall>c \<in> set cs. length (component_wire c) < 2 ^ 31"
    and "field_at w p NDN_PI_B_Name NDN_PI_E_Name (name_wire cs)"
    and "py_setattr new_Interest ''ndn_data'' x = Ret obj"
  shows "read_name_attr L w p obj = Ret (interest_obj (blank cs))"
proof -
  have "bnd (Name_obj_from_ndn L (box NAME (name_wire cs))) (\<lambda>n. py_setattr obj ''name'' n)
      = Ret (interest_obj (blank cs))"
    using name_library.comps_from_ndn [OF assms(1) _ assms(4)] assms(3,6)
    by (auto simp: Name_obj_from_ndn_def new_Name_def new_Interest_def nones_def interest_obj_def
        name_obj_def blank_def caches_wire_def)
  then show ?thesis
    using field_present [OF assms(5)] buffer_writer.append [OF assms(2)] assms(3)
      New_charbuf_ok [of NAME L
        "\<lambda>v. bnd (Name_obj_from_ndn L v) (\<lambda>n. py_setattr obj ''name'' n)" "name_wire cs"]
    by (simp add: read_name_attr_def charbuf_types_def)
qed

lemma fill_interest_wire:
  assumes "name_library L" "buffer_writer L" "element_reader L" "allocs_ok L"
    and "\<forall>c \<in> set (f_name f). length (component_wire c) < 2 ^ 31"
    and "locates L p f w" "readable f"
    and "py_setattr new_Interest ''ndn_data'' x = Ret obj"
  shows "fill_interest L w p obj = Ret (interest_obj (received f))"
proof -
  note loc = assms(6) [unfolded locates_def]
  note int = element_reader.read_int [OF assms(3)]
    and bytes = element_reader.read_bytes [OF assms(3)]
    and life = element_reader.read_lifetime_code [OF assms(3)]
  have name: "read_name_attr L w p obj = Ret (interest_obj (blank (f_name f)))"
    using read_name_attr_wire [OF assms(1,2,4,5) _ assms(8)] loc by blast
  have excl: "read_exclude L w p o' = Ret o'" for o'
    using loc by (simp add: read_exclude_def Let_def)
  have f_min: "read_int_attr L w p NDN_DTAG_MinSuffixComponents NDN_PI_B_MinSuffixComponents NDN_PI_E_MinSuffixComponents
      ''minSuffixComponents'' (interest_obj g) = Ret (interest_obj (g\<lparr>f_min := f_min f\<rparr>))" if "f_min g = None" for g
    using int [of w p NDN_PI_B_MinSuffixComponents NDN_PI_E_MinSuffixComponents NDN_DTAG_MinSuffixComponents "f_min f"] loc assms(7) that
    by (cases "f_min f") (simp_all add: readable_def set_interest_attr same_fields)
  have f_max: "read_int_attr L w p NDN_DTAG_MaxSuffixComponents NDN_PI_B_MaxSuffixComponents NDN_PI_E_MaxSuffixComponents
      ''maxSuffixComponents'' (interest_obj g) = Ret (interest_obj (g\<lparr>f_max := f_max f\<rparr>))" if "f_max g = None" for g
    using int [of w p NDN_PI_B_MaxSuffixComponents NDN_PI_E_MaxSuffixComponents NDN_DTAG_MaxSuffixComponents "f_max f"] loc assms(7) that
    by (cases "f_max f") (simp_all add: readable_def set_interest_attr same_fields)
  have f_child: "read_int_attr L w p NDN_DTAG_ChildSelector NDN_PI_B_ChildSelector NDN_PI_E_ChildSelector
      ''childSelector'' (interest_obj g) = Ret (interest_obj (g\<lparr>f_child := f_child f\<rparr>))" if "f_child g = None" for g
    using int [of w p NDN_PI_B_ChildSelector NDN_PI_E_ChildSelector NDN_DTAG_ChildSelector "f_child f"] loc assms(7) that
    by (cases "f_child f") (simp_all add: readable_def set_interest_attr same_fields)
  have f_answer: "read_int_attr L w p NDN_DTAG_AnswerOriginKind NDN_PI_B_AnswerOriginKind NDN_PI_E_AnswerOriginKind
      ''answerOriginKind'' (interest_obj g) = Ret (interest_obj (g\<lparr>f_answer := f_answer f\<rparr>))" if "f_answer g = None" for g
    using int [of w p NDN_PI_B_AnswerOriginKind NDN_PI_E_AnswerOriginKind NDN_DTAG_AnswerOriginKind "f_answer f"] loc assms(7) that
    by (cases "f_answer f") (simp_all add: readable_def set_interest_attr same_fields)
  have f_scope: "read_int_attr L w p NDN_DTAG_Scope NDN_PI_B_Scope NDN_PI_E_Scope
      ''scope'' (interest_obj g) = Ret (interest_obj (g\<lparr>f_scope := f_scope f\<rparr>))" if "f_scope g = None" for g
    using int [of w p NDN_PI_B_Scope NDN_PI_E_Scope NDN_DTAG_Scope "f_scope f"] loc assms(7) that
    by (cases "f_scope f") (simp_all add: readable_def set_interest_attr same_fields)
  have pub: "read_bytes_attr L w p NDN_DTAG_PublisherPublicKeyDigest NDN_PI_B_PublisherID NDN_PI_E_PublisherID
      ''publisherPublicKeyDigest'' (interest_obj g) = Ret (interest_obj (g\<lparr>f_publisher := f_publisher f\<rparr>))"
    if "f_publisher g = None" for g
    using bytes [of w p NDN_PI_B_PublisherID NDN_PI_E_PublisherID _ "f_publisher f"] loc that
    by (cases "f_publisher f") (simp_all add: set_interest_attr same_fields)
  have nonce: "read_bytes_attr L w p NDN_DTAG_Nonce NDN_PI_B_Nonce NDN_PI_E_Nonce ''nonce'' (interest_obj g)
      = Ret (interest_obj (g\<lparr>f_nonce := f_nonce f\<rparr>))" if "f_nonce g = None" for g
    using bytes [of w p NDN_PI_B_Nonce NDN_PI_E_Nonce _ "f_nonce f"] loc that
    by (cases "f_nonce f") (simp_all add: set_interest_attr same_fields)
  have lifetime: "read_lifetime L w p (interest_obj g)
      = Ret (interest_obj (g\<lparr>f_lifetime := f_lifetime (received f)\<rparr>))" if "f_lifetime g = None" for g
    using life [of w p "f_lifetime f"] loc assms(7) that
    by (cases "f_lifetime f") (simp_all add: received_def readable_def set_interest_attr same_fields)
  show ?thesis
    by (simp add: fill_interest_def name excl f_min f_max f_child f_answer f_scope pub nonce lifetime blank_def)
      (cases f; simp add: received_def)
qed

subsection \<open>The parsed form is kept, even when there is none\<close>

definition pi_cached :: "capsule \<Rightarrow> parsed_interest option" where
  "pi_cached c =
     (if has_type INTEREST (PyCapsule c)
      then (case cap_context c of InterestContext d \<Rightarrow> pi d | _ \<Rightarrow> None) else None)"

definition pi_parse :: "'e ndnlib_scheme \<Rightarrow> capsule \<Rightarrow> parsed_interest outcome" where
  "pi_parse L c =
     (if \<not> has_type INTEREST (PyCapsule c) then c_assert L False Undef
      else case cap_context c of
             InterestContext d \<Rightarrow>
               (case cap_pointer c of
                  P_Charbuf b \<Rightarrow>
                    if \<not> mem L A_parsed then Raise MemoryError
                    else if fst (l_parse_interest L b) < 0 then Raise NDNInterestError
                    else Ret (snd (l_parse_interest L b))
                | _ \<Rightarrow> Undef)
           | _ \<Rightarrow> c_assert L False Undef)"

lemma has_type_context [simp]:
  "has_type ty (PyCapsule (c\<lparr>cap_context := x\<rparr>)) = has_type ty (PyCapsule c)"
  by (simp add: has_type_def capsule_is_valid_def)

lemma c_assert_not_Ret [simp]: "c_assert L False Undef \<noteq> Ret x"
  by (simp add: c_assert_def)

interpretation interest_pi: memo "interest_get_pi L" pi_cached "pi_parse L"
proof unfold_locales
  show "pi_cached s = Some r \<Longrightarrow> interest_get_pi L s = (Ret r, s)" for s r
    by (auto simp: pi_cached_def interest_get_pi_def split: if_splits capsule_context.splits)
  show "pi_cached s = None \<Longrightarrow> fst (interest_get_pi L s) = pi_parse L s" for s
    by (auto simp: pi_cached_def interest_get_pi_def pi_parse_def
        split: if_splits capsule_context.splits payload.splits prod.splits)
  show "pi_cached s = None \<Longrightarrow> pi_parse L s = Ret r
      \<Longrightarrow> pi_cached (snd (interest_get_pi L s)) = Some r" for s r
    by (auto simp: pi_cached_def interest_get_pi_def pi_parse_def
        split: if_splits capsule_context.splits payload.splits prod.splits)
  show "pi_parse L (snd (interest_get_pi L s)) = pi_parse L s" for s
    by (auto simp: interest_get_pi_def pi_parse_def
        split: option.splits capsule_context.splits payload.splits prod.splits)
qed

definition interest_capsule :: "bytes \<Rightarrow> capsule" where
  "interest_capsule b =
     \<lparr>cap_pointer = P_Charbuf b, cap_name = Some (capsule_name INTEREST),
      cap_context = InterestContext \<lparr>pi = None\<rparr>, cap_owned = True\<rparr>"

lemma interest_capsule_simps [simp]:
  "has_type INTEREST (PyCapsule (interest_capsule b))" "pi_cached (interest_capsule b) = None"
  "PyCapsule (interest_capsule b) = box INTEREST b"
  by (simp_all add: interest_capsule_def has_type_def capsule_is_valid_def pi_cached_def box_def
      fresh_context_def)

lemma pi_parse_fresh:
  "mem L A_parsed \<Longrightarrow> pi_parse L (interest_capsule b) =
     (if fst (l_parse_interest L b) < 0 then Raise NDNInterestError else Ret (snd (l_parse_interest L b)))"
  by (simp add: pi_parse_def interest_capsule_simps(1) del: interest_capsule_simps(3))
    (simp add: interest_capsule_def)

subsection \<open>Properties\<close>

text \<open>
  C35. The wire form of an interest is its fields in order, each absent when unset; integers
  are cut to 32 bits, the lifetime to 24 bits of 1/4096 second. The exclusion filter, whatever
  it is, leaves no trace.
\<close>

theorem interest_encoding:
  assumes "name_library L" "buffer_writer L" "allocs_ok L" "encodable f"
  shows "cmd_Interest_obj_to_ndn L (interest_obj f) = Ret (box INTEREST (interest_wire L f))
    \<and> cmd_Interest_obj_to_ndn L (interest_obj (f\<lparr>f_exclude := anything\<rparr>))
      = cmd_Interest_obj_to_ndn L (interest_obj f)"
  using interest_encodes [OF assms]
    interest_encodes [OF assms(1-3), of "f\<lparr>f_exclude := anything\<rparr>"] assms(4)
  by (simp add: encodable_def interest_wire_def)

definition sample_interest :: interest_fields where
  "sample_interest = (blank [[1]])\<lparr>f_min := Some 2, f_lifetime := Some (8193 / 2)\<rparr>"

theorem interest_encoding_witness:
  "cmd_Interest_obj_to_ndn ndnb_lib (interest_obj (sample_interest\<lparr>f_exclude := PyInt 1\<rparr>))
     = Ret (box INTEREST (interest_wire ndnb_lib sample_interest))"
  using interest_encoding [OF ndnb_names.name_library_axioms ndnb_writer.buffer_writer_axioms,
      of sample_interest "PyInt 1"]
  by (simp add: encodable_def sample_interest_def blank_def)

lemma interest_transfer:
  assumes "name_library L" "buffer_writer L" "element_reader L" "allocs_ok L"
    and "encodable f" "readable f" "\<forall>c \<in> set (f_name f). length (component_wire c) < 2 ^ 31"
    and "l_parse_interest L (interest_wire L f) = (r, p)" "0 \<le> r" "locates L p f (interest_wire L f)"
  shows "bnd (cmd_Interest_obj_to_ndn L (interest_obj f)) (\<lambda>v. fst (cmd_Interest_obj_from_ndn L v))
    = Ret (interest_obj (received f))"
proof -
  let ?w = "interest_wire L f" and ?c = "interest_capsule (interest_wire L f)"
  obtain c' where get: "interest_get_pi L ?c = (Ret p, c')"
    using interest_pi.miss [of ?c L] pi_parse_fresh [of L ?w] assms(4,8,9)
    by (cases "interest_get_pi L ?c") auto
  obtain obj where obj: "py_setattr new_Interest ''ndn_data'' (PyCapsule c') = Ret obj"
    by (simp add: new_Interest_def)
  have "fill_interest L ?w p obj = Ret (interest_obj (received f))"
    by (rule fill_interest_wire [OF assms(1-4,7,10,6) obj])
  then have "fst (Interest_obj_from_ndn L ?c) = Ret (interest_obj (received f))"
    using obj by (simp add: Interest_obj_from_ndn_def get)
  then have "fst (cmd_Interest_obj_from_ndn L (PyCapsule ?c)) = Ret (interest_obj (received f))"
    unfolding cmd_Interest_obj_from_ndn_def
    using interest_capsule_simps(1) [of ?w]
    by (simp add: case_prod_beta Let_def del: interest_capsule_simps)
  then show ?thesis
    using interest_encodes [OF assms(1,2,4,5)] by simp
qed

text \<open>
  C8. Encoding an interest and decoding the buffer gives an interest with the same name,
  digest, nonce and numbers, if the numbers are between 0 and \<open>2^31 - 1\<close>, digest and nonce are not empty
  strings, the lifetime is not negative and below \<open>2^52\<close> seconds (\<open>encodable\<close>, \<open>readable\<close>), each
  component of the name takes less than \<open>2^31\<close> bytes, and
  the library accepts the encoding and locates its fields. What is lost: the exclusion filter; of the
  lifetime \<open>q\<close> everything but \<open>\<lfloor>4096 q\<rfloor> mod 2^24\<close>, in units of \<open>1/4096\<close> second, so that a
  tenth of a second becomes \<open>409/4096\<close> and 4096 seconds become 0 (\<open>received\<close>); and the cached wire form.
\<close>

theorem interest_roundtrip:
  assumes "name_library L" "buffer_writer L" "element_reader L" "allocs_ok L"
    and "encodable f" "readable f" "\<forall>c \<in> set (f_name f). length (component_wire c) < 2 ^ 31"
    and "l_parse_interest L (interest_wire L f) = (r, p)" "0 \<le> r" "locates L p f (interest_wire L f)"
  shows "bnd (cmd_Interest_obj_to_ndn L (interest_obj f)) (\<lambda>v. fst (cmd_Interest_obj_from_ndn L v))
    = Ret (interest_obj (received f))"
  by (rule interest_transfer [OF assms])

definition sample_pi :: parsed_interest where
  "sample_pi =
     \<lparr>pi_offset = (\<lambda>i. if i = NDN_PI_B_Name then 1 else if i = NDN_PI_E_Name then 7
        else if i = NDN_PI_B_MinSuffixComponents then 7 else if i = NDN_PI_E_MinSuffixComponents then 11
        else if i = NDN_PI_B_InterestLifetime then 11 else if i = NDN_PI_E_InterestLifetime then 17
        else 0)\<rparr>"

theorem interest_roundtrip_witness:
  "bnd (cmd_Interest_obj_to_ndn (ndnb_lib\<lparr>l_parse_interest := (\<lambda>_. (0, sample_pi))\<rparr>) (interest_obj sample_interest))
       (\<lambda>v. fst (cmd_Interest_obj_from_ndn (ndnb_lib\<lparr>l_parse_interest := (\<lambda>_. (0, sample_pi))\<rparr>) v))
   = Ret (interest_obj (sample_interest\<lparr>f_lifetime := Some (1 / 2)\<rparr>))"
proof -
  let ?L = "ndnb_lib\<lparr>l_parse_interest := (\<lambda>_. (0, sample_pi))\<rparr>"
  have number: "number_wire ?L n = number_wire ndnb_lib n" for n
    by (simp add: number_wire_def)
  have libs: "name_library ?L" "buffer_writer ?L" "element_reader ?L" "allocs_ok ?L"
  proof -
    show "name_library ?L"
      using ndnb_names.name_library_axioms by (simp add: name_library_def)
    show "buffer_writer ?L"
      using ndnb_writer.buffer_writer_axioms by (simp add: buffer_writer_def number)
    show "element_reader ?L"
      by (rule element_reader.intro)
        (use ndnb_reader.fetch_nonneg ndnb_reader.ref_blob in \<open>simp_all add: number\<close>)
    show "allocs_ok ?L"
      by (simp add: allocs_ok_def)
  qed
  note wire = ndnb_dtag_def ndnb_blob_def ndnb_encode_def high_groups.simps Let_def NDN_BLOB_def NDN_DTAG_def
  have name: "name_wire [[1]] = [242, 250, 141, 1, 0, 0]"
    by (simp add: name_wire_eq component_wire_eq wire)
  have two: "int_wire ?L NDN_DTAG_MinSuffixComponents (Some 2) = [170, 142, 50, 0]"
    by (simp add: int_wire_def to_int32_id number int_digits_def number_wire_def ndnb_lib_def wire
        nat_digits.simps [of 2])
  have "lifetime_code (8193 / 2) = [0, 8, 0]"
    by (simp add: lifetime_code_def)
  then have life: "blob_wire ?L NDN_DTAG_InterestLifetime (Some (lifetime_code (8193 / 2))) = [218, 157, 0, 8, 0, 0]"
    by (simp add: blob_wire_def ndnb_lib_def wire)
  have none: "int_wire ?L tag None = []" "blob_wire ?L tag None = []" for tag
    by (simp_all add: int_wire_def blob_wire_def)
  have f: "f_name sample_interest = [[1]]" "f_min sample_interest = Some 2"
    "f_lifetime sample_interest = Some (8193 / 2)" "f_max sample_interest = None"
    "f_publisher sample_interest = None" "f_child sample_interest = None" "f_answer sample_interest = None"
    "f_scope sample_interest = None" "f_nonce sample_interest = None"
    by (simp_all add: sample_interest_def blank_def)
  have "interest_wire ?L sample_interest
      = [154, 242, 250, 141, 1, 0, 0, 170, 142, 50, 0, 218, 157, 0, 8, 0, 0, 0]"
    by (simp only: interest_wire_def f name two life none option.map) (simp add: ndnb_lib_def wire)
  then have "locates ?L sample_pi sample_interest (interest_wire ?L sample_interest)"
    by (simp only: locates_def f name two life none option.map)
      (simp add: field_at_def pi_len_def element_at_def sample_pi_def)
  moreover have "received sample_interest = sample_interest\<lparr>f_lifetime := Some (1 / 2)\<rparr>"
    by (simp add: received_def sample_interest_def blank_def)
  ultimately show ?thesis
    using interest_roundtrip [OF libs, of sample_interest 0 sample_pi]
    by (simp add: encodable_def readable_def f component_wire_eq wire)
qed

text \<open>
  C40. The parsed form is parsed once: after a success every later lookup gives the same
  structure and leaves the capsule alone, whatever the parser would now say. After a failure
  the structure stays behind, and the next lookup reports it as a success.
\<close>

theorem parsed_interest_cache:
  assumes "mem L A_parsed" "l_parse_interest L b = (r, p)" "c = interest_capsule b"
  shows "fst (interest_get_pi L c) = (if r < 0 then Raise NDNInterestError else Ret p)
    \<and> interest_get_pi L' (snd (interest_get_pi L c)) = (Ret p, snd (interest_get_pi L c))"
proof -
  have "snd (interest_get_pi L c) = c\<lparr>cap_context := InterestContext \<lparr>pi = Some p\<rparr>\<rparr>"
    using assms interest_capsule_simps(1) [of b]
    by (simp add: interest_get_pi_def interest_capsule_def Let_def del: interest_capsule_simps)
  moreover have "pi_cached (c\<lparr>cap_context := InterestContext \<lparr>pi = Some p\<rparr>\<rparr>) = Some p"
    using assms interest_capsule_simps(1) [of b]
    by (simp add: pi_cached_def del: interest_capsule_simps)
  ultimately show ?thesis
    using interest_pi.miss [of c L] interest_pi.hit [of _ p L'] pi_parse_fresh [of L b] assms
    by simp
qed

theorem parsed_interest_cache_witness:
  "fst (interest_get_pi ndnb_lib (interest_capsule [])) = Raise NDNInterestError
   \<and> fst (interest_get_pi ndnb_lib (snd (interest_get_pi ndnb_lib (interest_capsule [])))) = Ret zero_pi"
  using parsed_interest_cache [of ndnb_lib "[]" "- 1" zero_pi "interest_capsule []" ndnb_lib]
  by (simp add: ndnb_lib_def)

end
