(* ===== verification/NameCryptoPy.thy ===== *)
theory NameCryptoPy
  imports NameCryptoM NameClass InterestM
begin

section \<open>Command authentication in Python: python/ndn/NameCrypto.py\<close>

text \<open>
  The functions of the package around the commands of theory \<open>NameCryptoM\<close>. The two that
  authenticate hand the capsule to \<^verbatim>\<open>Name\<close> as \<^verbatim>\<open>ndn_data\<close>, an argument its
  constructor does not have; a caller has to use the command itself and decode the capsule.
  Functions that move the state return its new contents, also when they raise.
\<close>

definition new_state :: "'e crypto_scheme \<Rightarrow> pyval outcome" where
  "new_state C = cmd_nc_new_state C"

definition generate_application_key :: "'e crypto_scheme \<Rightarrow> pyval \<Rightarrow> pyval \<Rightarrow> pyval outcome" where
  "generate_application_key C fixture_key app_name =
     bnd (cmd_nc_app_id C app_name) (\<lambda>app_id. cmd_nc_app_key C [fixture_key, app_id])"

definition name_of_signed ::
    "'e ndnlib_scheme \<Rightarrow> (pyval \<times> state_st) outcome \<Rightarrow> pyval outcome \<times> state_st option" where
  "name_of_signed L m =
     (case m of
        Ret (signed_name, st') \<Rightarrow> (call_Name_kwds L [(''ndn_data'', signed_name)], Some st')
      | m \<Rightarrow> (bnd m (\<lambda>_. Undef), None))"

definition authenticate_command ::
    "'e crypto_scheme \<Rightarrow> time \<Rightarrow> pyval \<Rightarrow> pyval \<Rightarrow> pyval \<Rightarrow> pyval \<Rightarrow> pyval outcome \<times> state_st option" where
  "authenticate_command C now state name app_name app_key =
     name_of_signed C
       (bnd (name_ndn_data C name) (\<lambda>n. cmd_nc_authenticate_command C now [state, n, app_name, app_key]))"

definition authenticate_command_sig ::
    "'e crypto_scheme \<Rightarrow> time \<Rightarrow> pyval \<Rightarrow> pyval \<Rightarrow> pyval \<Rightarrow> pyval \<Rightarrow> pyval outcome \<times> state_st option" where
  "authenticate_command_sig C now state name app_name key =
     name_of_signed C
       (bnd (name_ndn_data C name) (\<lambda>n.
        bnd (py_getattr key ''ndn_data_private'') (\<lambda>k.
          cmd_nc_authenticate_command_sig C now [state, n, app_name, k])))"

text \<open>
  \<^verbatim>\<open>verify_command\<close> takes the keys by name; a public key is replaced by its capsule, and
  the command refuses names it does not know.
\<close>

definition keyword :: "(string \<times> pyval) list \<Rightarrow> string \<Rightarrow> pyval" where
  "keyword args a = (case map_of args a of None \<Rightarrow> PyNone | Some v \<Rightarrow> v)"

definition verify_command ::
    "'e crypto_scheme \<Rightarrow> time \<Rightarrow> pyval \<Rightarrow> pyval \<Rightarrow> pyval \<Rightarrow> (string \<times> pyval) list
      \<Rightarrow> (pyval \<times> state_st option) outcome" where
  "verify_command C now state name max_time args =
     bnd (case map_of args ''pub_key'' of
            None \<Rightarrow> Ret args
          | Some k \<Rightarrow> bnd (py_getattr k ''ndn_data_public'') (\<lambda>p. Ret (AList.update ''pub_key'' p args))) (\<lambda>args.
     bnd (name_ndn_data C name) (\<lambda>n.
       if \<not> set (map fst args) \<subseteq> {''fixture_key'', ''pub_key''} then Raise TypeError
       else cmd_nc_verify_command C now state n max_time (keyword args ''fixture_key'') (keyword args ''pub_key'')))"

lemma generate_application_key_Ret:
  "generate_application_key C fk app = Ret key \<longleftrightarrow>
     (\<exists>app_id. cmd_nc_app_id C app = Ret app_id \<and> cmd_nc_app_key C [fk, app_id] = Ret key)"
  by (simp add: generate_application_key_def bnd_eq_Ret)

lemma call_Name_kwds_ndn_data [simp]: "call_Name_kwds L [(''ndn_data'', v)] = Raise TypeError"
  by (simp add: call_Name_kwds_def)

text \<open>A command that was authenticated does not come back, but its number is used up.\<close>

lemma authenticate_command_lost:
  assumes "bnd (name_ndn_data C name) (\<lambda>n. cmd_nc_authenticate_command C now [state, n, app_name, app_key])
      = Ret (signed_name, st')"
  shows "authenticate_command C now state name app_name app_key = (Raise TypeError, Some st')"
  by (simp add: authenticate_command_def assms name_of_signed_def)

lemma verify_command_fixture:
  assumes "name_ndn_data C name = Ret n"
  shows "verify_command C now state name max_time [(''fixture_key'', fk)]
    = cmd_nc_verify_command C now state n max_time fk PyNone"
  using assms by (simp add: verify_command_def keyword_def)

subsection \<open>A library that parses interests\<close>

text \<open>The release library with a parser for interests that hold nothing but a name.\<close>

definition named_interests :: crypto where
  "named_interests = release_crypto
     \<lparr>l_parse_interest := (\<lambda>b. (0, \<lparr>pi_offset = (\<lambda>i.
        if i = NDN_PI_B_Name then 1 else if i = NDN_PI_E_Name then length b - 1 else 0)\<rparr>))\<rparr>"

lemma named_interests_laws:
  "crypto_ready named_interests" "buffer_writer named_interests" "element_reader named_interests"
  "ndebug named_interests" "parses_interest named_interests (blank cs)"
proof -
  have ready: "name_library release_crypto" "crypto_lengths release_crypto"
    using release_crypto_ready(1) by (simp_all add: crypto_ready_def)
  have reads: "l_fetch_nonneg named_interests = l_fetch_nonneg ndnb_lib"
    "l_ref_tagged_blob named_interests = l_ref_tagged_blob ndnb_lib"
    by (simp_all add: named_interests_def release_crypto_def demo_crypto_def ndnlib.defs ndnb_lib_def)
  have number: "number_wire named_interests n = number_wire ndnb_lib n" for n
    by (simp add: number_wire_def named_interests_def release_crypto_def)
  have "name_library named_interests"
    using ready(1) by (simp add: name_library_def named_interests_def)
  moreover have "crypto_lengths named_interests"
    using ready(2) by (simp add: crypto_lengths_def named_interests_def)
  moreover have "allocs_ok named_interests"
    by (simp add: allocs_ok_def named_interests_def release_crypto_def)
  ultimately show "crypto_ready named_interests"
    by (simp add: crypto_ready_def)
  show "buffer_writer named_interests"
    using ndnb_writer.buffer_writer_axioms
    by (simp add: buffer_writer_def number) (simp add: named_interests_def release_crypto_def)
  show "element_reader named_interests"
    by (rule element_reader.intro)
      (use ndnb_reader.fetch_nonneg ndnb_reader.ref_blob in
        \<open>simp_all add: number reads\<close>)
  show "ndebug named_interests"
    by (simp add: named_interests_def release_crypto_def)
  have "ndnb_dtag (l_dtag ndnb_lib NDN_DTAG_Interest) x = 154 # x @ [0]" for x
    by (simp add: ndnb_lib_def ndnb_dtag_def ndnb_encode_def high_groups.simps NDN_DTAG_def)
  then show "parses_interest named_interests (blank cs)"
    by (simp add: parses_interest_def locates_def named_interests_def release_crypto_def blank_def interest_wire_def
        int_wire_def blob_wire_def field_at_def pi_len_def element_at_def)
qed

end
