(* ===== verification/NreMatch.thy ===== *)
theory NreMatch
  imports PyValues
begin

section \<open>Matching name patterns: python/ndn/nre.py\<close>

text \<open>
  The matchers of the name patterns: regular expressions whose letters are name components, each
  tested with a regular expression of its own. A matcher asks whether a stretch of a name, given by
  an offset and a length, matches, by trying all ways to cut it, from short to long
  (\<^verbatim>\<open>match\<close>) or from long to short (\<^verbatim>\<open>aggressiveMatch\<close>). The groups of a pattern keep
  what they matched last; these results are the state that matching changes. Python's
  \<^verbatim>\<open>re\<close> is a parameter, a function from an expression and a component to the groups of a match
  at its beginning. Names are lists of byte strings, and offsets stay inside them. Python's limit on
  the depth of calls is not modelled.
\<close>

subsection \<open>Matchers\<close>

text \<open>
  The classes. A component matcher has its expression and the place of its first group among the
  back references; a \<open>BackRef\<close> has its place and the list between its parentheses.
\<close>

datatype matcher =
    ComponentMatcher string nat
  | ComponentSetMatcher bool "matcher list"
  | BackRefMatcher nat matcher
  | PatternListMatcher "matcher list"
  | RepeatMatcher matcher nat nat

datatype mode = Lazy | Aggressive

type_synonym regex = "string \<Rightarrow> bytes \<Rightarrow> pyval list option"
type_synonym results = "nat \<Rightarrow> pyval list"

text \<open>A loop over lengths that stops at the first success, and Python's \<^verbatim>\<open>and\<close>.\<close>

fun first_true :: "(nat \<Rightarrow> 's \<Rightarrow> bool \<times> 's) \<Rightarrow> nat list \<Rightarrow> 's \<Rightarrow> bool \<times> 's" where
  "first_true f [] s = (False, s)"
| "first_true f (t # ts) s = (let (b, s') = f t s in if b then (True, s') else first_true f ts s')"

lemma first_true_cong [fundef_cong]:
  "ts = ts' \<Longrightarrow> s = s' \<Longrightarrow> (\<And>t s. t \<in> set ts' \<Longrightarrow> f t s = g t s) \<Longrightarrow> first_true f ts s = first_true g ts' s'"
  by (induction ts arbitrary: ts' s s') (auto simp: Let_def split: prod.splits)

definition both :: "bool \<times> 's \<Rightarrow> ('s \<Rightarrow> bool \<times> 's) \<Rightarrow> bool \<times> 's" where
  "both m k = (if fst m then k (snd m) else (False, snd m))"

lemma both_cong [fundef_cong]:
  "m = m' \<Longrightarrow> (\<And>s. k s = k' s) \<Longrightarrow> both m k = both m' k'"
  by (simp add: both_def)

definition tries :: "mode \<Rightarrow> nat \<Rightarrow> nat list" where
  "tries mode len = (case mode of Lazy \<Rightarrow> [0..<Suc len] | Aggressive \<Rightarrow> rev [0..<Suc len])"

lemma set_tries [simp]: "set (tries mode len) = {..len}"
  by (auto simp: tries_def split: mode.splits)

text \<open>The assignment of a back reference's \<^verbatim>\<open>matchResult\<close>.\<close>

definition set_result :: "nat \<Rightarrow> pyval list \<Rightarrow> results \<Rightarrow> results" where
  "set_result i v s = s(i := v)"

text \<open>\<^verbatim>\<open>_appendBackRef\<close>: each group of the match goes to its place.\<close>

definition append_back_ref :: "nat \<Rightarrow> pyval list \<Rightarrow> results \<Rightarrow> results" where
  "append_back_ref base groups s =
     (\<lambda>i. if base \<le> i \<and> i < base + length groups then [groups ! (i - base)] else s i)"

definition component_match :: "regex \<Rightarrow> bytes list \<Rightarrow> string \<Rightarrow> nat \<Rightarrow> nat \<Rightarrow> results \<Rightarrow> bool \<times> results" where
  "component_match re name expr base offset s =
     (if expr = [] then (True, s)
      else case re expr (name ! offset) of
             None \<Rightarrow> (False, s)
           | Some groups \<Rightarrow> (True, append_back_ref base groups s))"

text \<open>The weight of a matcher, for the termination of matching.\<close>

primrec weight :: "matcher \<Rightarrow> nat" where
  "weight (ComponentMatcher e base) = 1"
| "weight (ComponentSetMatcher incl ms) = 1 + sum_list (map Suc (map weight ms))"
| "weight (BackRefMatcher i m) = 3 + weight m"
| "weight (PatternListMatcher ms) = 1 + sum_list (map Suc (map weight ms))"
| "weight (RepeatMatcher m a b) = 2 + weight m"

abbreviation list_weight :: "matcher list \<Rightarrow> nat" where
  "list_weight ms \<equiv> sum_list (map Suc (map weight ms))"

function match_at :: "mode \<Rightarrow> regex \<Rightarrow> bytes list \<Rightarrow> matcher \<Rightarrow> nat \<Rightarrow> nat \<Rightarrow> results \<Rightarrow> bool \<times> results"
  and any_match :: "mode \<Rightarrow> regex \<Rightarrow> bytes list \<Rightarrow> matcher list \<Rightarrow> nat \<Rightarrow> nat \<Rightarrow> results \<Rightarrow> bool \<times> results"
  and list_match :: "mode \<Rightarrow> regex \<Rightarrow> bytes list \<Rightarrow> matcher list \<Rightarrow> nat \<Rightarrow> nat \<Rightarrow> results \<Rightarrow> bool \<times> results"
  and repeat_match :: "mode \<Rightarrow> regex \<Rightarrow> bytes list \<Rightarrow> matcher \<Rightarrow> nat \<Rightarrow> nat \<Rightarrow> nat \<Rightarrow> nat \<Rightarrow> nat \<Rightarrow> results
    \<Rightarrow> bool \<times> results"
  where
  "match_at mode re name (ComponentMatcher expr base) offset len s = component_match re name expr base offset s"
| "match_at mode re name (ComponentSetMatcher incl ms) offset len s =
     (if len \<noteq> 1 then (False, s)
      else let (matched, s') = any_match mode re name ms offset len s in (matched = incl, s'))"
| "match_at mode re name (BackRefMatcher i m) offset len s =
     (let (b, s') = list_match mode re name [m] offset len (set_result i [] s) in
      (b, if b then set_result i (map PyBytes (take len (drop offset name))) s' else s'))"
| "match_at mode re name (PatternListMatcher ms) offset len s = list_match mode re name ms offset len s"
| "match_at mode re name (RepeatMatcher m repeat_min repeat_max) offset len s =
     (if repeat_min = 0 \<and> len = 0 then (True, s)
      else repeat_match mode re name m repeat_min repeat_max 0 offset len s)"
| "any_match mode re name [] offset len s = (False, s)"
| "any_match mode re name (m # ms) offset len s =
     (let (b, s') = match_at mode re name m offset len s in
      if b then (True, s') else any_match mode re name ms offset len s')"
| "list_match mode re name [] offset len s = (len = 0, s)"
| "list_match mode re name (m # ms) offset len s =
     first_true
       (\<lambda>tried s. both (match_at mode re name m offset tried s)
          (list_match mode re name ms (offset + tried) (len - tried)))
       (tries mode len) s"
| "repeat_match mode re name m repeat_min repeat_max repeat offset len s =
     (if 0 < len \<and> repeat_max \<le> repeat then (False, s)
      else if len = 0 \<and> repeat < repeat_min then (False, s)
      else if len = 0 then (True, s)
      else first_true
             (\<lambda>tried s. both (match_at mode re name m offset tried s)
                (repeat_match mode re name m repeat_min repeat_max (Suc repeat) (offset + tried) (len - tried)))
             (tries mode len) s)"
  by pat_completeness auto
termination
  by (relation "inv_image (less_than <*lex*> less_than <*lex*> less_than <*lex*> less_than)
        (\<lambda>x. case x of
           Inl (Inl (_, _, _, m, _, _, _)) \<Rightarrow> (weight m, 0, 0, 0)
         | Inl (Inr (_, _, _, ms, _, _, _)) \<Rightarrow> (list_weight ms, 0, 0, 0)
         | Inr (Inl (_, _, _, ms, _, _, _)) \<Rightarrow> (list_weight ms, 0, 0, 0)
         | Inr (Inr (_, _, _, m, _, b, r, _, len, _)) \<Rightarrow> (weight m, 1, len, b - r))")
    auto

declare repeat_match.simps [simp del]

subsection \<open>Languages of patterns\<close>

definition conc :: "'a list set \<Rightarrow> 'a list set \<Rightarrow> 'a list set" where
  "conc A B = {u @ v |u v. u \<in> A \<and> v \<in> B}"

primrec conc_power :: "nat \<Rightarrow> 'a list set \<Rightarrow> 'a list set" where
  "conc_power 0 A = {[]}"
| "conc_power (Suc n) A = conc A (conc_power n A)"

lemma in_conc: "w \<in> conc A B \<longleftrightarrow> (\<exists>t \<le> length w. take t w \<in> A \<and> drop t w \<in> B)"
proof
  assume "w \<in> conc A B"
  then obtain u v where "w = u @ v" "u \<in> A" "v \<in> B"
    by (auto simp: conc_def)
  then show "\<exists>t \<le> length w. take t w \<in> A \<and> drop t w \<in> B"
    by (intro exI [of _ "length u"]) simp
next
  assume "\<exists>t \<le> length w. take t w \<in> A \<and> drop t w \<in> B"
  then obtain t where "take t w \<in> A" "drop t w \<in> B" by blast
  then have "take t w @ drop t w \<in> conc A B"
    unfolding conc_def by blast
  then show "w \<in> conc A B" by simp
qed

lemma Nil_in_conc [simp]: "[] \<in> conc A B \<longleftrightarrow> [] \<in> A \<and> [] \<in> B"
  by (auto simp: conc_def)

lemma Nil_in_conc_power: "[] \<in> conc_power n A \<longleftrightarrow> n = 0 \<or> [] \<in> A"
  by (induction n) auto

lemma conc_mono: "A \<subseteq> A' \<Longrightarrow> B \<subseteq> B' \<Longrightarrow> conc A B \<subseteq> conc A' B'"
  by (auto simp: conc_def)

lemma conc_power_mono: "A \<subseteq> B \<Longrightarrow> conc_power n A \<subseteq> conc_power n B"
  by (induction n) (simp_all add: conc_mono)

text \<open>The language of a matcher as a regular expression over components.\<close>

definition component_lang :: "regex \<Rightarrow> string \<Rightarrow> bytes list set" where
  "component_lang re e = {[c] |c. e = [] \<or> re e c \<noteq> None}"

primrec lang :: "regex \<Rightarrow> matcher \<Rightarrow> bytes list set" where
  "lang re (ComponentMatcher e base) = component_lang re e"
| "lang re (ComponentSetMatcher incl ms) = {[c] |c. ([c] \<in> \<Union> (set (map (lang re) ms))) = incl}"
| "lang re (BackRefMatcher i m) = lang re m"
| "lang re (PatternListMatcher ms) = foldr conc (map (lang re) ms) {[]}"
| "lang re (RepeatMatcher m a b) = (\<Union>n \<in> {a..b}. conc_power n (lang re m))"

text \<open>
  What the code accepts: as the language, but a repetition that must happen at least once does
  not accept the empty name, even if what is repeated does.
\<close>

primrec accepts :: "regex \<Rightarrow> matcher \<Rightarrow> bytes list set" where
  "accepts re (ComponentMatcher e base) = component_lang re e"
| "accepts re (ComponentSetMatcher incl ms) = {[c] |c. ([c] \<in> \<Union> (set (map (accepts re) ms))) = incl}"
| "accepts re (BackRefMatcher i m) = accepts re m"
| "accepts re (PatternListMatcher ms) = foldr conc (map (accepts re) ms) {[]}"
| "accepts re (RepeatMatcher m a b) =
     {w. if w = [] then a = 0 else w \<in> (\<Union>n \<in> {a..b}. conc_power n (accepts re m))}"

text \<open>Component matchers stand in sets, and sets hold nothing else.\<close>

definition is_component :: "matcher \<Rightarrow> bool" where
  "is_component m \<longleftrightarrow> (case m of ComponentMatcher _ _ \<Rightarrow> True | _ \<Rightarrow> False)"

lemma is_component_simps [simp]:
  "is_component (ComponentMatcher e base)"
  "\<not> is_component (ComponentSetMatcher incl ms)"
  "\<not> is_component (BackRefMatcher i m)"
  "\<not> is_component (PatternListMatcher ms)"
  "\<not> is_component (RepeatMatcher m a b)"
  by (simp_all add: is_component_def)

primrec formed :: "matcher \<Rightarrow> bool" where
  "formed (ComponentMatcher e base) = False"
| "formed (ComponentSetMatcher incl ms) = list_all is_component ms"
| "formed (BackRefMatcher i m) = formed m"
| "formed (PatternListMatcher ms) = list_all id (map formed ms)"
| "formed (RepeatMatcher m a b) = (formed m \<and> a \<le> b)"

lemma fst_first_true:
  assumes "\<And>t s. t \<in> set ts \<Longrightarrow> fst (f t s) = P t"
  shows "fst (first_true f ts s) = (\<exists>t \<in> set ts. P t)"
  using assms by (induction ts arbitrary: s) (auto simp: Let_def split: prod.splits, (metis fst_conv)+)

lemma fst_both: "fst (both m k) = (fst m \<and> fst (k (snd m)))"
  by (simp add: both_def)

lemma fst_try:
  assumes "\<And>t s. t \<le> len \<Longrightarrow> fst (f t s) = P t" "\<And>t s. t \<le> len \<Longrightarrow> fst (g t s) = Q t"
  shows "fst (first_true (\<lambda>t s. both (f t s) (g t)) (tries mode len) s) = (\<exists>t \<le> len. P t \<and> Q t)"
proof -
  have "fst (first_true (\<lambda>t s. both (f t s) (g t)) (tries mode len) s)
      = (\<exists>t \<in> set (tries mode len). P t \<and> Q t)"
    by (rule fst_first_true) (simp add: fst_both assms)
  then show ?thesis by auto
qed

abbreviation stretch :: "bytes list \<Rightarrow> nat \<Rightarrow> nat \<Rightarrow> bytes list" where
  "stretch name offset len \<equiv> take len (drop offset name)"

lemma stretch_cut:
  "t \<le> len \<Longrightarrow> take t (stretch name offset len) = stretch name offset t"
  "drop t (stretch name offset len) = stretch name (offset + t) (len - t)"
  by (simp_all add: min_def drop_take add.commute)

lemma in_conc_stretch:
  assumes "offset + len \<le> length name"
  shows "stretch name offset len \<in> conc A B
    \<longleftrightarrow> (\<exists>t \<le> len. stretch name offset t \<in> A \<and> stretch name (offset + t) (len - t) \<in> B)"
  using assms by (auto simp: in_conc stretch_cut)

text \<open>
  The heart of a repetition: a stretch that is not empty can be cut so that the empty pieces
  come first, and then the code finds the cut.
\<close>

definition repeats :: "'a list set \<Rightarrow> nat \<Rightarrow> nat \<Rightarrow> nat \<Rightarrow> 'a list \<Rightarrow> bool" where
  "repeats A a b r w \<longleftrightarrow> (if w = [] then a \<le> r else \<exists>n. a \<le> r + n \<and> r + n \<le> b \<and> w \<in> conc_power n A)"

lemma repeats_full: "w \<noteq> [] \<Longrightarrow> b \<le> r \<Longrightarrow> \<not> repeats A a b r w"
  by (auto simp: repeats_def) (metis add_leE conc_power.simps(1) le_antisym add_le_same_cancel1 le_zero_eq
      order_trans singletonD)

lemma repeats_Nil [simp]: "repeats A a b r [] = (a \<le> r)"
  by (simp add: repeats_def)

lemma repeats_step:
  assumes "w \<noteq> []" "r < b"
  shows "repeats A a b r w \<longleftrightarrow> (\<exists>t \<le> length w. take t w \<in> A \<and> repeats A a b (Suc r) (drop t w))"
proof
  assume "repeats A a b r w"
  then obtain n where n: "a \<le> r + n" "r + n \<le> b" "w \<in> conc_power n A"
    using assms(1) by (auto simp: repeats_def)
  then obtain m where m: "n = Suc m"
    using assms(1) by (cases n) auto
  then obtain t where t: "t \<le> length w" "take t w \<in> A" "drop t w \<in> conc_power m A"
    using n(3) by (auto simp: in_conc)
  show "\<exists>t \<le> length w. take t w \<in> A \<and> repeats A a b (Suc r) (drop t w)"
  proof (cases "drop t w = []")
    case False
    then show ?thesis
      using t n m by (intro exI [of _ t]) (auto simp: repeats_def intro!: exI [of _ m])
  next
    case True
    then have w: "w \<in> A" using t by simp
    show ?thesis
    proof (cases m)
      case 0
      then show ?thesis
        using w n m by (intro exI [of _ "length w"]) (simp add: repeats_def)
    next
      case (Suc k)
      then have "[] \<in> A"
        using t(3) True by (simp add: Nil_in_conc_power)
      moreover have "w \<in> conc_power m A"
        using w \<open>[] \<in> A\<close> Suc by (auto simp: in_conc Nil_in_conc_power intro!: exI [of _ "length w"])
      ultimately show ?thesis
        using assms n m by (intro exI [of _ 0]) (auto simp: repeats_def intro!: exI [of _ m])
    qed
  qed
next
  assume "\<exists>t \<le> length w. take t w \<in> A \<and> repeats A a b (Suc r) (drop t w)"
  then obtain t where t: "t \<le> length w" "take t w \<in> A" "repeats A a b (Suc r) (drop t w)"
    by blast
  have one: "drop t w \<in> conc_power n A \<Longrightarrow> w \<in> conc_power (Suc n) A" for n
    using t by (auto simp: in_conc)
  show "repeats A a b r w"
  proof (cases "drop t w = []")
    case True
    then show ?thesis
      using one [of 0] t assms by (auto simp: repeats_def intro!: exI [of _ 1])
  next
    case False
    then obtain n where "a \<le> Suc r + n" "Suc r + n \<le> b" "drop t w \<in> conc_power n A"
      using t(3) by (auto simp: repeats_def)
    then show ?thesis
      using one [of n] assms(1) by (auto simp: repeats_def intro!: exI [of _ "Suc n"])
  qed
qed

lemma match_accepts:
  "offset + len \<le> length name \<Longrightarrow> formed m \<or> is_component m \<and> len = 1 \<Longrightarrow>
     fst (match_at mode re name m offset len s) = (stretch name offset len \<in> accepts re m)"
  "offset + len \<le> length name \<Longrightarrow> list_all is_component ms \<and> len = 1 \<Longrightarrow>
     fst (any_match mode re name ms offset len s) = (\<exists>m \<in> set ms. stretch name offset len \<in> accepts re m)"
  "offset + len \<le> length name \<Longrightarrow> list_all formed ms \<Longrightarrow>
     fst (list_match mode re name ms offset len s)
       = (stretch name offset len \<in> foldr conc (map (accepts re) ms) {[]})"
  "offset + len \<le> length name \<Longrightarrow> formed m \<Longrightarrow> a \<le> b \<Longrightarrow>
     fst (repeat_match mode re name m a b r offset len s)
       = repeats (accepts re m) a b r (stretch name offset len)"
proof (induction mode re name m offset len s and mode re name ms offset len s
    and mode re name ms offset len s and mode re name m a b r offset len s
    rule: match_at_any_match_list_match_repeat_match.induct)
  case (1 mode re name expr base offset len s)
  then have "stretch name offset 1 = [name ! offset]" "len = 1"
    by (auto simp: take_Suc hd_drop_conv_nth)
  then show ?case
    by (auto simp: component_match_def component_lang_def split: option.splits)
next
  case (2 mode re name incl ms offset len s)
  show ?case
  proof (cases "len = 1")
    case True
    then have one: "stretch name offset len = [name ! offset]"
      using 2(2) by (simp add: take_Suc hd_drop_conv_nth)
    show ?thesis
      using 2 True one by (auto simp: Let_def case_prod_beta)
  next
    case False
    then have "stretch name offset len \<noteq> [c]" for c
      using 2(2) by (auto dest!: arg_cong [of _ "[c]" length])
    then show ?thesis
      using False by auto
  qed
next
  case (3 mode re name i m offset len s)
  then have "fst (list_match mode re name [m] offset len (set_result i [] s)) = (stretch name offset len \<in> accepts re m)"
    by (auto simp del: list_match.simps simp: conc_def)
  then show ?case by (simp del: list_match.simps add: Let_def case_prod_beta)
next
  case (4 mode re name ms offset len s)
  then show ?case by (simp add: list_all_iff)
next
  case (5 mode re name m repeat_min repeat_max offset len s)
  then show ?case by (auto simp: repeats_def)
next
  case (6 mode re name offset len s)
  then show ?case by simp
next
  case (7 mode re name m ms offset len s)
  then show ?case by (auto simp: Let_def split: prod.splits)
next
  case (8 mode re name offset len s)
  then show ?case by auto
next
  case (9 mode re name m ms offset len s)
  have "fst (match_at mode re name m offset t s') = (stretch name offset t \<in> accepts re m)" if "t \<le> len" for t s'
    using 9 that by auto
  moreover have "fst (list_match mode re name ms (offset + t) (len - t) s')
      = (stretch name (offset + t) (len - t) \<in> foldr conc (map (accepts re) ms) {[]})" if "t \<le> len" for t s'
    using 9 that by auto
  ultimately show ?case
    using 9(3) by (simp add: fst_try in_conc_stretch)
next
  case (10 mode re name m repeat_min repeat_max repeat offset len s)
  show ?case
  proof (cases "0 < len \<and> repeat < repeat_max")
    case False
    then show ?thesis
      using 10(3) by (auto simp: repeat_match.simps repeats_full)
  next
    case True
    have one: "fst (match_at mode re name m offset t s') = (stretch name offset t \<in> accepts re m)"
      if "t \<le> len" for t s'
      using 10 that True by auto
    have rest: "fst (repeat_match mode re name m repeat_min repeat_max (Suc repeat) (offset + t) (len - t) s')
      = repeats (accepts re m) repeat_min repeat_max (Suc repeat) (stretch name (offset + t) (len - t))"
      if "t \<le> len" for t s'
      using 10 that True by auto
    have "length (stretch name offset len) = len" "stretch name offset len \<noteq> []"
      using 10(3) True by auto
    then have "repeats (accepts re m) repeat_min repeat_max repeat (stretch name offset len)
      = (\<exists>t \<le> len. stretch name offset t \<in> accepts re m
          \<and> repeats (accepts re m) repeat_min repeat_max (Suc repeat) (stretch name (offset + t) (len - t)))"
      using True by (simp add: repeats_step stretch_cut cong: conj_cong)
    then show ?thesis
      using True by (subst repeat_match.simps) (simp add: fst_try [OF one rest])
  qed
qed

text \<open>A matcher that accepts the empty name, and one that repeats no such matcher.\<close>

primrec nullable :: "matcher \<Rightarrow> bool" where
  "nullable (ComponentMatcher e base) = False"
| "nullable (ComponentSetMatcher incl ms) = False"
| "nullable (BackRefMatcher i m) = nullable m"
| "nullable (PatternListMatcher ms) = list_all id (map nullable ms)"
| "nullable (RepeatMatcher m a b) = (a = 0 \<or> nullable m)"

primrec solid :: "matcher \<Rightarrow> bool" where
  "solid (ComponentMatcher e base) = True"
| "solid (ComponentSetMatcher incl ms) = True"
| "solid (BackRefMatcher i m) = solid m"
| "solid (PatternListMatcher ms) = list_all id (map solid ms)"
| "solid (RepeatMatcher m a b) = (solid m \<and> \<not> nullable m)"

lemma Nil_in_foldr_conc: "[] \<in> foldr conc As {[]} \<longleftrightarrow> (\<forall>A \<in> set As. [] \<in> A)"
  by (induction As) auto

lemma foldr_conc_mono: "list_all2 (\<subseteq>) As Bs \<Longrightarrow> foldr conc As {[]} \<subseteq> foldr conc Bs {[]}"
  by (induction rule: list_all2_induct) (simp_all add: conc_mono)

lemma Nil_in_lang: "formed m \<or> is_component m \<Longrightarrow> [] \<in> lang re m \<longleftrightarrow> nullable m"
proof (induction m)
  case (RepeatMatcher m a b)
  then have "a \<le> b" "[] \<in> lang re m \<longleftrightarrow> nullable m" by auto
  then show ?case
    by (auto simp: Nil_in_conc_power intro: bexI [of _ a])
qed (auto simp: component_lang_def Nil_in_foldr_conc list_all_iff)

lemma lang_component: "is_component m \<Longrightarrow> accepts re m = lang re m"
  by (cases m) simp_all

lemma accepts_lang: "formed m \<or> is_component m \<Longrightarrow> accepts re m \<subseteq> lang re m"
proof (induction m)
  case (ComponentSetMatcher incl ms)
  then show ?case by (auto simp: list_all_iff lang_component)
next
  case (PatternListMatcher ms)
  then show ?case
    by (simp add: list_all_iff)
      (intro foldr_conc_mono, auto simp: list.rel_map intro!: list.rel_refl_strong dest: subsetD)
next
  case (RepeatMatcher m a b)
  then have "conc_power n (accepts re m) \<subseteq> conc_power n (lang re m)" for n
    by (simp add: conc_power_mono)
  with RepeatMatcher.prems show ?case
    by (auto split: if_splits intro: bexI [of _ 0] dest: subsetD)
qed auto

lemma solid_accepts: "formed m \<or> is_component m \<Longrightarrow> solid m \<Longrightarrow> accepts re m = lang re m"
proof (induction m)
  case (ComponentSetMatcher incl ms)
  then show ?case by (auto simp: list_all_iff lang_component)
next
  case (PatternListMatcher ms)
  then show ?case by (simp add: list_all_iff cong: map_cong)
next
  case (RepeatMatcher m a b)
  then have "[] \<notin> lang re m" by (simp add: Nil_in_lang)
  with RepeatMatcher show ?case by (auto simp: Nil_in_conc_power)
qed auto

subsection \<open>Groups\<close>

text \<open>The places of the groups of a matcher; \<open>groups\<close> counts the groups of a component's expression.\<close>

definition counts :: "(string \<Rightarrow> nat) \<Rightarrow> regex \<Rightarrow> bool" where
  "counts groups re \<longleftrightarrow> (\<forall>e c gs. re e c = Some gs \<longrightarrow> length gs = groups e)"

primrec places :: "(string \<Rightarrow> nat) \<Rightarrow> matcher \<Rightarrow> nat set" where
  "places groups (ComponentMatcher e base) = {base..<base + groups e}"
| "places groups (ComponentSetMatcher incl ms) = \<Union> (set (map (places groups) ms))"
| "places groups (BackRefMatcher i m) = insert i (places groups m)"
| "places groups (PatternListMatcher ms) = \<Union> (set (map (places groups) ms))"
| "places groups (RepeatMatcher m a b) = places groups m"

lemma first_true_keeps:
  assumes "\<And>t s. t \<in> set ts \<Longrightarrow> P (snd (f t s)) = P s"
  shows "P (snd (first_true f ts s)) = P s"
  using assms
proof (induction ts arbitrary: s)
  case (Cons t ts)
  from Cons.prems [of t s] Cons.IH [of "snd (f t s)"] Cons.prems show ?case
    by (auto simp: Let_def case_prod_beta)
qed simp

lemma first_true_success:
  "fst (first_true f ts s) \<Longrightarrow> \<exists>t \<in> set ts. \<exists>s'. f t s' = (True, snd (first_true f ts s))"
proof (induction ts arbitrary: s)
  case (Cons t ts)
  show ?case
  proof (cases "f t s")
    case (Pair b s')
    with Cons show ?thesis by (cases b) (auto simp: Let_def)
  qed
qed simp

lemma snd_both: "snd (both m k) = (if fst m then snd (k (snd m)) else snd m)"
  by (simp add: both_def)

text \<open>Matching changes only the results of the matcher's own groups.\<close>

lemma match_keeps:
  assumes re: "counts groups re"
  shows
  "j \<notin> places groups m \<Longrightarrow> snd (match_at mode re name m offset len s) j = s j"
  "\<forall>m \<in> set ms. j \<notin> places groups m \<Longrightarrow> snd (any_match mode re name ms offset len s) j = s j"
  "\<forall>m \<in> set ms. j \<notin> places groups m \<Longrightarrow> snd (list_match mode re name ms offset len s) j = s j"
  "j \<notin> places groups m \<Longrightarrow> snd (repeat_match mode re name m a b r offset len s) j = s j"
  using re
proof (induction mode re name m offset len s and mode re name ms offset len s
    and mode re name ms offset len s and mode re name m a b r offset len s
    rule: match_at_any_match_list_match_repeat_match.induct)
  case (1 mode re name expr base offset len s)
  then show ?case
    by (auto simp: component_match_def append_back_ref_def counts_def split: option.splits)
next
  case (2 mode re name incl ms offset len s)
  then show ?case by (auto simp: Let_def case_prod_beta)
next
  case (3 mode re name i m offset len s)
  then show ?case
    by (simp del: list_match.simps add: Let_def case_prod_beta) (auto simp del: list_match.simps simp: set_result_def)
next
  case (4 mode re name ms offset len s)
  then show ?case by auto
next
  case (5 mode re name m repeat_min repeat_max offset len s)
  then show ?case by auto
next
  case (6 mode re name offset len s)
  then show ?case by simp
next
  case (7 mode re name m ms offset len s)
  then show ?case by (cases "match_at mode re name m offset len s") (auto simp: Let_def)
next
  case (8 mode re name offset len s)
  then show ?case by simp
next
  case (9 mode re name m ms offset len s)
  then show ?case
    by (auto simp: snd_both intro!: first_true_keeps [where P = "\<lambda>s. s j"])
next
  case (10 mode re name m repeat_min repeat_max repeat offset len s)
  then show ?case
    by (subst repeat_match.simps) (auto simp: snd_both intro!: first_true_keeps [where P = "\<lambda>s. s j"])
qed

text \<open>
  After a match, the name is cut in pieces, one for every matcher of the list, each accepted by
  its matcher, and the groups among them hold their pieces.
\<close>

fun separate :: "(string \<Rightarrow> nat) \<Rightarrow> matcher list \<Rightarrow> bool" where
  "separate groups [] = True"
| "separate groups (m # ms) \<longleftrightarrow> (\<forall>m' \<in> set ms. places groups m \<inter> places groups m' = {}) \<and> separate groups ms"

definition piece_of :: "regex \<Rightarrow> results \<Rightarrow> matcher \<Rightarrow> bytes list \<Rightarrow> bool" where
  "piece_of re s m w \<longleftrightarrow> w \<in> accepts re m \<and> (\<forall>i m'. m = BackRefMatcher i m' \<longrightarrow> s i = map PyBytes w)"

lemma match_at_group:
  "fst (match_at mode re name (BackRefMatcher i m) offset len s) \<Longrightarrow>
     snd (match_at mode re name (BackRefMatcher i m) offset len s) i = map PyBytes (stretch name offset len)"
  by (simp del: list_match.simps add: Let_def case_prod_beta) (simp add: set_result_def)

lemma list_match_pieces:
  assumes "counts groups re"
    and "offset + len \<le> length name" "list_all formed ms" "separate groups ms"
    and "fst (list_match mode re name ms offset len s)"
  shows "\<exists>ws. concat ws = stretch name offset len
    \<and> list_all2 (piece_of re (snd (list_match mode re name ms offset len s))) ms ws"
  using assms(2-5)
proof (induction ms arbitrary: offset len s)
  case (Cons m ms)
  let ?s = "snd (list_match mode re name (m # ms) offset len s)"
  obtain t s' where t: "t \<le> len" and b: "both (match_at mode re name m offset t s')
      (list_match mode re name ms (offset + t) (len - t)) = (True, ?s)"
    using first_true_success [of "\<lambda>t s. both (match_at mode re name m offset t s)
      (list_match mode re name ms (offset + t) (len - t))" "tries mode len" s] Cons.prems(4) by auto
  obtain s1 where one: "match_at mode re name m offset t s' = (True, s1)"
    and rest: "list_match mode re name ms (offset + t) (len - t) s1 = (True, ?s)"
    using b by (cases "match_at mode re name m offset t s'") (auto simp: both_def split: if_splits)
  obtain ws where ws: "concat ws = stretch name (offset + t) (len - t)" "list_all2 (piece_of re ?s) ms ws"
    using Cons.IH [of "offset + t" "len - t" s1] Cons.prems t rest by auto
  have "stretch name offset t \<in> accepts re m"
    using match_accepts(1) [of offset t name m mode re s'] Cons.prems t one by simp
  moreover have "?s i = map PyBytes (stretch name offset t)" if i: "m = BackRefMatcher i m'" for i m'
  proof -
    have "\<forall>m' \<in> set ms. i \<notin> places groups m'"
      using Cons.prems(3) i by auto
    then have "?s i = s1 i"
      using match_keeps(3) [OF assms(1), where ms = ms and j = i and mode = mode and name = name
          and offset = "offset + t" and len = "len - t" and s = s1] rest by simp
    then show ?thesis
      using match_at_group [of mode re name i m' offset t s'] one i by (simp del: match_at.simps)
  qed
  ultimately have "piece_of re ?s m (stretch name offset t)"
    by (auto simp: piece_of_def)
  moreover have "stretch name offset t @ stretch name (offset + t) (len - t) = stretch name offset len"
    using stretch_cut(1) [OF t] stretch_cut(2) by (metis append_take_drop_id)
  ultimately show ?case
    using ws by (intro exI [of _ "stretch name offset t # ws"]) (simp del: list_match.simps)
qed simp

end
