(* ===== verification/NreParse.thy ===== *)
theory NreParse
  imports NreMatch "HOL-Library.Sublist"
begin

section \<open>Reading name patterns: python/ndn/nre.py\<close>

text \<open>
  The constructors of the matchers, which read a pattern: components \<^verbatim>\<open><..>\<close>, sets of them
  \<^verbatim>\<open>[..]\<close> and \<^verbatim>\<open>[^..]\<close>, groups \<^verbatim>\<open>(..)\<close>, each with a repetition.
  A constructor that is given a slice of the pattern is a function of that slice; a loop with an index
  is a recursion over the rest of the pattern from that index, and an index is counted from
  the front of that rest. The list of back references only grows while a pattern is read, so it is
  its length. \<^verbatim>\<open>re.compile\<close> is a parameter: it raises some exception (\<^verbatim>\<open>re.error\<close>, or
  \<^verbatim>\<open>OverflowError\<close> for a count that is too big, and others), or tells how many groups an expression has.
\<close>

type_synonym compiler = "string \<Rightarrow> py_exc + nat"

text \<open>\<^verbatim>\<open>sys.maxint\<close> of a 64-bit Python.\<close>

definition maxint :: nat where
  "maxint = 2 ^ 63 - 1"

definition is_digit :: "char \<Rightarrow> bool" where
  "is_digit c \<longleftrightarrow> 48 \<le> (of_char c :: nat) \<and> (of_char c :: nat) \<le> 57"

definition digits :: "string \<Rightarrow> bool" where
  "digits ds \<longleftrightarrow> ds \<noteq> [] \<and> list_all is_digit ds"

definition number :: "string \<Rightarrow> nat" where
  "number ds = foldl (\<lambda>n c. 10 * n + (of_char c - 48)) 0 ds"

subsection \<open>Brackets\<close>

text \<open>\<^verbatim>\<open>_extractSubPattern\<close>: how far the closing bracket is.\<close>

fun scan_sub_pattern :: "char \<Rightarrow> char \<Rightarrow> nat \<Rightarrow> nat \<Rightarrow> string \<Rightarrow> nat outcome" where
  "scan_sub_pattern left right lcount rcount cs =
     (if rcount < lcount then
        case cs of
          [] \<Rightarrow> Raise RegexError
        | c # cs' \<Rightarrow>
            bnd (scan_sub_pattern left right (if left = c then lcount + 1 else lcount)
                  (if right = c then rcount + 1 else rcount) cs') (\<lambda>k. Ret (Suc k))
      else Ret 0)"

definition extract_sub_pattern :: "char \<Rightarrow> char \<Rightarrow> string \<Rightarrow> nat outcome" where
  "extract_sub_pattern left right cs = scan_sub_pattern left right 1 0 cs"

text \<open>\<^verbatim>\<open>_extractComponent\<close>, which stops at the end of the expression.\<close>

fun scan_component :: "nat \<Rightarrow> nat \<Rightarrow> string \<Rightarrow> nat" where
  "scan_component lcount rcount cs =
     (if rcount < lcount then
        case cs of
          [] \<Rightarrow> 0
        | c # cs' \<Rightarrow>
            Suc (if c = CHR ''<'' then scan_component (lcount + 1) rcount cs'
                 else if c = CHR ''>'' then scan_component lcount (rcount + 1) cs'
                 else scan_component lcount rcount cs')
      else 0)"

declare scan_sub_pattern.simps [simp del] scan_component.simps [simp del]

definition extract_component :: "string \<Rightarrow> nat" where
  "extract_component cs = scan_component 1 0 cs"

text \<open>\<^verbatim>\<open>_extractRepetition\<close>.\<close>

definition extract_repetition :: "string \<Rightarrow> nat outcome" where
  "extract_repetition cs =
     (case cs of
        [] \<Rightarrow> Ret 0
      | c # cs' \<Rightarrow>
          if c \<in> {CHR ''+'', CHR ''?'', CHR ''*''} then Ret 1
          else if c = CHR ''{'' then
            let k = length (takeWhile (\<lambda>c. c \<noteq> CHR ''}'') cs) in
            if k = length cs then Raise RegexError else Ret (k + 1)
          else Ret 0)"

subsection \<open>Repetitions\<close>

text \<open>
  \<^verbatim>\<open>_parseRepetition\<close>, on the rest of the expression after the indicator. The four regular
  expressions are read by the place of the first comma. A single character that is no repetition
  leaves the attributes unset, which the next line of the constructor reads.
\<close>

definition parse_braces :: "string \<Rightarrow> (nat \<times> nat) outcome" where
  "parse_braces cs =
     (if hd cs \<noteq> CHR ''{'' \<or> last cs \<noteq> CHR ''}'' then Raise RegexError
      else
        let inner = butlast (tl cs);
            first = takeWhile (\<lambda>c. c \<noteq> CHR '','') inner;
            rest = dropWhile (\<lambda>c. c \<noteq> CHR '','') inner in
        if rest \<noteq> [] \<and> digits first \<and> digits (tl rest) then Ret (number first, number (tl rest))
        else if rest \<noteq> [] \<and> digits first \<and> tl rest = [] then Ret (number first, maxint)
        else if rest \<noteq> [] \<and> first = [] \<and> digits (tl rest) then Ret (0, number (tl rest))
        else if rest = [] \<and> digits first then Ret (number first, number first)
        else Raise RegexError)"

definition parse_repetition :: "string \<Rightarrow> (nat \<times> nat) outcome" where
  "parse_repetition cs =
     (if cs = [] then Ret (1, 1)
      else if length cs = 1 then
        (if cs = ''?'' then Ret (0, 1)
         else if cs = ''+'' then Ret (1, maxint)
         else if cs = ''*'' then Ret (0, maxint)
         else Raise AttributeError)
      else bnd (parse_braces cs) (\<lambda>(repeat_min, repeat_max).
        if maxint < repeat_min \<or> maxint < repeat_max \<or> repeat_max < repeat_min then Raise RegexError
        else Ret (repeat_min, repeat_max)))"

subsection \<open>Constructors\<close>

definition component_init :: "compiler \<Rightarrow> string \<Rightarrow> nat \<Rightarrow> (matcher \<times> nat) outcome" where
  "component_init compile expr n =
     (case compile expr of
        Inl e \<Rightarrow> Raise e
      | Inr groups \<Rightarrow> Ret (ComponentMatcher expr n, n + groups))"

text \<open>
  \<^verbatim>\<open>_compileMultipleComponents\<close>, on the rest of the expression with its closing bracket:
  \<^verbatim>\<open>index < lastIndex\<close> says that more than the bracket is left.
\<close>

function compile_multiple :: "compiler \<Rightarrow> string \<Rightarrow> nat \<Rightarrow> (matcher list \<times> nat) outcome" where
  "compile_multiple compile cs n =
     (if 1 < length cs then
        if hd cs \<noteq> CHR ''<'' then Raise RegexError
        else
          let k = extract_component (tl cs) in
          bnd (component_init compile (take (k - 1) (tl cs)) n) (\<lambda>(m, n').
          bnd (compile_multiple compile (drop k (tl cs)) n') (\<lambda>(ms, n''). Ret (m # ms, n'')))
      else if length cs \<noteq> 1 then Raise RegexError
      else Ret ([], n))"
  by pat_completeness auto
termination by (relation "measure (\<lambda>(_, cs, _). length cs)") auto

declare compile_multiple.simps [simp del]

definition component_set_init :: "compiler \<Rightarrow> string \<Rightarrow> nat \<Rightarrow> (matcher \<times> nat) outcome" where
  "component_set_init compile expr n =
     (if hd expr = CHR ''<'' then
        let end_index = Suc (extract_component (tl expr)) in
        if length expr \<noteq> end_index then Raise RegexError
        else bnd (component_init compile (take (end_index - 2) (tl expr)) n) (\<lambda>(m, n').
          Ret (ComponentSetMatcher True [m], n'))
      else if hd expr = CHR ''['' then
        if last expr \<noteq> CHR '']'' then Raise RegexError
        else if expr ! 1 = CHR ''^'' then
          bnd (compile_multiple compile (drop 2 expr) n) (\<lambda>(ms, n'). Ret (ComponentSetMatcher False ms, n'))
        else
          bnd (compile_multiple compile (drop 1 expr) n) (\<lambda>(ms, n'). Ret (ComponentSetMatcher True ms, n'))
      else Ret (ComponentSetMatcher True [], n))"

definition repeat_init :: "(matcher \<times> nat) outcome \<Rightarrow> string \<Rightarrow> (matcher \<times> nat) outcome" where
  "repeat_init body repetition =
     bnd body (\<lambda>(m, n).
     bnd (parse_repetition repetition) (\<lambda>(repeat_min, repeat_max).
       Ret (RepeatMatcher m repeat_min repeat_max, n)))"

text \<open>\<^verbatim>\<open>_extractPattern\<close>: the indicator, where the repetition begins, and its end.\<close>

definition closing :: "char \<Rightarrow> char option" where
  "closing c =
     (if c = CHR ''('' then Some (CHR '')'')
      else if c = CHR ''<'' then Some (CHR ''>'')
      else if c = CHR ''['' then Some (CHR '']'')
      else None)"

definition pattern_bounds :: "string \<Rightarrow> (nat \<times> nat) outcome" where
  "pattern_bounds cs =
     (case closing (hd cs) of
        None \<Rightarrow> Raise RegexError
      | Some right \<Rightarrow>
          bnd (extract_sub_pattern (hd cs) right (tl cs)) (\<lambda>k.
          bnd (extract_repetition (drop (Suc k) cs)) (\<lambda>r. Ret (Suc k, Suc k + r))))"

lemma pattern_bounds_pos: "pattern_bounds cs = Ret (indicator, end_index) \<Longrightarrow> 0 < end_index"
  by (auto simp: pattern_bounds_def bnd_eq_Ret split: option.splits)

function (sequential) pattern_list_init :: "compiler \<Rightarrow> string \<Rightarrow> nat \<Rightarrow> (matcher list \<times> nat) outcome"
  and back_ref_init :: "compiler \<Rightarrow> string \<Rightarrow> nat \<Rightarrow> (matcher \<times> nat) outcome"
  where
  "pattern_list_init compile [] n = Ret ([], n)"
| "pattern_list_init compile (c # cs) n =
     bnd (pattern_bounds (c # cs)) (\<lambda>(indicator, end_index).
     bnd (if c = CHR ''('' then
            if indicator = end_index then back_ref_init compile (take end_index (c # cs)) n
            else repeat_init (back_ref_init compile (take indicator (c # cs)) n)
                   (drop indicator (take end_index (c # cs)))
          else repeat_init (component_set_init compile (take indicator (c # cs)) n)
                 (drop indicator (take end_index (c # cs)))) (\<lambda>(m, n').
     bnd (pattern_list_init compile (drop end_index (c # cs)) n') (\<lambda>(ms, n''). Ret (m # ms, n''))))"
| "back_ref_init compile [] n = Raise IndexError"
| "back_ref_init compile (c # cs) n =
     (if c = CHR ''('' \<and> last (c # cs) = CHR '')'' then
        bnd (pattern_list_init compile (butlast cs) (n + 1)) (\<lambda>(ms, n').
          Ret (BackRefMatcher n (PatternListMatcher ms), n'))
      else Raise RegexError)"
  by pat_completeness auto
termination
  by (relation "measure (\<lambda>x. case x of Inl (_, cs, _) \<Rightarrow> 2 * length cs + 1 | Inr (_, cs, _) \<Rightarrow> 2 * length cs)")
    (auto dest: pattern_bounds_pos simp: min_def)

subsection \<open>Patterns\<close>

text \<open>The syntax that the constructors read, its printing, and the matchers that it stands for.\<close>

datatype repetition =
    Once | Optional | Plus | Star
  | Between string string | AtLeast string | AtMost string | Exactly string

fun print_repetition :: "repetition \<Rightarrow> string" where
  "print_repetition Once = []"
| "print_repetition Optional = ''?''"
| "print_repetition Plus = ''+''"
| "print_repetition Star = ''*''"
| "print_repetition (Between a b) = ''{'' @ a @ '','' @ b @ ''}''"
| "print_repetition (AtLeast a) = ''{'' @ a @ '',}''"
| "print_repetition (AtMost b) = ''{,'' @ b @ ''}''"
| "print_repetition (Exactly a) = ''{'' @ a @ ''}''"

fun bounds :: "repetition \<Rightarrow> nat \<times> nat" where
  "bounds Once = (1, 1)"
| "bounds Optional = (0, 1)"
| "bounds Plus = (1, maxint)"
| "bounds Star = (0, maxint)"
| "bounds (Between a b) = (number a, number b)"
| "bounds (AtLeast a) = (number a, maxint)"
| "bounds (AtMost b) = (0, number b)"
| "bounds (Exactly a) = (number a, number a)"

fun numerals :: "repetition \<Rightarrow> string list" where
  "numerals (Between a b) = [a, b]"
| "numerals (AtLeast a) = [a]"
| "numerals (AtMost b) = [b]"
| "numerals (Exactly a) = [a]"
| "numerals _ = []"

definition repetition_ok :: "repetition \<Rightarrow> bool" where
  "repetition_ok r \<longleftrightarrow> list_all digits (numerals r) \<and> fst (bounds r) \<le> snd (bounds r) \<and> snd (bounds r) \<le> maxint"

datatype pattern =
    Single string repetition
  | Components bool "string list" repetition
  | Group "pattern list" repetition

primrec repetition_of :: "pattern \<Rightarrow> repetition" where
  "repetition_of (Single e r) = r"
| "repetition_of (Components incl es r) = r"
| "repetition_of (Group ps r) = r"

primrec bracket_of :: "pattern \<Rightarrow> char \<times> char" where
  "bracket_of (Single e r) = (CHR ''<'', CHR ''>'')"
| "bracket_of (Components incl es r) = (CHR ''['', CHR '']'')"
| "bracket_of (Group ps r) = (CHR ''('', CHR '')'')"

primrec print :: "pattern \<Rightarrow> string" where
  "print (Single e r) = (''<'' @ e @ ''>'') @ print_repetition r"
| "print (Components incl es r) =
     (''['' @ ((if incl then [] else ''^'') @ concat (map (\<lambda>e. ''<'' @ e @ ''>'') es)) @ '']'') @ print_repetition r"
| "print (Group ps r) = (''('' @ concat (map print ps) @ '')'') @ print_repetition r"

text \<open>What stands between the brackets of a pattern.\<close>

primrec inner :: "pattern \<Rightarrow> string" where
  "inner (Single e r) = e"
| "inner (Components incl es r) = (if incl then [] else ''^'') @ concat (map (\<lambda>e. ''<'' @ e @ ''>'') es)"
| "inner (Group ps r) = concat (map print ps)"

definition body :: "pattern \<Rightarrow> string" where
  "body p = fst (bracket_of p) # inner p @ [snd (bracket_of p)]"

definition print_all :: "pattern list \<Rightarrow> string" where
  "print_all ps = concat (map print ps)"

definition group_count :: "compiler \<Rightarrow> string \<Rightarrow> nat" where
  "group_count compile e = (case compile e of Inl x \<Rightarrow> 0 | Inr k \<Rightarrow> k)"

fun component_matchers :: "compiler \<Rightarrow> string list \<Rightarrow> nat \<Rightarrow> matcher list \<times> nat" where
  "component_matchers compile [] n = ([], n)"
| "component_matchers compile (e # es) n =
     (let (ms, n') = component_matchers compile es (n + group_count compile e) in (ComponentMatcher e n # ms, n'))"

definition repeated :: "repetition \<Rightarrow> matcher \<times> nat \<Rightarrow> matcher \<times> nat" where
  "repeated r mn = (RepeatMatcher (fst mn) (fst (bounds r)) (snd (bounds r)), snd mn)"

fun matcher_of :: "compiler \<Rightarrow> pattern \<Rightarrow> nat \<Rightarrow> matcher \<times> nat"
  and matchers_of :: "compiler \<Rightarrow> pattern list \<Rightarrow> nat \<Rightarrow> matcher list \<times> nat"
  where
  "matcher_of compile (Single e r) n =
     repeated r (ComponentSetMatcher True [ComponentMatcher e n], n + group_count compile e)"
| "matcher_of compile (Components incl es r) n =
     repeated r (let (ms, n') = component_matchers compile es n in (ComponentSetMatcher incl ms, n'))"
| "matcher_of compile (Group ps r) n =
     (let (ms, n') = matchers_of compile ps (n + 1); m = (BackRefMatcher n (PatternListMatcher ms), n') in
      if r = Once then m else repeated r m)"
| "matchers_of compile [] n = ([], n)"
| "matchers_of compile (p # ps) n =
     (let (m, n') = matcher_of compile p n; (ms, n'') = matchers_of compile ps n' in (m # ms, n''))"

text \<open>
  What can be printed and read again: the brackets inside a component's expression are balanced, as
  the constructors count brackets wherever they are.
\<close>

fun depth :: "char \<Rightarrow> char \<Rightarrow> nat \<Rightarrow> string \<Rightarrow> nat option" where
  "depth left right d [] = Some d"
| "depth left right d (c # cs) =
     (if c = left then depth left right (Suc d) cs
      else if c = right then (case d of 0 \<Rightarrow> None | Suc d' \<Rightarrow> depth left right d' cs)
      else depth left right d cs)"

definition balanced :: "char \<times> char \<Rightarrow> string \<Rightarrow> bool" where
  "balanced lr s \<longleftrightarrow> depth (fst lr) (snd lr) 0 s = Some 0"

definition brackets :: "(char \<times> char) list" where
  "brackets = [(CHR ''('', CHR '')''), (CHR ''<'', CHR ''>''), (CHR ''['', CHR '']'')]"

definition component_ok :: "compiler \<Rightarrow> string \<Rightarrow> bool" where
  "component_ok compile e \<longleftrightarrow> list_all (\<lambda>lr. balanced lr e) brackets \<and> (\<exists>k. compile e = Inr k)"

primrec printable :: "compiler \<Rightarrow> pattern \<Rightarrow> bool" where
  "printable compile (Single e r) = (component_ok compile e \<and> repetition_ok r)"
| "printable compile (Components incl es r) = (list_all (component_ok compile) es \<and> repetition_ok r)"
| "printable compile (Group ps r) = (list_all id (map (printable compile) ps) \<and> repetition_ok r)"

subsection \<open>Balanced text\<close>

lemma depth_append: "depth left right d (s @ t) = Option.bind (depth left right d s) (\<lambda>d. depth left right d t)"
  by (induction left right d s rule: depth.induct) (auto split: nat.splits)

lemma depth_shift: "depth left right d s = Some d' \<Longrightarrow> depth left right (d + k) s = Some (d' + k)"
  by (induction left right d s rule: depth.induct) (auto split: nat.splits if_splits)

lemma balanced_depth: "balanced (left, right) s \<Longrightarrow> depth left right d s = Some d"
  using depth_shift [of left right 0 s 0 d] by (simp add: balanced_def)

lemma balanced_append: "balanced lr s \<Longrightarrow> balanced lr t \<Longrightarrow> balanced lr (s @ t)"
  by (simp add: balanced_def depth_append)

lemma balanced_concat: "\<forall>s \<in> set ss. balanced lr s \<Longrightarrow> balanced lr (concat ss)"
  by (induction ss) (auto simp: balanced_append, simp add: balanced_def)

lemma balanced_other: "fst lr \<notin> set s \<Longrightarrow> snd lr \<notin> set s \<Longrightarrow> balanced lr s"
proof -
  have "left \<notin> set s \<Longrightarrow> right \<notin> set s \<Longrightarrow> depth left right d s = Some d" for left right d
    by (induction s) auto
  then show "fst lr \<notin> set s \<Longrightarrow> snd lr \<notin> set s \<Longrightarrow> balanced lr s"
    by (simp add: balanced_def)
qed

lemma balanced_bracketed:
  assumes "balanced lr s" "lr \<in> set brackets" "lr' \<in> set brackets"
  shows "balanced lr (fst lr' # s @ [snd lr'])"
proof -
  obtain left right where lr: "lr = (left, right)" by (cases lr)
  have "left \<noteq> right" using assms(2) lr by (auto simp: brackets_def)
  then have "balanced lr ([left] @ s @ [right])"
    using assms(1) lr by (simp add: balanced_def depth_append depth_shift [of left right 0 s 0 1, simplified])
  moreover have "balanced lr ([fst lr'] @ s @ [snd lr'])" if "lr' \<noteq> lr"
  proof (intro balanced_append assms(1))
    show "balanced lr [fst lr']" "balanced lr [snd lr']"
      using that assms(2,3) by (auto simp: brackets_def balanced_def)
  qed
  ultimately show ?thesis
    using lr by (cases "lr' = lr") auto
qed

lemma digit_not: "digits ds \<Longrightarrow> c \<in> set ds \<Longrightarrow> 48 \<le> (of_char c :: nat) \<and> (of_char c :: nat) \<le> 57"
  by (auto simp: digits_def list_all_iff is_digit_def)

lemma digits_no [simp]:
  "digits ds \<Longrightarrow> CHR ''('' \<notin> set ds" "digits ds \<Longrightarrow> CHR '')'' \<notin> set ds"
  "digits ds \<Longrightarrow> CHR ''<'' \<notin> set ds" "digits ds \<Longrightarrow> CHR ''>'' \<notin> set ds"
  "digits ds \<Longrightarrow> CHR ''['' \<notin> set ds" "digits ds \<Longrightarrow> CHR '']'' \<notin> set ds"
  "digits ds \<Longrightarrow> CHR '','' \<notin> set ds" "digits ds \<Longrightarrow> CHR ''}'' \<notin> set ds"
  by (auto dest: digit_not)

lemma balanced_repetition:
  "repetition_ok r \<Longrightarrow> lr \<in> set brackets \<Longrightarrow> balanced lr (print_repetition r)"
  by (rule balanced_other; cases r) (auto simp: repetition_ok_def brackets_def)

lemma balanced_components:
  assumes "list_all (component_ok compile) es" "lr \<in> set brackets"
  shows "balanced lr (concat (map (\<lambda>e. ''<'' @ e @ ''>'') es))"
proof (rule balanced_concat, clarsimp)
  fix e assume "e \<in> set es"
  then have "balanced lr e"
    using assms by (auto simp: list_all_iff component_ok_def)
  from balanced_bracketed [OF this assms(2), of "(CHR ''<'', CHR ''>'')"]
  show "balanced lr (CHR ''<'' # e @ ''>'')" by (simp add: brackets_def)
qed

lemma balanced_hat: "lr \<in> set brackets \<Longrightarrow> balanced lr ''^''"
  by (rule balanced_other) (auto simp: brackets_def)

lemma balanced_Nil [simp]: "balanced lr []"
  by (simp add: balanced_def)

lemma bracket_of_brackets [simp]: "bracket_of p \<in> set brackets"
  by (cases p) (auto simp: brackets_def)

lemma print_body: "print p = body p @ print_repetition (repetition_of p)"
  by (cases p) (simp_all add: body_def)

lemma printable_repetition: "printable compile p \<Longrightarrow> repetition_ok (repetition_of p)"
  by (cases p) simp_all

lemma balanced_print_inner:
  assumes "printable compile p" "lr \<in> set brackets" "balanced lr (inner p)"
  shows "balanced lr (print p)"
  using balanced_append [OF balanced_bracketed [OF assms(3,2) bracket_of_brackets [of p]]
      balanced_repetition [OF printable_repetition [OF assms(1)] assms(2)]]
  by (simp only: print_body body_def)

lemma balanced_inner:
  assumes "lr \<in> set brackets"
  shows "printable compile p \<Longrightarrow> balanced lr (inner p)"
proof (induction p)
  case (Single e r)
  then show ?case using assms by (auto simp: component_ok_def list_all_iff)
next
  case (Components incl es r)
  then show ?case
    using assms balanced_components [of compile es lr] balanced_append [OF balanced_hat [of lr]] by simp
next
  case (Group ps r)
  then show ?case
    using assms by (auto simp: list_all_iff intro!: balanced_concat balanced_print_inner)
qed

subsection \<open>Reading what was printed\<close>

lemma scan_sub_pattern_Cons:
  "rcount < lcount \<Longrightarrow> scan_sub_pattern left right lcount rcount (c # cs) =
     bnd (scan_sub_pattern left right (if left = c then lcount + 1 else lcount)
           (if right = c then rcount + 1 else rcount) cs) (\<lambda>k. Ret (Suc k))"
  by (subst scan_sub_pattern.simps) simp

lemma scan_sub_pattern_depth:
  assumes "left \<noteq> right"
  shows "depth left right d s = Some d' \<Longrightarrow>
    \<exists>rc'. scan_sub_pattern left right (rc + Suc d) rc (s @ rest)
      = bnd (scan_sub_pattern left right (rc' + Suc d') rc' rest) (\<lambda>k. Ret (length s + k))"
  using assms
proof (induction left right d s arbitrary: rc rule: depth.induct)
  case (1 left right d)
  then show ?case by (auto intro: exI [of _ rc])
next
  case (2 left right d c cs)
  consider "c = left" "right \<noteq> c" | e where "c = right" "left \<noteq> c" "d = Suc e" | "left \<noteq> c" "right \<noteq> c"
    using 2(4,5) by (cases d) (auto split: if_splits)
  then show ?case
  proof cases
    case 1
    with 2(1) [of rc] 2(4,5) show ?thesis
      by (auto simp: scan_sub_pattern_Cons bnd_assoc)
  next
    case 2
    with "2.IH"(2) [of e "Suc rc"] "2.prems" show ?thesis
      by (auto simp: scan_sub_pattern_Cons bnd_assoc)
  next
    case 3
    with "2.IH"(3) [of rc] "2.prems" show ?thesis
      by (auto simp: scan_sub_pattern_Cons bnd_assoc)
  qed
qed

lemma extract_sub_pattern_balanced:
  assumes "balanced (left, right) s" "left \<noteq> right"
  shows "extract_sub_pattern left right (s @ right # rest) = Ret (Suc (length s))"
proof -
  obtain rc' where "scan_sub_pattern left right (0 + Suc 0) 0 (s @ right # rest)
      = bnd (scan_sub_pattern left right (rc' + Suc 0) rc' (right # rest)) (\<lambda>k. Ret (length s + k))"
    using scan_sub_pattern_depth [OF assms(2) balanced_depth [OF assms(1)]] by blast
  then show ?thesis
    using assms(2) by (simp add: extract_sub_pattern_def scan_sub_pattern_Cons)
      (simp add: scan_sub_pattern.simps)
qed

text \<open>The loop of \<^verbatim>\<open>_extractComponent\<close> counts as that of \<^verbatim>\<open>_extractSubPattern\<close>.\<close>

lemma scan_component_sub_pattern:
  "scan_sub_pattern (CHR ''<'') (CHR ''>'') lcount rcount cs = Ret k \<Longrightarrow> scan_component lcount rcount cs = k"
proof (induction cs arbitrary: lcount rcount k)
  case Nil
  then show ?case
    by (auto simp: scan_sub_pattern.simps scan_component.simps split: if_splits)
next
  case (Cons c cs)
  then show ?case
    by (subst scan_component.simps)
      (auto simp: scan_sub_pattern.simps [of _ _ _ _ "_ # _"] bnd_eq_Ret split: if_splits)
qed

lemma extract_component_balanced:
  "balanced (CHR ''<'', CHR ''>'') e \<Longrightarrow> extract_component (e @ CHR ''>'' # rest) = Suc (length e)"
  using extract_sub_pattern_balanced [of "CHR ''<''" "CHR ''>''" e rest]
  by (simp add: extract_component_def extract_sub_pattern_def scan_component_sub_pattern)

text \<open>Where the next pattern begins.\<close>

definition starts :: "string \<Rightarrow> bool" where
  "starts cs \<longleftrightarrow> (case cs of [] \<Rightarrow> True | c # _ \<Rightarrow> c \<in> fst ` set brackets)"

lemma extract_repetition_starts [simp]: "starts cs \<Longrightarrow> extract_repetition cs = Ret 0"
  by (auto simp: starts_def extract_repetition_def brackets_def split: list.splits)

lemma while_other:
  "x \<notin> set xs \<Longrightarrow> takeWhile (\<lambda>c. c \<noteq> x) (xs @ x # ys) = xs"
  "x \<notin> set xs \<Longrightarrow> dropWhile (\<lambda>c. c \<noteq> x) (xs @ x # ys) = x # ys"
  "x \<notin> set xs \<Longrightarrow> takeWhile (\<lambda>c. c \<noteq> x) xs = xs"
  "x \<notin> set xs \<Longrightarrow> dropWhile (\<lambda>c. c \<noteq> x) xs = []"
  by (induction xs) auto

lemma extract_repetition_braces:
  "CHR ''}'' \<notin> set xs \<Longrightarrow> extract_repetition (CHR ''{'' # xs @ CHR ''}'' # rest) = Ret (length xs + 2)"
  by (simp add: extract_repetition_def while_other)

lemma extract_repetition_print:
  assumes "repetition_ok r" "starts rest"
  shows "extract_repetition (print_repetition r @ rest) = Ret (length (print_repetition r))"
proof (cases r)
  case (Between a b)
  then show ?thesis
    using assms extract_repetition_braces [of "a @ CHR '','' # b" rest] by (simp add: repetition_ok_def)
next
  case (AtLeast a)
  then show ?thesis
    using assms extract_repetition_braces [of "a @ '',''" rest] by (simp add: repetition_ok_def)
next
  case (AtMost b)
  then show ?thesis
    using assms extract_repetition_braces [of "CHR '','' # b" rest] by (simp add: repetition_ok_def)
next
  case (Exactly a)
  then show ?thesis
    using assms extract_repetition_braces [of a rest] by (simp add: repetition_ok_def)
qed (use assms in \<open>simp_all add: extract_repetition_def [of "_ # _"]\<close>)

lemma not_digits_Nil [simp]: "\<not> digits []"
  by (simp add: digits_def)

lemma parse_braces_simps:
  "digits a \<Longrightarrow> digits b \<Longrightarrow> parse_braces (CHR ''{'' # a @ CHR '','' # b @ ''}'') = Ret (number a, number b)"
  "digits a \<Longrightarrow> parse_braces (CHR ''{'' # a @ '',}'') = Ret (number a, maxint)"
  "digits b \<Longrightarrow> parse_braces (CHR ''{'' # CHR '','' # b @ ''}'') = Ret (0, number b)"
  "digits a \<Longrightarrow> parse_braces (CHR ''{'' # a @ ''}'') = Ret (number a, number a)"
  by (simp_all add: parse_braces_def butlast_append while_other Let_def)

lemma parse_repetition_print: "repetition_ok r \<Longrightarrow> parse_repetition (print_repetition r) = Ret (bounds r)"
  by (cases r) (auto simp: parse_repetition_def repetition_ok_def parse_braces_simps maxint_def)

lemma pattern_bounds_print:
  assumes "printable compile p" "starts rest"
  shows "pattern_bounds (print p @ rest) = Ret (length (body p), length (print p))"
proof -
  obtain left right where lr: "bracket_of p = (left, right)" by fastforce
  then have "(left, right) \<in> set brackets" using bracket_of_brackets [of p] by simp
  then have closing: "closing left = Some right" "left \<noteq> right"
    by (auto simp: brackets_def closing_def)
  have "balanced (left, right) (inner p)"
    using balanced_inner [OF \<open>(left, right) \<in> set brackets\<close> assms(1)] .
  then have "extract_sub_pattern left right (inner p @ right # print_repetition (repetition_of p) @ rest)
      = Ret (Suc (length (inner p)))"
    by (rule extract_sub_pattern_balanced) (rule closing(2))
  then show ?thesis
    using extract_repetition_print [OF printable_repetition [OF assms(1)] assms(2)] lr closing
    by (simp add: pattern_bounds_def print_body body_def)
qed

lemma component_init_ok:
  "component_ok compile e \<Longrightarrow> component_init compile e n = Ret (ComponentMatcher e n, n + group_count compile e)"
  by (auto simp: component_ok_def component_init_def group_count_def)

lemma component_ok_balanced: "component_ok compile e \<Longrightarrow> balanced (CHR ''<'', CHR ''>'') e"
  by (simp add: component_ok_def brackets_def)

lemma compile_multiple_print:
  "list_all (component_ok compile) es \<Longrightarrow>
     compile_multiple compile (concat (map (\<lambda>e. ''<'' @ e @ ''>'') es) @ '']'') n = Ret (component_matchers compile es n)"
proof (induction es arbitrary: n)
  case Nil
  then show ?case by (simp add: compile_multiple.simps)
next
  case (Cons e es)
  then have "extract_component (e @ CHR ''>'' # rest) = Suc (length e)" for rest
    by (intro extract_component_balanced component_ok_balanced [of compile]) simp
  with Cons show ?case
    by (subst compile_multiple.simps) (simp add: component_init_ok Let_def case_prod_beta)
qed

lemma component_set_init_single:
  "component_ok compile e \<Longrightarrow> component_set_init compile (CHR ''<'' # e @ ''>'') n
     = Ret (ComponentSetMatcher True [ComponentMatcher e n], n + group_count compile e)"
  by (simp add: component_set_init_def extract_component_balanced component_ok_balanced component_init_ok)

lemma component_set_init_components:
  assumes "list_all (component_ok compile) es"
  shows "component_set_init compile (body (Components incl es r)) n
     = Ret (let (ms, n') = component_matchers compile es n in (ComponentSetMatcher incl ms, n'))"
proof (cases incl)
  case True
  have "(concat (map (\<lambda>e. CHR ''<'' # e @ ''>'') es) @ '']'') ! 0 \<noteq> CHR ''^''"
    by (cases es) auto
  then show ?thesis
    using True compile_multiple_print [OF assms, of n]
    by (simp add: component_set_init_def body_def case_prod_beta)
next
  case False
  then show ?thesis
    using compile_multiple_print [OF assms, of n]
    by (simp add: component_set_init_def body_def case_prod_beta)
qed

lemma repeat_init_print:
  "repetition_ok r \<Longrightarrow> repeat_init (Ret mn) (print_repetition r) = Ret (repeated r mn)"
  by (cases mn) (simp add: repeat_init_def parse_repetition_print repeated_def case_prod_beta)

definition read_one :: "compiler \<Rightarrow> pattern \<Rightarrow> nat \<Rightarrow> (matcher \<times> nat) outcome" where
  "read_one compile p n =
     (case p of
        Group ps r \<Rightarrow>
          if r = Once then back_ref_init compile (body p) n
          else repeat_init (back_ref_init compile (body p) n) (print_repetition r)
      | _ \<Rightarrow> repeat_init (component_set_init compile (body p) n) (print_repetition (repetition_of p)))"

lemma print_repetition_Nil [simp]: "print_repetition r = [] \<longleftrightarrow> r = Once"
  by (cases r) auto

lemma pattern_list_init_not_Nil:
  "cs \<noteq> [] \<Longrightarrow> pattern_list_init compile cs n =
     bnd (pattern_bounds cs) (\<lambda>(indicator, end_index).
     bnd (if hd cs = CHR ''('' then
            if indicator = end_index then back_ref_init compile (take end_index cs) n
            else repeat_init (back_ref_init compile (take indicator cs) n) (drop indicator (take end_index cs))
          else repeat_init (component_set_init compile (take indicator cs) n) (drop indicator (take end_index cs)))
       (\<lambda>(m, n').
     bnd (pattern_list_init compile (drop end_index cs) n') (\<lambda>(ms, n''). Ret (m # ms, n''))))"
  by (cases cs) (simp, simp only: pattern_list_init.simps list.sel)

lemma pattern_list_init_print:
  assumes "printable compile p" "starts rest"
  shows "pattern_list_init compile (print p @ rest) n = bnd (read_one compile p n) (\<lambda>(m, n').
    bnd (pattern_list_init compile rest n') (\<lambda>(ms, n''). Ret (m # ms, n'')))"
proof -
  have first: "print p @ rest \<noteq> []" "hd (print p @ rest) = fst (bracket_of p)"
    by (simp_all add: print_body body_def)
  have parts: "take (length (body p)) (print p) = body p"
    "drop (length (body p)) (print p) = print_repetition (repetition_of p)"
    "length (body p) \<le> length (print p)" "length (body p) = length (print p) \<longleftrightarrow> repetition_of p = Once"
    "repetition_of p = Once \<Longrightarrow> print p = body p"
    by (simp_all add: print_body)
  show ?thesis
    unfolding pattern_list_init_not_Nil [OF first(1)] pattern_bounds_print [OF assms] first(2)
    by (cases p) (use parts in \<open>simp_all add: read_one_def del: print.simps\<close>)
qed

lemma starts_print_all: "starts (print_all ps)"
proof (cases ps)
  case (Cons p ps')
  then show ?thesis
    using bracket_of_brackets [of p] by (simp add: starts_def print_all_def print_body body_def)
qed (simp add: starts_def print_all_def)

lemma back_ref_init_group:
  "back_ref_init compile (body (Group ps r)) n =
     bnd (pattern_list_init compile (print_all ps) (n + 1)) (\<lambda>(ms, n').
       Ret (BackRefMatcher n (PatternListMatcher ms), n'))"
  by (simp add: body_def print_all_def)

lemma reads_printed:
  "printable compile p \<Longrightarrow> read_one compile p n = Ret (matcher_of compile p n)"
  "list_all (printable compile) ps \<Longrightarrow> pattern_list_init compile (print_all ps) n = Ret (matchers_of compile ps n)"
proof (induction compile p n and compile ps n rule: matcher_of_matchers_of.induct)
  case (1 compile e r n)
  then show ?case
    by (simp add: read_one_def body_def component_set_init_single repeat_init_print)
next
  case (2 compile incl es r n)
  then show ?case
    by (simp add: read_one_def component_set_init_components repeat_init_print)
next
  case (3 compile ps r n)
  then show ?case
    by (simp add: read_one_def back_ref_init_group repeat_init_print list_all_iff Let_def case_prod_beta)
next
  case (4 compile n)
  then show ?case by (simp add: print_all_def)
next
  case (5 compile p ps n)
  have "print_all (p # ps) = print p @ print_all ps" by (simp add: print_all_def)
  then show ?case
    using 5 by (cases "matcher_of compile p n") (simp add: pattern_list_init_print starts_print_all Let_def case_prod_beta)
qed

subsection \<open>Refusals\<close>

text \<open>
  What the constructors raise, whatever the text: their own error, or what \<^verbatim>\<open>re.compile\<close>
  raised for a part of the text. A
  repetition handed to \<^verbatim>\<open>_parseRepetition\<close> was cut out by \<^verbatim>\<open>_extractRepetition\<close>, so no attribute
  is left unset, and what stands between brackets has them.
\<close>

definition refuses :: "compiler \<Rightarrow> string \<Rightarrow> 'a outcome \<Rightarrow> bool" where
  "refuses compile cs m \<longleftrightarrow>
     (case m of
        Ret _ \<Rightarrow> True
      | Raise x \<Rightarrow> x = RegexError \<or> (\<exists>e. sublist e cs \<and> compile e = Inl x)
      | _ \<Rightarrow> False)"

lemma refuses_simps [simp]: "refuses compile cs (Ret x)" "refuses compile cs (Raise RegexError)"
  by (simp_all add: refuses_def)

lemma refuses_bnd:
  "refuses compile cs m \<Longrightarrow> (\<And>x. m = Ret x \<Longrightarrow> refuses compile cs (k x)) \<Longrightarrow> refuses compile cs (bnd m k)"
  by (cases m) (simp_all add: refuses_def)

lemma refuses_mono: "refuses compile cs m \<Longrightarrow> sublist cs cs' \<Longrightarrow> refuses compile cs' m"
  using sublist_order.order_trans by (fastforce simp: refuses_def split: outcome.splits)

lemma refuses_scan: "refuses compile cs' (scan_sub_pattern left right lcount rcount cs)"
  by (induction cs arbitrary: lcount rcount; subst scan_sub_pattern.simps) (auto intro: refuses_bnd)

lemma refuses_pattern_bounds: "refuses compile cs' (pattern_bounds cs)"
  by (auto simp: pattern_bounds_def extract_sub_pattern_def extract_repetition_def Let_def
      intro!: refuses_bnd refuses_scan split: option.splits list.splits)

definition repetition_cut :: "string \<Rightarrow> bool" where
  "repetition_cut cs \<longleftrightarrow> cs \<in> {[], ''?'', ''+'', ''*''} \<or> 1 < length cs"

lemma extract_repetition_cut: "extract_repetition cs = Ret r \<Longrightarrow> repetition_cut (take r cs)"
  by (cases cs) (auto simp: extract_repetition_def repetition_cut_def Let_def split: if_splits)

lemma pattern_bounds_cut:
  "pattern_bounds cs = Ret (indicator, end_index) \<Longrightarrow>
     0 < indicator \<and> indicator \<le> end_index \<and> repetition_cut (drop indicator (take end_index cs))"
  by (auto simp: pattern_bounds_def bnd_eq_Ret drop_take extract_repetition_cut split: option.splits)

lemma refuses_if: "(b \<Longrightarrow> refuses compile cs m) \<Longrightarrow> (\<not> b \<Longrightarrow> refuses compile cs m') \<Longrightarrow> refuses compile cs (if b then m else m')"
  by simp

lemma refuses_parse_braces: "refuses compile cs' (parse_braces cs)"
  unfolding parse_braces_def Let_def by (intro refuses_if) simp_all

lemma refuses_parse_repetition: "repetition_cut cs \<Longrightarrow> refuses compile cs' (parse_repetition cs)"
  unfolding repetition_cut_def parse_repetition_def
  by (intro refuses_if refuses_bnd refuses_parse_braces) (auto simp: case_prod_beta)

lemma refuses_component_init: "sublist e cs \<Longrightarrow> refuses compile cs (component_init compile e n)"
  by (auto simp: component_init_def refuses_def split: sum.split)

lemma sublist_inside: "sublist (take k (drop j cs)) cs" "sublist (take k (tl cs)) cs" "sublist (drop k (tl cs)) cs"
  by (metis sublist_order.order_trans sublist_take sublist_drop sublist_tl)+

text \<open>What a part of the text is refused with, the whole is.\<close>

lemma refuses_part:
  "refuses compile (drop k (tl cs)) (compile_multiple compile (drop k (tl cs)) n)
     \<Longrightarrow> refuses compile cs (compile_multiple compile (drop k (tl cs)) n)"
  "refuses compile (drop k cs) (pattern_list_init compile (drop k cs) n)
     \<Longrightarrow> refuses compile cs (pattern_list_init compile (drop k cs) n)"
  "refuses compile (take k cs) (back_ref_init compile (take k cs) n)
     \<Longrightarrow> refuses compile cs (back_ref_init compile (take k cs) n)"
  by (erule refuses_mono, simp add: sublist_inside)+

lemma refuses_compile_multiple: "refuses compile cs (compile_multiple compile cs n)"
proof (induction compile cs n rule: compile_multiple.induct)
  case (1 compile cs n)
  then show ?case
    by (subst compile_multiple.simps)
      (auto simp: Let_def intro!: refuses_bnd refuses_component_init sublist_inside refuses_part(1))
qed

lemma refuses_component_set_init: "refuses compile cs (component_set_init compile cs n)"
  by (auto simp: component_set_init_def Let_def
      intro!: refuses_bnd refuses_component_init sublist_inside refuses_mono [OF refuses_compile_multiple])

lemma refuses_repeat_init:
  "refuses compile cs' m \<Longrightarrow> repetition_cut cs \<Longrightarrow> refuses compile cs' (repeat_init m cs)"
  by (auto simp: repeat_init_def intro!: refuses_bnd refuses_parse_repetition)

lemma refuses_pattern_list_init:
  "refuses compile cs (pattern_list_init compile cs n)"
  "cs \<noteq> [] \<Longrightarrow> refuses compile cs (back_ref_init compile cs n)"
proof (induction compile cs n and compile cs n rule: pattern_list_init_back_ref_init.induct)
  case (2 compile c cs n)
  let ?cs = "c # cs"
  show ?case
    unfolding pattern_list_init.simps
  proof (rule refuses_bnd [OF refuses_pattern_bounds], clarify)
    fix indicator end_index
    assume bounds: "pattern_bounds ?cs = Ret (indicator, end_index)"
    note cut = pattern_bounds_cut [OF bounds]
    have set: "refuses compile ?cs (component_set_init compile (take k ?cs) n)" for k
      by (rule refuses_mono [OF refuses_component_set_init sublist_take])
    from 2 bounds cut
    show "refuses compile ?cs
       (bnd (if c = CHR ''('' then
               if indicator = end_index then back_ref_init compile (take end_index (c # cs)) n
               else repeat_init (back_ref_init compile (take indicator (c # cs)) n)
                      (drop indicator (take end_index (c # cs)))
             else repeat_init (component_set_init compile (take indicator (c # cs)) n)
                    (drop indicator (take end_index (c # cs))))
         (\<lambda>(m, n'). bnd (pattern_list_init compile (drop end_index (c # cs)) n') (\<lambda>(ms, n''). Ret (m # ms, n''))))"
      by (auto intro!: refuses_bnd refuses_repeat_init set refuses_part(2,3))
  qed
next
  case (4 compile c cs n)
  have "sublist (butlast cs) (c # cs)"
    by (metis list.sel(3) sublist_butlast sublist_order.order_trans sublist_tl)
  with 4 show ?case
    by (auto intro!: refuses_bnd intro: refuses_mono)
qed simp_all

end
