(* ===== verification/NreM.thy ===== *)
theory NreM
  imports NreParse NameClass
begin

section \<open>Name patterns: python/ndn/nre.py\<close>

text \<open>
  The class \<^verbatim>\<open>RegexMatcher\<close> and the function \<^verbatim>\<open>match\<close> over the constructors of
  \<open>NreParse\<close> and the matchers of \<open>NreMatch\<close>; and what a pattern means, as a set of names, against
  which both ways of matching are proved.
\<close>

subsection \<open>What a pattern means\<close>

abbreviation powers :: "repetition \<Rightarrow> 'a list set \<Rightarrow> 'a list set" where
  "powers r A \<equiv> \<Union>n \<in> {fst (bounds r)..snd (bounds r)}. conc_power n A"

primrec pattern_lang :: "regex \<Rightarrow> pattern \<Rightarrow> bytes list set" where
  "pattern_lang re (Single e r) = powers r (component_lang re e)"
| "pattern_lang re (Components incl es r) =
     powers r {[c] |c. (\<exists>e \<in> set es. [c] \<in> component_lang re e) = incl}"
| "pattern_lang re (Group ps r) = powers r (foldr conc (map (pattern_lang re) ps) {[]})"

definition patterns_lang :: "regex \<Rightarrow> pattern list \<Rightarrow> bytes list set" where
  "patterns_lang re ps = foldr conc (map (pattern_lang re) ps) {[]}"

text \<open>Patterns that accept the empty name, and patterns that repeat no group that does.\<close>

primrec optional :: "pattern \<Rightarrow> bool" where
  "optional (Single e r) = (fst (bounds r) = 0)"
| "optional (Components incl es r) = (fst (bounds r) = 0)"
| "optional (Group ps r) = (fst (bounds r) = 0 \<or> list_all id (map optional ps))"

primrec steady :: "pattern \<Rightarrow> bool" where
  "steady (Single e r) = True"
| "steady (Components incl es r) = True"
| "steady (Group ps r) = (list_all id (map steady ps) \<and> (r = Once \<or> \<not> list_all id (map optional ps)))"

lemma conc_Nil [simp]: "conc A {[]} = A"
  by (auto simp: conc_def)

lemma powers_Once [simp]: "powers Once A = A"
  by simp

lemma component_matchers_shape [simp]:
  "list_all is_component (fst (component_matchers compile es n))"
  "map (lang re) (fst (component_matchers compile es n)) = map (component_lang re) es"
  by (induction es arbitrary: n) (simp_all add: Let_def case_prod_beta)

lemma lang_matcher_of:
  "lang re (fst (matcher_of compile p n)) = pattern_lang re p"
  "map (lang re) (fst (matchers_of compile ps n)) = map (pattern_lang re) ps"
proof (induction compile p n and compile ps n rule: matcher_of_matchers_of.induct)
  case (2 compile incl es r n)
  then show ?case
    by (simp add: repeated_def Let_def case_prod_beta del: set_map) simp
next
  case (5 compile p ps n)
  then show ?case
    by (cases "matcher_of compile p n") (simp add: Let_def case_prod_beta)
qed (auto simp: repeated_def Let_def case_prod_beta component_lang_def)

lemma shape_matcher_of:
  "printable compile p \<Longrightarrow> formed (fst (matcher_of compile p n))
     \<and> nullable (fst (matcher_of compile p n)) = optional p \<and> solid (fst (matcher_of compile p n)) = steady p"
  "list_all (printable compile) ps \<Longrightarrow> list_all formed (fst (matchers_of compile ps n))
     \<and> list_all nullable (fst (matchers_of compile ps n)) = list_all optional ps
     \<and> list_all solid (fst (matchers_of compile ps n)) = list_all steady ps"
proof (induction compile p n and compile ps n rule: matcher_of_matchers_of.induct)
  case (5 compile p ps n)
  then show ?case
    by (cases "matcher_of compile p n") (simp add: Let_def case_prod_beta)
qed (auto simp: repeated_def Let_def case_prod_beta repetition_ok_def list.pred_map comp_def)

text \<open>The groups of the patterns of a list are numbered apart from one another.\<close>

lemma component_matchers_places:
  "n \<le> snd (component_matchers compile es n)
     \<and> (\<forall>m \<in> set (fst (component_matchers compile es n)).
          places (group_count compile) m \<subseteq> {n..<snd (component_matchers compile es n)})"
proof (induction es arbitrary: n)
  case (Cons e es)
  from Cons [of "n + group_count compile e"] show ?case
    by (fastforce simp: Let_def case_prod_beta)
qed simp

lemma places_matcher_of:
  "n \<le> snd (matcher_of compile p n)
     \<and> places (group_count compile) (fst (matcher_of compile p n)) \<subseteq> {n..<snd (matcher_of compile p n)}"
  "n \<le> snd (matchers_of compile ps n)
     \<and> (\<forall>m \<in> set (fst (matchers_of compile ps n)).
          places (group_count compile) m \<subseteq> {n..<snd (matchers_of compile ps n)})"
proof (induction compile p n and compile ps n rule: matcher_of_matchers_of.induct)
  case (2 compile incl es r n)
  then show ?case
    using component_matchers_places [of n compile es]
    by (fastforce simp: repeated_def Let_def case_prod_beta)
next
  case (3 compile ps r n)
  obtain ms n' where eq: "matchers_of compile ps (n + 1) = (ms, n')" by fastforce
  with 3 have "n \<le> n'" "n < n'" "m \<in> set ms \<Longrightarrow> i \<in> places (group_count compile) m \<Longrightarrow> n \<le> i \<and> i < n'" for m i
    by (auto dest!: bspec [of _ _ m] subsetD [of _ _ i])
  with eq show ?case by (auto simp: repeated_def Let_def)
next
  case (5 compile p ps n)
  then show ?case
    by (cases "matcher_of compile p n") (fastforce simp: Let_def case_prod_beta)
qed (auto simp: repeated_def)

lemma separate_matchers_of: "separate (group_count compile) (fst (matchers_of compile ps n))"
proof (induction ps arbitrary: n)
  case (Cons p ps)
  let ?n = "snd (matcher_of compile p n)"
  have "\<forall>m \<in> set (fst (matchers_of compile ps ?n)).
      places (group_count compile) (fst (matcher_of compile p n)) \<inter> places (group_count compile) m = {}"
    using places_matcher_of(1) [of n compile p] places_matcher_of(2) [of ?n compile ps] by fastforce
  with Cons show ?case
    by (simp add: Let_def case_prod_beta)
qed simp

subsection \<open>The class RegexMatcher\<close>

record regex_matcher =
  primary :: "matcher list"
  secondary :: "matcher list option"
  back_ref :: nat
  second_back_ref :: nat
  primary_results :: results
  secondary_results :: results
  match_result :: "pyval list"
  secondary_used :: "bool option"

definition regex_matcher_of :: "matcher list \<Rightarrow> nat \<Rightarrow> matcher list option \<Rightarrow> nat \<Rightarrow> regex_matcher" where
  "regex_matcher_of ms n ms2 n2 =
     \<lparr>primary = ms, secondary = ms2, back_ref = n, second_back_ref = n2, primary_results = (\<lambda>_. []),
      secondary_results = (\<lambda>_. []), match_result = [], secondary_used = None\<rparr>"

definition RegexMatcher_init :: "compiler \<Rightarrow> string \<Rightarrow> regex_matcher outcome" where
  "RegexMatcher_init compile expr =
     (if expr = [] then Raise IndexError
      else
        let tmp_expr = (if last expr \<noteq> CHR ''$'' then expr @ ''<.*>*'' else butlast expr) in
        if tmp_expr = [] then Raise IndexError
        else if hd tmp_expr \<noteq> CHR ''^'' then
          bnd (pattern_list_init compile (''<.*>*'' @ tmp_expr) 0) (\<lambda>(ms2, n2).
          bnd (pattern_list_init compile tmp_expr 0) (\<lambda>(ms, n). Ret (regex_matcher_of ms n (Some ms2) n2)))
        else
          bnd (pattern_list_init compile (tl tmp_expr) 0) (\<lambda>(ms, n). Ret (regex_matcher_of ms n None 0)))"

text \<open>\<^verbatim>\<open>matchName\<close> (\<open>Lazy\<close>) and \<^verbatim>\<open>matchN\<close> (\<open>Aggressive\<close>).\<close>

definition match_name :: "mode \<Rightarrow> regex \<Rightarrow> bytes list \<Rightarrow> regex_matcher \<Rightarrow> bool \<times> regex_matcher" where
  "match_name mode re name self =
     (let (res, s) = list_match mode re name (primary self) 0 (length name) (primary_results self);
          self = self\<lparr>secondary_used := Some False, primary_results := s,
            match_result := match_result self @ (if res then map PyBytes name else [])\<rparr> in
      case (res, secondary self) of
        (False, Some ms2) \<Rightarrow>
          let (res2, s2) = list_match mode re name ms2 0 (length name) (secondary_results self) in
          (res2, self\<lparr>secondary_used := Some True, secondary_results := s2,
            match_result := match_result self @ (if res2 then map PyBytes name else [])\<rparr>)
      | _ \<Rightarrow> (res, self))"

text \<open>
  \<^verbatim>\<open>extract\<close>. The numbers of a rule such as \<^verbatim>\<open>\1\2\<close>; the expression that checks a rule lets a
  newline follow it, which \<^verbatim>\<open>int\<close> strips.
\<close>

function rule_numbers :: "string \<Rightarrow> nat list option" where
  "rule_numbers rule =
     (case rule of
        [] \<Rightarrow> None
      | c # cs \<Rightarrow>
          let ds = takeWhile is_digit cs; rest = dropWhile is_digit cs in
          if c \<noteq> CHR 0x5C \<or> ds = [] then None
          else if rest = [] \<or> rest = [CHR 0x0A] then Some [number ds]
          else map_option ((#) (number ds)) (rule_numbers rest))"
  by pat_completeness auto
termination
  by (relation "measure length") (auto simp: le_imp_less_Suc length_dropWhile_le)

definition reference :: "nat \<Rightarrow> results \<Rightarrow> nat \<Rightarrow> pyval list outcome" where
  "reference groups s i = (if groups < i \<or> i = 0 then Raise RegexError else Ret (s (i - 1)))"

definition extract_groups :: "regex_matcher \<Rightarrow> string \<Rightarrow> pyval list outcome" where
  "extract_groups self rule =
     (case rule_numbers rule of
        None \<Rightarrow> Raise RegexError
      | Some refs \<Rightarrow>
          (case secondary_used self of
             None \<Rightarrow> Raise AttributeError
           | Some used \<Rightarrow>
               bnd (traverse (if used then reference (second_back_ref self) (secondary_results self)
                              else reference (back_ref self) (primary_results self)) refs)
                 (\<lambda>parts. Ret (concat parts))))"

text \<open>
  The function \<^verbatim>\<open>match\<close>. The model covers names whose components are byte strings, as
  those that come from the library are; it says nothing of others.
\<close>

fun bytes_of :: "pyval list \<Rightarrow> bytes list option" where
  "bytes_of [] = Some []"
| "bytes_of (PyBytes b # xs) = map_option ((#) b) (bytes_of xs)"
| "bytes_of _ = None"

definition match_pattern ::
    "'e ndnlib_scheme \<Rightarrow> compiler \<Rightarrow> regex \<Rightarrow> string \<Rightarrow> pyval \<Rightarrow> regex_matcher option outcome" where
  "match_pattern L compile re pattern name =
     (if \<not> is_name name then Raise TypeError
      else
        bnd (RegexMatcher_init compile pattern) (\<lambda>m.
        bnd (Name_init L name) (\<lambda>n.
        bnd (py_getattr n ''components'') (\<lambda>cs.
          case cs of
            PyList xs \<Rightarrow>
              (case bytes_of xs of
                 None \<Rightarrow> Undef
               | Some bs \<Rightarrow> let (res, m') = match_name Aggressive re bs m in Ret (if res then Some m' else None))
          | _ \<Rightarrow> Undef))))"

lemma bytes_of_map [simp]: "bytes_of (map PyBytes cs) = Some cs"
  by (induction cs) simp_all

subsection \<open>Both ways of matching decide the language of a pattern\<close>

text \<open>A pattern as it is written, with or without its anchors.\<close>

definition pattern_text :: "bool \<Rightarrow> bool \<Rightarrow> pattern list \<Rightarrow> string" where
  "pattern_text start stop ps = (if start then ''^'' else []) @ print_all ps @ (if stop then ''$'' else [])"

definition anything :: pattern where
  "anything = Single ''.*'' Star"

text \<open>What the code relies on in \<^verbatim>\<open>re\<close>: the expression of any component.\<close>

definition any_component :: "compiler \<Rightarrow> regex \<Rightarrow> bool" where
  "any_component compile re \<longleftrightarrow> compile ''.*'' = Inr 0 \<and> (\<forall>c. re ''.*'' c \<noteq> None)"

lemma print_anything: "print_all (ps @ [anything]) = print_all ps @ ''<.*>*''"
  "print_all (anything # ps) = ''<.*>*'' @ print_all ps"
  by (simp_all add: print_all_def anything_def)

lemma printable_anything: "any_component compile re \<Longrightarrow> printable compile anything"
  by (simp add: any_component_def anything_def component_ok_def brackets_def balanced_def repetition_ok_def)

lemma anything_lang:
  assumes "any_component compile re" "length cs \<le> maxint"
  shows "cs \<in> pattern_lang re anything"
proof -
  have "conc_power (length cs) (component_lang re ''.*'') = {w. length w = length cs}" for cs :: "bytes list"
  proof (induction cs)
    case (Cons c cs)
    then show ?case
      using assms(1) by (auto simp: conc_def component_lang_def any_component_def length_Suc_conv)
        (metis append_Cons append_Nil)
  qed simp
  then show ?thesis
    using assms(2) by (auto simp: anything_def intro!: bexI [of _ "length cs"])
qed

text \<open>The patterns of the primary matcher.\<close>

definition primary_patterns :: "bool \<Rightarrow> pattern list \<Rightarrow> pattern list" where
  "primary_patterns stop ps = ps @ (if stop then [] else [anything])"

definition matcher_for :: "compiler \<Rightarrow> bool \<Rightarrow> bool \<Rightarrow> pattern list \<Rightarrow> regex_matcher" where
  "matcher_for compile start stop ps =
     (let (ms, n) = matchers_of compile (primary_patterns stop ps) 0 in
      if start then regex_matcher_of ms n None 0
      else let (ms2, n2) = matchers_of compile (anything # primary_patterns stop ps) 0 in
        regex_matcher_of ms n (Some ms2) n2)"

lemma last_print: "print p \<noteq> [] \<and> last (print p) \<noteq> CHR ''$''"
proof -
  have "print_repetition r \<noteq> [] \<Longrightarrow> last (print_repetition r) \<noteq> CHR ''$''" for r
    by (cases r) simp_all
  moreover have "last (body p) \<noteq> CHR ''$''"
    by (cases p) (simp_all add: body_def)
  ultimately show ?thesis
    unfolding print_body by (cases "print_repetition (repetition_of p) = []") (simp_all add: body_def)
qed

lemma last_print_all: "ps \<noteq> [] \<Longrightarrow> print_all ps \<noteq> [] \<and> last (print_all ps) \<noteq> CHR ''$''"
  using last_print by (cases ps rule: rev_cases) (simp_all add: print_all_def)

lemma hd_print_all: "ps \<noteq> [] \<Longrightarrow> hd (print_all ps) \<noteq> CHR ''^''"
  by (cases ps; cases "hd ps") (simp_all add: print_all_def)

lemma RegexMatcher_init_text:
  assumes "any_component compile re" "list_all (printable compile) ps" "start \<or> ps \<noteq> []"
  shows "RegexMatcher_init compile (pattern_text start stop ps) = Ret (matcher_for compile start stop ps)"
proof -
  let ?t = "print_all (primary_patterns stop ps)"
  have ok: "list_all (printable compile) (primary_patterns stop ps)"
    using assms(2) printable_anything [OF assms(1)] by (simp add: primary_patterns_def)
  have ok2: "list_all (printable compile) (anything # primary_patterns stop ps)"
    using ok printable_anything [OF assms(1)] by simp
  have tmp: "(if last (pattern_text start stop ps) \<noteq> CHR ''$'' then pattern_text start stop ps @ ''<.*>*''
      else butlast (pattern_text start stop ps)) = (if start then ''^'' else []) @ ?t"
    using last_print_all [of ps] assms(3)
    by (cases "ps = []")
      (auto simp: pattern_text_def primary_patterns_def print_anything butlast_append print_all_def [of "[]"])
  have first: "?t \<noteq> [] \<and> hd ?t \<noteq> CHR ''^''" if "\<not> start"
  proof -
    have "primary_patterns stop ps \<noteq> []"
      using that assms(3) by (simp add: primary_patterns_def)
    then show ?thesis
      using hd_print_all last_print_all by blast
  qed
  have "pattern_text start stop ps \<noteq> []"
    using assms(3) last_print_all [of ps] by (auto simp: pattern_text_def)
  then show ?thesis
    unfolding RegexMatcher_init_def Let_def tmp
    using first reads_printed(2) [OF ok, of 0] reads_printed(2) [OF ok2, of 0]
    by (cases start)
      (simp_all add: matcher_for_def print_anything case_prod_beta Let_def
        del: pattern_list_init.simps matchers_of.simps)
qed

text \<open>The names that a list of patterns matches with the given anchors.\<close>

definition found :: "bool \<Rightarrow> bool \<Rightarrow> bytes list set \<Rightarrow> bytes list \<Rightarrow> bool" where
  "found start stop A cs \<longleftrightarrow>
     (\<exists>u v w. cs = u @ v @ w \<and> v \<in> A \<and> (start \<longrightarrow> u = []) \<and> (stop \<longrightarrow> w = []))"

lemma found_simps:
  "found True True A cs \<longleftrightarrow> cs \<in> A"
  "found True False A cs \<longleftrightarrow> (\<exists>v w. cs = v @ w \<and> v \<in> A)"
  "found True stop A cs \<Longrightarrow> found False stop A cs"
  unfolding found_def by (simp, simp, blast)

definition same_patterns :: "regex_matcher \<Rightarrow> regex_matcher \<Rightarrow> bool" where
  "same_patterns m m' \<longleftrightarrow> primary m = primary m' \<and> secondary m = secondary m'"

lemma list_match_lang:
  assumes "list_all (printable compile) ps" "list_all steady ps"
  shows "fst (list_match mode re cs (fst (matchers_of compile ps n)) 0 (length cs) s)
    = (cs \<in> patterns_lang re ps)"
proof -
  let ?ms = "fst (matchers_of compile ps n)"
  have "list_all formed ?ms" "list_all solid ?ms"
    using shape_matcher_of(2) [OF assms(1), of n] assms(2) by auto
  then have "map (accepts re) ?ms = map (lang re) ?ms"
    by (simp add: list_all_iff solid_accepts)
  then show ?thesis
    using match_accepts(3) [of 0 "length cs" cs ?ms mode re s] \<open>list_all formed ?ms\<close>
    by (simp add: lang_matcher_of patterns_lang_def)
qed

lemma patterns_lang_Cons: "patterns_lang re (p # ps) = conc (pattern_lang re p) (patterns_lang re ps)"
  by (simp add: patterns_lang_def)

lemma patterns_lang_append: "patterns_lang re (ps @ qs) = conc (patterns_lang re ps) (patterns_lang re qs)"
proof (induction ps)
  case (Cons p ps)
  then show ?case by (auto simp: patterns_lang_def conc_def) (metis append_assoc)+
qed (auto simp: patterns_lang_def conc_def)

lemma patterns_lang_primary:
  assumes "any_component compile re" "length cs \<le> maxint"
  shows "cs \<in> patterns_lang re (primary_patterns stop ps) \<longleftrightarrow> found True stop (patterns_lang re ps) cs"
    and "cs \<in> patterns_lang re (anything # primary_patterns stop ps) \<longleftrightarrow> found False stop (patterns_lang re ps) cs"
proof -
  have any: "patterns_lang re [anything] = pattern_lang re anything"
    by (simp add: patterns_lang_def)
  have one: "cs \<in> patterns_lang re (primary_patterns stop ps) \<longleftrightarrow> found True stop (patterns_lang re ps) cs"
    if "length cs \<le> maxint" for cs
  proof (cases stop)
    case True
    then show ?thesis by (simp add: primary_patterns_def found_simps)
  next
    case False
    have "w \<in> pattern_lang re anything" if "cs = v @ w" for v w
      using anything_lang [OF assms(1), of w] that \<open>length cs \<le> maxint\<close> by simp
    then show ?thesis
      using False unfolding primary_patterns_def found_simps
      by (simp add: patterns_lang_append any found_simps conc_def) blast
  qed
  show "cs \<in> patterns_lang re (primary_patterns stop ps) \<longleftrightarrow> found True stop (patterns_lang re ps) cs"
    by (rule one) (rule assms)
  have "cs \<in> patterns_lang re (anything # primary_patterns stop ps)
      \<longleftrightarrow> (\<exists>u v. cs = u @ v \<and> v \<in> patterns_lang re (primary_patterns stop ps))"
  proof -
    have "u \<in> pattern_lang re anything" if "cs = u @ v" for u v
      using anything_lang [OF assms(1), of u] that assms(2) by simp
    then show ?thesis
      unfolding patterns_lang_Cons conc_def by blast
  qed
  also have "\<dots> \<longleftrightarrow> (\<exists>u v. cs = u @ v \<and> found True stop (patterns_lang re ps) v)"
  proof -
    have "v \<in> patterns_lang re (primary_patterns stop ps) \<longleftrightarrow> found True stop (patterns_lang re ps) v"
      if "cs = u @ v" for u v
      using one [of v] that assms(2) by simp
    then show ?thesis by blast
  qed
  also have "\<dots> \<longleftrightarrow> found False stop (patterns_lang re ps) cs"
    unfolding found_def by (simp, blast)
  finally show "cs \<in> patterns_lang re (anything # primary_patterns stop ps)
      \<longleftrightarrow> found False stop (patterns_lang re ps) cs" .
qed

lemma fst_match_name:
  "fst (match_name mode re cs m) \<longleftrightarrow>
     fst (list_match mode re cs (primary m) 0 (length cs) (primary_results m))
     \<or> (case secondary m of
           None \<Rightarrow> False
         | Some ms2 \<Rightarrow> fst (list_match mode re cs ms2 0 (length cs) (secondary_results m)))"
  by (cases "list_match mode re cs (primary m) 0 (length cs) (primary_results m)")
    (auto simp: match_name_def Let_def case_prod_beta split: bool.splits option.splits)

text \<open>An expression that only matches a component equal to it.\<close>

definition literal_re :: regex where
  "literal_re e c = (if e = ''.*'' \<or> map of_char e = c then Some [] else None)"

lemma literal_any: "any_component (\<lambda>_. Inr 0) literal_re"
  by (simp add: any_component_def literal_re_def)

lemma literal_counts: "counts (group_count (\<lambda>_. Inr 0)) literal_re"
  by (auto simp: counts_def literal_re_def group_count_def)

lemma literal_component:
  "compile e = Inr 0 \<Longrightarrow> list_all (\<lambda>lr. balanced lr e) brackets \<Longrightarrow> component_ok compile e"
  by (simp add: component_ok_def)

lemma same_match_name: "same_patterns m (snd (match_name mode re cs m))"
  by (cases "list_match mode re cs (primary m) 0 (length cs) (primary_results m)")
    (auto simp: same_patterns_def match_name_def Let_def case_prod_beta split: bool.splits option.splits)

text \<open>
  C7. A pattern that was printed is read, and its matcher, also one that has matched before, decides
  with \<^verbatim>\<open>matchName\<close> as with \<^verbatim>\<open>matchN\<close> whether the name, or without an anchor a part of it, is in the
  language of the pattern, if no group that accepts the empty name is repeated.
\<close>

theorem patterns_decided:
  assumes "any_component compile re" "list_all (printable compile) ps" "list_all steady ps"
    "start \<or> ps \<noteq> []" "length cs \<le> maxint"
  shows "\<exists>m. RegexMatcher_init compile (pattern_text start stop ps) = Ret m
    \<and> (\<forall>m' mode. same_patterns m m' \<longrightarrow>
         fst (match_name mode re cs m') = found start stop (patterns_lang re ps) cs)"
proof (intro exI conjI allI impI)
  show "RegexMatcher_init compile (pattern_text start stop ps) = Ret (matcher_for compile start stop ps)"
    by (rule RegexMatcher_init_text) (use assms in auto)
  fix m' mode assume same: "same_patterns (matcher_for compile start stop ps) m'"
  have ok: "list_all (printable compile) (primary_patterns stop ps)" "list_all steady (primary_patterns stop ps)"
    using assms printable_anything [OF assms(1)] by (simp_all add: primary_patterns_def anything_def)
  then have ok2: "list_all (printable compile) (anything # primary_patterns stop ps)"
      "list_all steady (anything # primary_patterns stop ps)"
    using printable_anything [OF assms(1)] by (simp_all add: anything_def)
  from same show "fst (match_name mode re cs m') = found start stop (patterns_lang re ps) cs"
    using list_match_lang [OF ok, of mode re cs 0] list_match_lang [OF ok2, of mode re cs 0]
      patterns_lang_primary [OF assms(1,5), of stop ps]
    by (cases start)
      (auto simp: fst_match_name found_simps(3) matcher_for_def same_patterns_def regex_matcher_of_def
        case_prod_beta Let_def split: option.splits simp del: list_match.simps matchers_of.simps)
qed

theorem patterns_decided_witness:
  "(\<exists>m. RegexMatcher_init (\<lambda>_. Inr 0) ''(<a>)<b>$'' = Ret m
      \<and> fst (match_name Aggressive literal_re [[120], [97], [98]] m)
      \<and> fst (match_name Lazy literal_re [[120], [97], [98]] (snd (match_name Aggressive literal_re [[120], [97], [98]] m))))
   \<and> found False True (patterns_lang literal_re [Group [Single ''a'' Once] Once, Single ''b'' Once]) [[120], [97], [98]]"
proof -
  let ?c = "\<lambda>_ :: string. Inr (0 :: nat)"
  let ?ps = "[Group [Single ''a'' Once] Once, Single ''b'' Once]" and ?cs = "[[120], [97], [98]] :: bytes list"
  have ok: "list_all (printable ?c) ?ps" "list_all steady ?ps"
    by (simp_all add: component_ok_def brackets_def balanced_def repetition_ok_def maxint_def)
  have text_eq: "pattern_text False True ?ps = ''(<a>)<b>$''"
    by (simp add: pattern_text_def print_all_def)
  have "[[97], [98]] \<in> patterns_lang literal_re ?ps"
    by (simp add: patterns_lang_def conc_def component_lang_def literal_re_def)
  then have found: "found False True (patterns_lang literal_re ?ps) ?cs"
    unfolding found_def by (intro exI [of _ "[[120]]"] exI [of _ "[[97], [98]]"] exI [of _ "[]"]) simp
  obtain m where m: "RegexMatcher_init ?c ''(<a>)<b>$'' = Ret m"
    "same_patterns m m' \<Longrightarrow> fst (match_name mode literal_re ?cs m')" for m' mode
    using patterns_decided [OF literal_any ok, of False ?cs True] found by (auto simp: text_eq maxint_def)
  have "same_patterns m (snd (match_name Aggressive literal_re ?cs m))"
    by (simp add: same_match_name)
  with m found show ?thesis
    by (auto simp: same_patterns_def)
qed

subsection \<open>Groups\<close>

definition is_group :: "pattern \<Rightarrow> bool" where
  "is_group p \<longleftrightarrow> (case p of Group _ r \<Rightarrow> r = Once | _ \<Rightarrow> False)"

text \<open>The number of the group that is the pattern at a place of a list.\<close>

definition group_number :: "compiler \<Rightarrow> pattern list \<Rightarrow> nat \<Rightarrow> nat" where
  "group_number compile ps k = Suc (snd (matchers_of compile (take k ps) 0))"

lemma matchers_of_length: "length (fst (matchers_of compile ps n)) = length ps"
  by (induction ps arbitrary: n) (simp_all add: Let_def case_prod_beta)

lemma matchers_of_nth:
  "k < length ps \<Longrightarrow> fst (matchers_of compile ps n) ! k
     = fst (matcher_of compile (ps ! k) (snd (matchers_of compile (take k ps) n)))"
proof (induction ps arbitrary: n k)
  case (Cons p ps)
  then show ?case
    by (cases k) (simp_all add: Let_def case_prod_beta)
qed simp

lemma group_matcher:
  assumes "k < length ps" "is_group (ps ! k)"
  shows "\<exists>m. fst (matchers_of compile ps 0) ! k = BackRefMatcher (group_number compile ps k - 1) m
    \<and> group_number compile ps k \<le> snd (matchers_of compile ps 0)"
proof -
  obtain m where m: "fst (matchers_of compile ps 0) ! k = BackRefMatcher (group_number compile ps k - 1) m"
    using assms by (auto simp: is_group_def matchers_of_nth group_number_def Let_def case_prod_beta split: pattern.splits)
  then have "BackRefMatcher (group_number compile ps k - 1) m \<in> set (fst (matchers_of compile ps 0))"
    using assms(1) by (metis matchers_of_length nth_mem)
  then have "group_number compile ps k - 1 < snd (matchers_of compile ps 0)"
    using places_matcher_of(2) [of 0 compile ps] by fastforce
  with m show ?thesis by (auto simp: group_number_def)
qed

lemma match_pattern_name:
  "RegexMatcher_init compile text = Ret m \<Longrightarrow>
     match_pattern L compile re text (name_obj cs)
       = Ret (if fst (match_name Aggressive re cs m) then Some (snd (match_name Aggressive re cs m)) else None)"
  by (simp add: match_pattern_def name_obj_def Name_init_def name_of_def name_len_def Let_def case_prod_beta)

text \<open>
  C20. After \<^verbatim>\<open>match\<close> with an anchored pattern the name is cut in pieces, each in the language
  of its pattern, and \<^verbatim>\<open>extract\<close> returns, joined in the order of its rule, the pieces of the
  groups whose numbers the rule gives.
\<close>

theorem groups_extracted:
  assumes "any_component compile re" "counts (group_count compile) re" "list_all (printable compile) ps"
    "match_pattern L compile re (pattern_text True True ps) (name_obj cs) = Ret (Some m)"
  shows "\<exists>ws. concat ws = cs \<and> list_all2 (\<lambda>p w. w \<in> pattern_lang re p) ps ws
    \<and> (\<forall>rule ks. rule_numbers rule = Some (map (group_number compile ps) ks)
         \<and> (\<forall>k \<in> set ks. k < length ps \<and> is_group (ps ! k))
         \<longrightarrow> extract_groups m rule = Ret (map PyBytes (concat (map ((!) ws) ks))))"
proof -
  let ?ms = "fst (matchers_of compile ps 0)" and ?m0 = "matcher_for compile True True ps"
  let ?r = "list_match Aggressive re cs ?ms 0 (length cs) (\<lambda>_. [])"
  have init: "RegexMatcher_init compile (pattern_text True True ps) = Ret ?m0"
    by (rule RegexMatcher_init_text) (use assms in auto)
  have success: "fst (match_name Aggressive re cs ?m0)" and m: "m = snd (match_name Aggressive re cs ?m0)"
    using assms(4) by (auto simp: match_pattern_name [OF init] split: if_splits)
  have m0: "primary ?m0 = ?ms" "secondary ?m0 = None" "primary_results ?m0 = (\<lambda>_. [])"
      "back_ref ?m0 = snd (matchers_of compile ps 0)"
    by (simp_all add: matcher_for_def primary_patterns_def regex_matcher_of_def case_prod_beta)
  have r: "fst ?r" using success by (simp add: fst_match_name m0)
  have state: "secondary_used m = Some False" "primary_results m = snd ?r" "back_ref m = snd (matchers_of compile ps 0)"
    using m0 by (simp_all add: m match_name_def case_prod_beta Let_def split: bool.splits)
  have formed: "list_all formed ?ms"
    using shape_matcher_of(2) [OF assms(3)] by blast
  obtain ws where ws: "concat ws = cs" "list_all2 (piece_of re (snd ?r)) ?ms ws"
    using list_match_pieces [OF assms(2) _ formed separate_matchers_of r] by auto
  have pieces: "ws ! k \<in> pattern_lang re (ps ! k)" if "k < length ps" for k
  proof -
    have "formed (?ms ! k)" "ws ! k \<in> accepts re (?ms ! k)"
      using that formed list_all2_nthD [OF ws(2), of k]
      by (auto simp: matchers_of_length list_all_length piece_of_def)
    then have "ws ! k \<in> lang re (?ms ! k)"
      using accepts_lang by blast
    then show ?thesis
      by (simp add: matchers_of_nth [OF that] lang_matcher_of)
  qed
  have group: "reference (back_ref m) (primary_results m) (group_number compile ps k) = Ret (map PyBytes (ws ! k))"
    if "k < length ps" "is_group (ps ! k)" for k
    using group_matcher [OF that, of compile] list_all2_nthD [OF ws(2), of k] that(1)
    by (auto simp: matchers_of_length piece_of_def reference_def state group_number_def)
  show ?thesis
  proof (intro exI [of _ ws] conjI allI impI ws(1))
    show "list_all2 (\<lambda>p w. w \<in> pattern_lang re p) ps ws"
      using pieces list_all2_lengthD [OF ws(2)] by (simp add: list_all2_conv_all_nth matchers_of_length)
    fix rule ks
    assume *: "rule_numbers rule = Some (map (group_number compile ps) ks)
        \<and> (\<forall>k \<in> set ks. k < length ps \<and> is_group (ps ! k))"
    then have "traverse (reference (back_ref m) (primary_results m)) (map (group_number compile ps) ks)
        = Ret (map (\<lambda>k. map PyBytes (ws ! k)) ks)"
      by (intro traverse_map_Ret group) auto
    with * show "extract_groups m rule = Ret (map PyBytes (concat (map ((!) ws) ks)))"
      by (simp add: extract_groups_def state map_concat comp_def)
  qed
qed

theorem groups_extracted_witness:
  "\<forall>L :: unit ndnlib_scheme. \<exists>m.
     match_pattern L (\<lambda>_. Inr 0) literal_re ''^(<a>)(<b>)$'' (name_obj [[97], [98]]) = Ret (Some m)
     \<and> extract_groups m (CHR 0x5C # ''2'' @ CHR 0x5C # ''1'') = Ret [PyBytes [98], PyBytes [97]]"
proof
  fix L :: "unit ndnlib_scheme"
  let ?c = "\<lambda>_ :: string. Inr (0 :: nat)" and ?cs = "[[97], [98]] :: bytes list"
  let ?ps = "[Group [Single ''a'' Once] Once, Group [Single ''b'' Once] Once]"
  have ok: "list_all (printable ?c) ?ps"
    by (simp add: component_ok_def brackets_def balanced_def repetition_ok_def maxint_def)
  have text_eq: "pattern_text True True ?ps = ''^(<a>)(<b>)$''"
    by (simp add: pattern_text_def print_all_def)
  have "fst (match_name Aggressive literal_re ?cs (matcher_for ?c True True ?ps))"
    by (simp add: matcher_for_def primary_patterns_def regex_matcher_of_def repeated_def
        match_name_def tries_def both_def repeat_match.simps component_match_def literal_re_def group_count_def Let_def)
  then obtain m where m: "match_pattern L ?c literal_re (pattern_text True True ?ps) (name_obj ?cs) = Ret (Some m)"
    using match_pattern_name [OF RegexMatcher_init_text [OF literal_any ok disjI1 [OF TrueI]],
        of L literal_re True ?cs] by (simp only: if_True)
  obtain ws where ws: "concat ws = ?cs" "list_all2 (\<lambda>p w. w \<in> pattern_lang literal_re p) ?ps ws"
    and taken: "\<forall>rule ks. rule_numbers rule = Some (map (group_number ?c ?ps) ks)
         \<and> (\<forall>k \<in> set ks. k < length ?ps \<and> is_group (?ps ! k))
         \<longrightarrow> extract_groups m rule = Ret (map PyBytes (concat (map ((!) ws) ks)))"
    using groups_extracted [OF literal_any literal_counts ok m] by blast
  have pieces: "ws = [[[97]], [[98]]]"
    using ws(2) by (auto simp: list_all2_Cons1 conc_def component_lang_def literal_re_def split: if_splits)
  have "rule_numbers (CHR 0x5C # ''2'' @ CHR 0x5C # ''1'') = Some (map (group_number ?c ?ps) [1, 0])"
    by (simp add: rule_numbers.simps [of "_ # _"] is_digit_def number_def group_number_def group_count_def
        repeated_def Let_def)
  moreover have "\<forall>k \<in> set [1, 0]. k < length ?ps \<and> is_group (?ps ! k)"
    by (simp add: is_group_def)
  ultimately have "extract_groups m (CHR 0x5C # ''2'' @ CHR 0x5C # ''1'') = Ret (map PyBytes (concat (map ((!) ws) [1, 0])))"
    using taken by blast
  then have "extract_groups m (CHR 0x5C # ''2'' @ CHR 0x5C # ''1'') = Ret [PyBytes [98], PyBytes [97]]"
    by (simp add: pieces)
  with m text_eq show "\<exists>m. match_pattern L ?c literal_re ''^(<a>)(<b>)$'' (name_obj ?cs) = Ret (Some m)
     \<and> extract_groups m (CHR 0x5C # ''2'' @ CHR 0x5C # ''1'') = Ret [PyBytes [98], PyBytes [97]]"
    by auto
qed

subsection \<open>Patterns refused\<close>

lemma empty_patterns:
  "RegexMatcher_init compile [] = Raise IndexError" "RegexMatcher_init compile ''$'' = Raise IndexError"
  by (simp_all add: RegexMatcher_init_def)

lemma refuses_prod: "(\<And>a b. refuses compile cs (f a b)) \<Longrightarrow> refuses compile cs (case x of (a, b) \<Rightarrow> f a b)"
  by (cases x) simp

text \<open>The texts the two matchers read are parts of the pattern with an anything on both sides.\<close>

definition completed :: "string \<Rightarrow> string" where
  "completed expr = (if last expr \<noteq> CHR ''$'' then expr @ ''<.*>*'' else butlast expr)"

lemma completed_read:
  "sublist (completed expr) (''<.*>*'' @ expr @ ''<.*>*'')"
  "sublist (''<.*>*'' @ completed expr) (''<.*>*'' @ expr @ ''<.*>*'')"
proof -
  have e: "expr @ ''<.*>*'' = butlast expr @ (if expr = [] then [] else [last expr]) @ ''<.*>*''"
    by simp
  show whole: "sublist (''<.*>*'' @ completed expr) (''<.*>*'' @ expr @ ''<.*>*'')"
    unfolding completed_def e by (simp del: append.simps)
  show "sublist (completed expr) (''<.*>*'' @ expr @ ''<.*>*'')"
    by (rule sublist_order.order_trans [OF sublist_append_leftI whole])
qed

text \<open>
  C28. Whatever its text, a pattern is read, or refused with the error of the module or with what
  \<^verbatim>\<open>re.compile\<close> raised for a part of the text (\<^verbatim>\<open>re.error\<close>, but also
  \<^verbatim>\<open>OverflowError\<close> and others, which escape as they are); only the two patterns without
  anything to match escape as an \<^verbatim>\<open>IndexError\<close>. The text is the pattern between the two
  expressions for any components that the class may add. Not covered: a pattern nested so deep that the
  constructors exceed Python's own limit on the depth of calls.
\<close>

theorem pattern_refusals:
  "expr \<in> {[], ''$''} \<and> RegexMatcher_init compile expr = Raise IndexError
   \<or> (\<exists>m. RegexMatcher_init compile expr = Ret m)
   \<or> RegexMatcher_init compile expr = Raise RegexError
   \<or> (\<exists>x e. RegexMatcher_init compile expr = Raise x \<and> compile e = Inl x
        \<and> sublist e (''<.*>*'' @ expr @ ''<.*>*''))"
proof (cases "expr \<in> {[], ''$''}")
  case False
  let ?t = "''<.*>*'' @ expr @ ''<.*>*''"
  have reads: "refuses compile ?t (pattern_list_init compile cs n)" if "sublist cs ?t" for cs n
    by (rule refuses_mono [OF refuses_pattern_list_init(1) that])
  have tl: "sublist (tl cs) ?t" if "sublist cs ?t" for cs
    using that sublist_tl sublist_order.order_trans by blast
  have "completed expr \<noteq> []"
    using False by (auto simp: completed_def) (metis append_butlast_last_id append_Nil)
  then have init: "RegexMatcher_init compile expr =
      (if hd (completed expr) \<noteq> CHR ''^'' then
         bnd (pattern_list_init compile (''<.*>*'' @ completed expr) 0) (\<lambda>(ms2, n2).
         bnd (pattern_list_init compile (completed expr) 0) (\<lambda>(ms, n). Ret (regex_matcher_of ms n (Some ms2) n2)))
       else bnd (pattern_list_init compile (tl (completed expr)) 0) (\<lambda>(ms, n). Ret (regex_matcher_of ms n None 0)))"
    using False by (simp only: RegexMatcher_init_def completed_def Let_def) simp
  have "refuses compile ?t (RegexMatcher_init compile expr)"
    unfolding init by (intro refuses_if refuses_bnd refuses_prod reads tl completed_read refuses_simps)
  then show ?thesis
    by (cases "RegexMatcher_init compile expr") (auto simp: refuses_def)
qed (auto simp: empty_patterns)

text \<open>So a count that \<^verbatim>\<open>re\<close> finds too big is no error of the pattern's own kind.\<close>

lemma overflow_escapes:
  "RegexMatcher_init (\<lambda>e. if e = ''a{99999999999}'' then Inl OverflowError else Inr 0) ''^<a{99999999999}>$''
     = Raise OverflowError"
  by (simp add: RegexMatcher_init_def pattern_bounds_def closing_def extract_sub_pattern_def
      scan_sub_pattern.simps extract_repetition_def component_set_init_def extract_component_def
      scan_component.simps repeat_init_def component_init_def Let_def)

subsection \<open>Where matching and its results surprise\<close>

lemma extract_before_match: "secondary_used m = None \<Longrightarrow> rule_numbers rule = Some refs \<Longrightarrow>
    extract_groups m rule = Raise AttributeError"
  by (simp add: extract_groups_def)

lemma results_accumulate:
  "match_result (snd (match_name mode re cs m)) =
     match_result m @ (if fst (match_name mode re cs m) then map PyBytes cs else [])"
  by (cases "list_match mode re cs (primary m) 0 (length cs) (primary_results m)")
    (auto simp: match_name_def Let_def case_prod_beta split: bool.splits option.splits)

text \<open>A repetition that must happen does not accept the empty name, even of a pattern that does.\<close>

lemma plus_of_empty:
  defines "ps \<equiv> [Group [Single ''a'' Star] Plus]"
  shows "[] \<in> patterns_lang literal_re ps"
    "match_pattern L (\<lambda>_. Inr 0) literal_re (pattern_text True True ps) (name_obj []) = Ret None"
proof -
  show "[] \<in> patterns_lang literal_re ps"
    by (auto simp: ps_def patterns_lang_def Nil_in_conc_power maxint_def)
  have "list_all (printable (\<lambda>_. Inr 0)) ps"
    by (simp add: ps_def component_ok_def brackets_def balanced_def repetition_ok_def maxint_def)
  from RegexMatcher_init_text [OF literal_any this, of True True]
  show "match_pattern L (\<lambda>_. Inr 0) literal_re (pattern_text True True ps) (name_obj []) = Ret None"
    by (simp add: ps_def match_pattern_name matcher_for_def primary_patterns_def regex_matcher_of_def repeated_def
        match_name_def tries_def both_def repeat_match.simps)
qed

text \<open>A group that takes no part in a match keeps what it took when the match was tried with it.\<close>

lemma stale_group:
  defines "ps \<equiv> [Group [Single ''a'' Once] Optional, Single ''a'' Once]"
  shows "\<exists>m. match_pattern L (\<lambda>_. Inr 0) literal_re (pattern_text True True ps) (name_obj [[97]]) = Ret (Some m)
    \<and> extract_groups m (CHR 0x5C # ''1'') = Ret [PyBytes [97]]"
proof -
  have "list_all (printable (\<lambda>_. Inr 0)) ps"
    by (simp add: ps_def component_ok_def brackets_def balanced_def repetition_ok_def maxint_def)
  from RegexMatcher_init_text [OF literal_any this, of True True]
  show ?thesis
    by (simp add: ps_def match_pattern_name matcher_for_def primary_patterns_def regex_matcher_of_def repeated_def
        match_name_def tries_def both_def repeat_match.simps component_match_def literal_re_def group_count_def Let_def
        set_result_def append_back_ref_def extract_groups_def reference_def is_digit_def number_def
        rule_numbers.simps [of "_ # _"])
qed

end
