(* ===== verification/NdnbTags.thy ===== *)
theory NdnbTags
  imports Ndnb
begin

section \<open>The printing decoder: python/ndn/impl/ndnb.py\<close>

text \<open>
  \<^verbatim>\<open>NDNBDecoder.get_tags\<close>, which prints the elements of a buffer, over the headers of
  \<open>Ndnb\<close>. What it prints is a list of lines, each with the word \<^verbatim>\<open>Close\<close> before it or
  not; an exception comes with the lines before it. The decoder's position is the rest of the
  buffer.
\<close>

subsection \<open>The decoder\<close>

datatype line =
    TagName string
  | TagNumber nat
  | BlobData nat "bytes option"
  | OtherData nat nat "bytes option"

definition print_element :: "nat \<Rightarrow> nat \<Rightarrow> bytes option \<Rightarrow> line" where
  "print_element tt value data =
     (if tt = 2 then
        if value = 14 then TagName ''Name''
        else if value = 15 then TagName ''Component''
        else if value = 17 then TagName ''Collection''
        else if value = 31 then TagName ''Link''
        else TagNumber value
      else if tt = 5 then BlobData value data
      else OtherData tt value data)"

type_synonym printed = "bool \<times> line"

definition printing :: "printed \<Rightarrow> printed list \<times> 'a outcome \<Rightarrow> printed list \<times> 'a outcome" where
  "printing l r = (l # fst r, snd r)"

lemma read_header_shorter: "read_header a bs = Some (h, rest) \<Longrightarrow> length rest < length bs"
  by (induction a bs rule: read_header.induct) (auto simp: Let_def split: if_splits)

text \<open>
  The stack holds the tags that are open. A close without one raises \<^verbatim>\<open>IndexError\<close>, a header
  that the buffer cuts off fails the assertion of \<^verbatim>\<open>_process_next_byte\<close>; a BLOB that is cut
  off is printed as far as it goes. The result is the stack at the end.
\<close>

function get_tags :: "(nat \<times> nat) list \<Rightarrow> bytes \<Rightarrow> printed list \<times> (nat \<times> nat) list outcome" where
  "get_tags stack bs =
     (if bs = [] then ([], Ret stack)
      else case read_header 0 bs of
        None \<Rightarrow> ([], Raise AssertionError)
      | Some (Close, rest) \<Rightarrow>
          (case stack of
             [] \<Rightarrow> ([], Raise IndexError)
           | (tt, value) # stack' \<Rightarrow> printing (True, print_element tt value None) (get_tags stack' rest))
      | Some (Header decoded, rest) \<Rightarrow>
          let tt = decoded mod 8; value = decoded div 8 in
          if tt = 2 then printing (False, print_element tt value None) (get_tags ((tt, value) # stack) rest)
          else if tt = 5 then
            printing (False, print_element tt value (Some (take value rest))) (get_tags stack (drop value rest))
          else printing (False, print_element tt value None) (get_tags stack rest))"
  by pat_completeness auto
termination
  by (relation "measure (\<lambda>(_, bs). length bs)") (auto dest: read_header_shorter)

declare get_tags.simps [simp del]

subsection \<open>Elements\<close>

datatype element = Blob bytes | Dtag nat "element list"

primrec element_wire :: "element \<Rightarrow> bytes" where
  "element_wire (Blob b) = ndnb_blob b"
| "element_wire (Dtag tag es) = ndnb_dtag tag (concat (map element_wire es))"

primrec element_lines :: "element \<Rightarrow> printed list" where
  "element_lines (Blob b) = [(False, BlobData (length b) (Some b))]"
| "element_lines (Dtag tag es) =
     (False, print_element NDN_DTAG tag None) # concat (map element_lines es)
       @ [(True, print_element NDN_DTAG tag None)]"

definition printing_all :: "printed list \<Rightarrow> printed list \<times> 'a outcome \<Rightarrow> printed list \<times> 'a outcome" where
  "printing_all ls r = (ls @ fst r, snd r)"

lemma printing_all_simps [simp]:
  "printing_all [] r = r" "printing l (printing_all ls r) = printing_all (l # ls) r"
  "printing_all ls (printing_all ls' r) = printing_all (ls @ ls') r"
  "printing_all ls (printing l r) = printing_all (ls @ [l]) r"
  by (simp_all add: printing_all_def printing_def)

lemma get_tags_blob: "get_tags stack (ndnb_blob b @ rest) =
    printing (False, BlobData (length b) (Some b)) (get_tags stack rest)"
  by (subst get_tags.simps)
    (simp add: ndnb_blob_def read_header_encode NDN_BLOB_def print_element_def)

lemma get_tags_open: "get_tags stack (ndnb_encode tag NDN_DTAG @ rest) =
    printing (False, print_element NDN_DTAG tag None) (get_tags ((NDN_DTAG, tag) # stack) rest)"
proof -
  have "Suc (Suc (tag * 8)) mod 8 = 2" "Suc (Suc (tag * 8)) div 8 = tag"
    by presburger+
  then show ?thesis
    by (subst get_tags.simps) (simp add: read_header_encode NDN_DTAG_def)
qed

lemma get_tags_close: "get_tags ((tt, value) # stack) (0 # rest) =
    printing (True, print_element tt value None) (get_tags stack rest)"
  by (subst get_tags.simps) simp

lemma get_tags_elements:
  "(\<And>e stack rest. e \<in> set es \<Longrightarrow>
      get_tags stack (element_wire e @ rest) = printing_all (element_lines e) (get_tags stack rest)) \<Longrightarrow>
   get_tags stack (concat (map element_wire es) @ rest)
     = printing_all (concat (map element_lines es)) (get_tags stack rest)"
  by (induction es arbitrary: stack) simp_all

lemma get_tags_element:
  "get_tags stack (element_wire e @ rest) = printing_all (element_lines e) (get_tags stack rest)"
proof (induction e arbitrary: stack rest)
  case (Blob b)
  then show ?case
    by (simp add: get_tags_blob printing_all_def printing_def)
next
  case (Dtag tag es)
  then show ?case
    by (simp add: ndnb_dtag_def get_tags_open get_tags_elements get_tags_close)
qed

text \<open>
  The decoder prints the elements that the encoder wrote, each tag where it opens and where it
  closes and each BLOB with its bytes, and ends with no tag open; so what it prints of a
  name are the name's components.
\<close>

theorem tags_of_elements:
  "get_tags [] (concat (map element_wire es)) = (concat (map element_lines es), Ret [])
   \<and> get_tags [] (name_wire cs) = (element_lines (Dtag DTAG_Name (map (\<lambda>c. Dtag DTAG_Component [Blob c]) cs)), Ret [])"
proof
  have end_of: "get_tags [] [] = ([], Ret [])"
    by (simp add: get_tags.simps)
  show "get_tags [] (concat (map element_wire es)) = (concat (map element_lines es), Ret [])"
    using get_tags_elements [of es "[]" "[]"] get_tags_element
    by (simp add: end_of printing_all_def)
  show "get_tags [] (name_wire cs)
      = (element_lines (Dtag DTAG_Name (map (\<lambda>c. Dtag DTAG_Component [Blob c]) cs)), Ret [])"
    using get_tags_element [of "[]" "Dtag DTAG_Name (map (\<lambda>c. Dtag DTAG_Component [Blob c]) cs)" "[]"]
    by (simp add: end_of printing_all_def name_wire_def component_wire_def [abs_def] comp_def)
qed

text \<open>
  Only BLOBs are skipped over: the text of a UDATA item is read as headers, so a buffer with a
  number in it, as an interest with a scope has, ends in the failed assertion.
\<close>

lemma text_items_fail:
  "snd (get_tags [] (ndnb_dtag 82 (ndnb_encode 1 6 @ [50]))) = Raise AssertionError"
  by (simp add: ndnb_dtag_def get_tags_open NDN_DTAG_def [symmetric] printing_def)
    (simp add: get_tags.simps read_header_encode printing_def print_element_def)

end
