(* ===== verification/EventLoopM.thy ===== *)
theory EventLoopM
  imports Prelude "HOL-Library.Sublist"
begin

section \<open>The event loop: python/ndn/EventLoop.py\<close>

text \<open>
  An \<^verbatim>\<open>EventLoop\<close> runs events, functions of the program, between two rounds of
  \<^verbatim>\<open>select\<close>. \<^verbatim>\<open>execute\<close> appends an event to a list that a lock guards; \<^verbatim>\<open>run\<close> holds the
  same lock while it calls the events. Methods are modelled by the points between which the
  interpreter may switch threads, a thread by its stack of points, since events and the
  callbacks of a round may call the loop's methods. What an event or a round does, it decides:
  it returns or throws.
\<close>

subsection \<open>Points and steps\<close>

datatype loop_point =
    Loop_test | Loop_acquire | Loop_event nat | In_event nat | Loop_clear | Loop_release | In_run_once | Loop_end
  | Exec_acquire nat | Exec_append nat | Exec_release

text \<open>The exceptions that \<^verbatim>\<open>run\<close> distinguishes; \<^verbatim>\<open>select.error\<close> has a code.\<close>

datatype thrown = NDN_error | Select_error int | Other_error

datatype result = Returns | Throws thrown

record loop_sys =
  loop_running :: bool
  event_lock :: bool
  event_queue :: "nat list"
  frames :: "nat \<Rightarrow> loop_point list"
  accepted :: "nat list"
  executed :: "nat list"
  escaped :: "(nat \<times> thrown) list"

text \<open>\<open>accepted\<close> and \<open>executed\<close> record which events were appended and which were called.\<close>

definition new_loop :: loop_sys where
  "new_loop = \<lparr>loop_running = False, event_lock = False, event_queue = [], frames = (\<lambda>_. []),
     accepted = [], executed = [], escaped = []\<rparr>"

definition at_points :: "nat \<Rightarrow> loop_point list \<Rightarrow> loop_sys \<Rightarrow> loop_sys" where
  "at_points t ps s = s\<lparr>frames := (frames s)(t := ps)\<rparr>"

definition acquire_event_lock :: "loop_sys \<Rightarrow> loop_sys option" where
  "acquire_event_lock s = (if event_lock s then None else Some (s\<lparr>event_lock := True\<rparr>))"

text \<open>
  The \<^verbatim>\<open>except\<close> clauses of \<^verbatim>\<open>run\<close>: an \<^verbatim>\<open>NDNError\<close> is passed over if the loop was
  stopped, an interrupted \<^verbatim>\<open>select\<close> always; neither gives the lock back.
\<close>

definition loop_except :: "nat \<Rightarrow> thrown \<Rightarrow> loop_point list \<Rightarrow> loop_sys \<Rightarrow> loop_sys" where
  "loop_except t e ps s =
     (if e = NDN_error \<and> \<not> loop_running s \<or> e = Select_error 4 then at_points t (Loop_test # ps) s
      else at_points t ps (s\<lparr>escaped := (t, e) # escaped s\<rparr>))"

fun loop_go :: "nat \<Rightarrow> result \<Rightarrow> loop_point \<Rightarrow> loop_point list \<Rightarrow> loop_sys \<Rightarrow> loop_sys option" where
  "loop_go t r Loop_test ps s = Some (at_points t ((if loop_running s then Loop_acquire else Loop_end) # ps) s)"
| "loop_go t r Loop_acquire ps s = map_option (at_points t (Loop_event 0 # ps)) (acquire_event_lock s)"
| "loop_go t r (Loop_event i) ps s =
     Some (if i < length (event_queue s)
       then at_points t (In_event i # ps) (s\<lparr>executed := executed s @ [event_queue s ! i]\<rparr>)
       else at_points t (Loop_clear # ps) s)"
| "loop_go t r (In_event i) ps s =
     (case r of
        Returns \<Rightarrow> Some (at_points t (Loop_event (Suc i) # ps) s)
      | Throws e \<Rightarrow> Some (loop_except t e ps s))"
| "loop_go t r Loop_clear ps s = Some (at_points t (Loop_release # ps) (s\<lparr>event_queue := []\<rparr>))"
| "loop_go t r Loop_release ps s = Some (at_points t (In_run_once # ps) (s\<lparr>event_lock := False\<rparr>))"
| "loop_go t r In_run_once ps s =
     (case r of
        Returns \<Rightarrow> Some (at_points t (Loop_test # ps) s)
      | Throws e \<Rightarrow> Some (loop_except t e ps s))"
| "loop_go t r Loop_end ps s = Some (at_points t ps (s\<lparr>loop_running := False\<rparr>))"
| "loop_go t r (Exec_acquire e) ps s = map_option (at_points t (Exec_append e # ps)) (acquire_event_lock s)"
| "loop_go t r (Exec_append e) ps s =
     Some (at_points t (Exec_release # ps) (s\<lparr>event_queue := event_queue s @ [e], accepted := accepted s @ [e]\<rparr>))"
| "loop_go t r Exec_release ps s = Some (at_points t ps (s\<lparr>event_lock := False\<rparr>))"

text \<open>
  A thread calls \<^verbatim>\<open>run\<close>, \<^verbatim>\<open>execute\<close> and \<^verbatim>\<open>stop\<close> from outside, from a callback of a
  round, or from an event. With \<open>tame\<close> events call neither \<^verbatim>\<open>run\<close> nor \<^verbatim>\<open>execute\<close> and do not
  throw. The handles that \<^verbatim>\<open>stop\<close> disconnects are those of \<open>FaceM\<close>.
\<close>

datatype loop_action = Call_run | Call_execute nat | Call_stop | Go_on result

definition in_event :: "loop_point list \<Rightarrow> bool" where
  "in_event ps \<longleftrightarrow> (case ps of In_event _ # _ \<Rightarrow> True | _ \<Rightarrow> False)"

definition may_call_loop :: "loop_point list \<Rightarrow> bool" where
  "may_call_loop ps \<longleftrightarrow> ps = [] \<or> hd ps = In_run_once \<or> in_event ps"

definition loop_step :: "bool \<Rightarrow> nat \<Rightarrow> loop_action \<Rightarrow> loop_sys \<Rightarrow> loop_sys option" where
  "loop_step tame t a s =
     (case a of
        Call_run \<Rightarrow>
          if may_call_loop (frames s t) \<and> \<not> (tame \<and> in_event (frames s t))
          then Some (at_points t (Loop_test # frames s t) (s\<lparr>loop_running := True\<rparr>)) else None
      | Call_execute e \<Rightarrow>
          if may_call_loop (frames s t) \<and> \<not> (tame \<and> in_event (frames s t))
          then Some (at_points t (Exec_acquire e # frames s t) s) else None
      | Call_stop \<Rightarrow>
          if may_call_loop (frames s t) then Some (s\<lparr>loop_running := False\<rparr>) else None
      | Go_on r \<Rightarrow>
          (case frames s t of
             [] \<Rightarrow> None
           | p # ps \<Rightarrow> if tame \<and> in_event (p # ps) \<and> r \<noteq> Returns then None else loop_go t r p ps s))"

inductive loop_steps :: "bool \<Rightarrow> loop_sys \<Rightarrow> loop_sys \<Rightarrow> bool" for tame s0 where
  start: "loop_steps tame s0 s0"
| step: "loop_steps tame s0 s \<Longrightarrow> loop_step tame t a s = Some s' \<Longrightarrow> loop_steps tame s0 s'"

fun loop_exec :: "bool \<Rightarrow> (nat \<times> loop_action) list \<Rightarrow> loop_sys \<Rightarrow> loop_sys option" where
  "loop_exec tame [] s = Some s"
| "loop_exec tame ((t, a) # as) s =
     (case loop_step tame t a s of None \<Rightarrow> None | Some s' \<Rightarrow> loop_exec tame as s')"

lemma loop_exec_steps: "loop_steps tame s0 s \<Longrightarrow> loop_exec tame as s = Some s' \<Longrightarrow> loop_steps tame s0 s'"
  by (induction as arbitrary: s) (auto split: option.splits, metis loop_steps.step)

lemma at_points_simps [simp]:
  "loop_running (at_points t ps s) = loop_running s" "event_lock (at_points t ps s) = event_lock s"
  "event_queue (at_points t ps s) = event_queue s" "accepted (at_points t ps s) = accepted s"
  "executed (at_points t ps s) = executed s" "escaped (at_points t ps s) = escaped s"
  "frames (at_points t ps s) = (frames s)(t := ps)"
  by (simp_all add: at_points_def)

lemmas loop_defs = loop_step_def acquire_event_lock_def may_call_loop_def in_event_def loop_except_def

subsection \<open>Events that return and schedule nothing\<close>

text \<open>Inside the lock; and how many of the events in the list a point has called.\<close>

fun inside_lock :: "loop_point list \<Rightarrow> bool" where
  "inside_lock (Loop_event i # ps) = True"
| "inside_lock (In_event i # ps) = True"
| "inside_lock (Loop_clear # ps) = True"
| "inside_lock (Loop_release # ps) = True"
| "inside_lock (Exec_append e # ps) = True"
| "inside_lock (Exec_release # ps) = True"
| "inside_lock _ = False"

fun called :: "nat \<Rightarrow> loop_point list \<Rightarrow> nat" where
  "called n (Loop_event i # ps) = i"
| "called n (In_event i # ps) = Suc i"
| "called n (Loop_clear # ps) = n"
| "called n _ = 0"

text \<open>Calls from a callback of a round leave the round below them.\<close>

definition loop_nested :: "loop_point list \<Rightarrow> bool" where
  "loop_nested ps \<longleftrightarrow> (\<forall>q \<in> set (tl ps). q = In_run_once)"

lemma loop_nested_Cons [simp]:
  "loop_nested []" "loop_nested (p # ps) \<longleftrightarrow> (\<forall>q \<in> set ps. q = In_run_once)"
  by (simp_all add: loop_nested_def)

lemma rounds_outside: "(\<forall>q \<in> set ps. q = In_run_once) \<Longrightarrow> loop_nested ps \<and> \<not> inside_lock ps \<and> called n ps = 0"
  by (cases ps) auto

lemma may_call_rounds:
  "loop_nested ps \<Longrightarrow> may_call_loop ps \<Longrightarrow> \<not> in_event ps \<Longrightarrow> \<forall>q \<in> set ps. q = In_run_once"
  by (cases ps) (auto simp: may_call_loop_def)

definition progress :: "nat option \<Rightarrow> loop_sys \<Rightarrow> nat" where
  "progress holder s = (case holder of None \<Rightarrow> 0 | Some t \<Rightarrow> called (length (event_queue s)) (frames s t))"

definition in_turn :: "nat option \<Rightarrow> nat list \<Rightarrow> loop_sys \<Rightarrow> bool" where
  "in_turn holder cleared s \<longleftrightarrow>
     (\<forall>t. loop_nested (frames s t)) \<and> (\<forall>t. inside_lock (frames s t) \<longleftrightarrow> holder = Some t)
     \<and> (event_lock s \<longleftrightarrow> holder \<noteq> None)
     \<and> accepted s = cleared @ event_queue s
     \<and> progress holder s \<le> length (event_queue s)
     \<and> executed s = cleared @ take (progress holder s) (event_queue s)"

lemma progress_other:
  "holder \<noteq> Some t \<Longrightarrow> frames s' = (frames s)(t := ps) \<Longrightarrow> event_queue s' = event_queue s
     \<Longrightarrow> progress holder s' = progress holder s"
  by (cases holder) (auto simp: progress_def)

text \<open>A step of a thread that does not hold the lock and does not touch the list.\<close>

lemma in_turn_outside:
  assumes "in_turn holder cleared s" "holder \<noteq> Some t" "frames s' = (frames s)(t := ps)"
    and "loop_nested ps" "\<not> inside_lock ps" "event_lock s' = event_lock s" "event_queue s' = event_queue s"
    and "accepted s' = accepted s" "executed s' = executed s"
  shows "in_turn holder cleared s'"
  using assms progress_other [OF assms(2,3,7)] by (simp add: in_turn_def)

text \<open>A step by which a thread takes the lock.\<close>

lemma in_turn_acquire:
  assumes "in_turn holder cleared s" "\<not> event_lock s" "frames s' = (frames s)(t := ps)"
    and "loop_nested ps" "inside_lock ps" "called (length (event_queue s)) ps = 0"
    and "event_lock s'" "event_queue s' = event_queue s" "accepted s' = accepted s" "executed s' = executed s"
  shows "in_turn (Some t) cleared s'"
  using assms by (simp add: in_turn_def progress_def)

text \<open>A step of the thread that holds the lock.\<close>

lemma in_turn_inside:
  assumes "in_turn (Some t) cleared s" "frames s' = (frames s)(t := ps)" "loop_nested ps"
    and "event_lock s' = inside_lock ps" "accepted s' = cleared' @ event_queue s'"
    and "executed s' = cleared' @ take (if inside_lock ps then called (length (event_queue s')) ps else 0) (event_queue s')"
    and "called (length (event_queue s')) ps \<le> length (event_queue s')"
  shows "in_turn (if inside_lock ps then Some t else None) cleared' s'"
  using assms by (simp add: in_turn_def progress_def)

lemma in_turn_go:
  assumes inv: "in_turn holder cleared s" and p: "frames s t = p # ps"
    and tame: "in_event (p # ps) \<Longrightarrow> r = Returns" and go: "loop_go t r p ps s = Some s'"
  shows "\<exists>holder cleared. in_turn holder cleared s'"
proof -
  have nested: "\<forall>q \<in> set ps. q = In_run_once"
    using inv p unfolding in_turn_def by (metis loop_nested_Cons(2))
  note nested = nested rounds_outside [OF nested]
  have me: "inside_lock (p # ps) \<longleftrightarrow> holder = Some t"
    using inv unfolding in_turn_def p [symmetric] by blast
  show ?thesis
  proof (cases "inside_lock (p # ps)")
    case True
    then have holder: "holder = Some t"
      using me by simp
    then have facts: "event_lock s" "accepted s = cleared @ event_queue s"
      "called (length (event_queue s)) (p # ps) \<le> length (event_queue s)"
      "executed s = cleared @ take (called (length (event_queue s)) (p # ps)) (event_queue s)"
      using inv p by (simp_all add: in_turn_def progress_def)
    have "in_turn (if inside_lock (frames s' t) then Some t else None)
        (if p = Loop_clear then cleared @ event_queue s else cleared) s'"
      by (rule in_turn_inside [OF inv [unfolded holder]];
          insert True nested tame go facts; cases p;
          auto simp: in_event_def take_Suc_conv_app_nth split: if_splits)
    then show ?thesis by blast
  next
    case False
    then have holder: "holder \<noteq> Some t"
      using me by simp
    show ?thesis
      using False nested go
      by (cases p) (auto simp: acquire_event_lock_def loop_except_def split: if_splits result.splits
          intro!: exI in_turn_outside [OF inv holder] in_turn_acquire [OF inv])
  qed
qed

lemma in_turn_step:
  assumes inv: "in_turn holder cleared s" and next_state: "loop_step True t a s = Some s'"
  shows "\<exists>holder cleared. in_turn holder cleared s'"
proof -
  have at_t: "loop_nested (frames s t)" "inside_lock (frames s t) \<longleftrightarrow> holder = Some t"
    using inv unfolding in_turn_def by blast+
  show ?thesis
  proof (cases a)
    case Call_run
    then have "\<forall>q \<in> set (frames s t). q = In_run_once"
      and s': "s' = at_points t (Loop_test # frames s t) (s\<lparr>loop_running := True\<rparr>)"
      using next_state may_call_rounds [OF at_t(1)] by (auto simp: loop_step_def split: if_splits)
    with at_t rounds_outside have "in_turn holder cleared s'"
      unfolding s' by (intro in_turn_outside [OF inv, of t _ "Loop_test # frames s t"])
        auto
    then show ?thesis by blast
  next
    case (Call_execute e)
    then have "\<forall>q \<in> set (frames s t). q = In_run_once"
      and s': "s' = at_points t (Exec_acquire e # frames s t) s"
      using next_state may_call_rounds [OF at_t(1)] by (auto simp: loop_step_def split: if_splits)
    with at_t rounds_outside have "in_turn holder cleared s'"
      unfolding s' by (intro in_turn_outside [OF inv, of t _ "Exec_acquire e # frames s t"])
        auto
    then show ?thesis by blast
  next
    case Call_stop
    then have "s' = s\<lparr>loop_running := False\<rparr>"
      using next_state by (auto simp: loop_step_def split: if_splits)
    then have "in_turn holder cleared s'"
      using inv by (cases holder) (simp_all add: in_turn_def progress_def)
    then show ?thesis by blast
  next
    case (Go_on r)
    then obtain p ps where "frames s t = p # ps" "in_event (p # ps) \<Longrightarrow> r = Returns" "loop_go t r p ps s = Some s'"
      using next_state by (auto simp: loop_step_def split: list.splits if_splits)
    then show ?thesis
      by (rule in_turn_go [OF inv])
  qed
qed

lemma in_turn_reachable: "loop_steps True new_loop s \<Longrightarrow> \<exists>holder cleared. in_turn holder cleared s"
proof (induction rule: loop_steps.induct)
  case start
  have "in_turn None [] new_loop"
    by (simp add: in_turn_def progress_def new_loop_def)
  then show ?case by blast
next
  case (step s t a s')
  then show ?case using in_turn_step by blast
qed

lemma inside_lock_moves: "inside_lock (p # ps) \<Longrightarrow> loop_go t Returns p ps s \<noteq> None"
  by (cases p) auto

lemma free_lock_moves: "\<not> event_lock s \<Longrightarrow> loop_go t Returns p ps s \<noteq> None"
  by (cases p) (auto simp: acquire_event_lock_def)

lemma cleared_all:
  assumes inv: "in_turn holder cleared s" and at: "frames s t = Loop_clear # ps"
  shows "accepted s = executed s"
proof -
  have "holder = Some t"
    using inv at unfolding in_turn_def by (metis inside_lock.simps(3))
  then show ?thesis
    using inv at by (simp add: in_turn_def progress_def)
qed

text \<open>How a thread comes to the point where its turn has called all events.\<close>

fun turning :: "loop_point list \<Rightarrow> bool" where
  "turning [] = False"
| "turning (Loop_end # ps) = False"
| "turning (Exec_acquire e # ps) = (ps \<noteq> [])"
| "turning (Exec_append e # ps) = (ps \<noteq> [])"
| "turning (Exec_release # ps) = (ps \<noteq> [])"
| "turning (p # ps) = True"

lemma loop_steps_trans: "loop_steps tame s1 s2 \<Longrightarrow> loop_steps tame s s1 \<Longrightarrow> loop_steps tame s s2"
  by (induction rule: loop_steps.induct) (auto intro: loop_steps.step)

lemma loop_step_first: "loop_step tame t a s = Some s1 \<Longrightarrow> loop_steps tame s1 s2 \<Longrightarrow> loop_steps tame s s2"
  by (metis loop_steps.intros loop_steps_trans)

lemma turn_clears:
  "frames s t = Loop_event i # ps \<Longrightarrow>
     \<exists>s'. loop_steps True s s' \<and> frames s' = (frames s)(t := Loop_clear # ps)
        \<and> accepted s' = accepted s \<and> loop_running s' = loop_running s"
proof (induction "length (event_queue s) - i" arbitrary: i s)
  case 0
  then have "loop_step True t (Go_on Returns) s = Some (at_points t (Loop_clear # ps) s)"
    by (simp add: loop_step_def in_event_def)
  then show ?case
    by (intro exI [of _ "at_points t (Loop_clear # ps) s"]) (simp add: loop_step_first [OF _ loop_steps.start])
next
  case (Suc n)
  define s1 where "s1 = at_points t (Loop_event (Suc i) # ps) (s\<lparr>executed := executed s @ [event_queue s ! i]\<rparr>)"
  have "loop_exec True [(t, Go_on Returns), (t, Go_on Returns)] s = Some s1"
    using Suc.hyps(2) Suc.prems by (simp add: loop_step_def in_event_def s1_def at_points_def)
  from loop_exec_steps [OF loop_steps.start this] have "loop_steps True s s1" .
  moreover have "n = length (event_queue s1) - Suc i" "frames s1 t = Loop_event (Suc i) # ps"
    using Suc.hyps(2) by (simp_all add: s1_def)
  from Suc.hyps(1) [OF this] obtain s' where "loop_steps True s1 s'" "frames s' = (frames s1)(t := Loop_clear # ps)"
    "accepted s' = accepted s1" "loop_running s' = loop_running s1"
    by blast
  ultimately show ?case
    using loop_steps_trans by (intro exI [of _ s']) (auto simp: s1_def)
qed

lemma turn_executes:
  assumes "loop_steps True new_loop s" "frames s t = Loop_event i # ps"
  shows "\<exists>s'. loop_steps True s s' \<and> executed s' = accepted s"
  using turn_clears [OF assms(2)] in_turn_reachable [OF loop_steps_trans [OF _ assms(1)]] cleared_all
  by (metis fun_upd_same)

text \<open>The thread that holds the lock gives it back.\<close>

lemma holder_releases:
  assumes "inside_lock (frames s u)" "loop_nested (frames s u)"
  shows "\<exists>s'. loop_steps True s s' \<and> \<not> event_lock s' \<and> loop_running s' = loop_running s
    \<and> prefix (accepted s) (accepted s') \<and> (\<forall>v. turning (frames s v) \<longrightarrow> turning (frames s' v))"
proof -
  obtain p ps where p: "frames s u = p # ps"
    using assms by (cases "frames s u") auto
  then have same: "frames s = (frames s)(u := p # ps)"
    by (simp add: fun_upd_idem)
  have goes: ?thesis
    if "loop_steps True s s1" "case loop_exec True (replicate n (u, Go_on Returns)) s1 of None \<Rightarrow> False
        | Some s2 \<Rightarrow> \<not> event_lock s2 \<and> loop_running s2 = loop_running s \<and> prefix (accepted s) (accepted s2)
            \<and> (\<forall>v. turning (frames s v) \<longrightarrow> turning (frames s2 v))" for n s1
    using that loop_exec_steps [OF that(1)] by (clarsimp split: option.splits) blast
  have from_clear: ?thesis
    if "loop_steps True s s1" "frames s1 = (frames s)(u := Loop_clear # ps)" "accepted s1 = accepted s"
      "loop_running s1 = loop_running s" for s1
    by (rule goes [of s1 2, OF that(1)]) (use that in \<open>auto simp: loop_step_def in_event_def numeral_2_eq_2\<close>)
  have from_event: ?thesis
    if "loop_steps True s s1" "frames s1 = (frames s)(u := Loop_event i # ps)" "accepted s1 = accepted s"
      "loop_running s1 = loop_running s" for s1 i
  proof -
    from turn_clears [of s1 u i ps] that(2) obtain s2 where s2: "loop_steps True s1 s2"
      "frames s2 = (frames s1)(u := Loop_clear # ps)" "accepted s2 = accepted s1" "loop_running s2 = loop_running s1"
      by auto
    show ?thesis
      by (rule from_clear [OF loop_steps_trans [OF s2(1) that(1)]]) (simp_all add: s2 that)
  qed
  show ?thesis
  proof (cases p)
    case (Loop_event i)
    then show ?thesis using from_event [OF loop_steps.start] same by simp
  next
    case (In_event i)
    then have "loop_step True u (Go_on Returns) s = Some (at_points u (Loop_event (Suc i) # ps) s)"
      using p by (simp add: loop_step_def in_event_def)
    from from_event [OF loop_step_first [OF this loop_steps.start]] show ?thesis by simp
  next
    case Loop_clear
    then show ?thesis using from_clear [OF loop_steps.start] same by simp
  next
    case Loop_release
    show ?thesis
      by (rule goes [of s 1, OF loop_steps.start])
        (use Loop_release p in \<open>auto simp: loop_step_def in_event_def\<close>)
  next
    case (Exec_append e)
    show ?thesis
      by (rule goes [of s 2, OF loop_steps.start])
        (use Exec_append p assms in \<open>auto simp: loop_step_def in_event_def numeral_2_eq_2 neq_Nil_conv\<close>)
  next
    case Exec_release
    show ?thesis
      by (rule goes [of s 1, OF loop_steps.start])
        (use Exec_release p assms in \<open>auto simp: loop_step_def in_event_def neq_Nil_conv\<close>)
  qed (use assms p in auto)
qed

text \<open>With the lock free, a thread inside \<^verbatim>\<open>run\<close> comes to its next turn.\<close>

lemma next_turn:
  assumes "\<not> event_lock s" "loop_running s" "turning (frames s t)" "loop_nested (frames s t)"
    and "\<not> inside_lock (frames s t)"
  shows "\<exists>s' ps. loop_steps True s s' \<and> prefix (accepted s) (accepted s') \<and> frames s' t = Loop_event 0 # ps"
proof -
  have goes: ?thesis
    if "case loop_exec True (replicate n (t, Go_on Returns)) s of None \<Rightarrow> False
      | Some s' \<Rightarrow> prefix (accepted s) (accepted s') \<and> (\<exists>ps. frames s' t = Loop_event 0 # ps)" for n
    using that loop_exec_steps [OF loop_steps.start] by (fastforce split: option.splits)
  obtain p ps where p: "frames s t = p # ps"
    using assms by (cases "frames s t") auto
  show ?thesis
  proof (cases p)
    case Loop_test
    show ?thesis
      by (rule goes [of 2]) (use Loop_test p assms in \<open>auto simp: loop_step_def in_event_def acquire_event_lock_def numeral_2_eq_2\<close>)
  next
    case Loop_acquire
    show ?thesis
      by (rule goes [of 1]) (use Loop_acquire p assms in \<open>auto simp: loop_step_def in_event_def acquire_event_lock_def\<close>)
  next
    case In_run_once
    show ?thesis
      by (rule goes [of 3]) (use In_run_once p assms in \<open>auto simp: loop_step_def in_event_def acquire_event_lock_def numeral_3_eq_3\<close>)
  next
    case (Exec_acquire e)
    show ?thesis
      by (rule goes [of 6]) (use Exec_acquire p assms in
          \<open>auto simp: loop_step_def in_event_def acquire_event_lock_def eval_nat_numeral neq_Nil_conv\<close>)
  qed (use assms p in auto)
qed

lemma run_catches_up:
  assumes reach: "loop_steps True new_loop s" and "loop_running s" "turning (frames s t)"
  shows "\<exists>s'. loop_steps True s s' \<and> prefix (accepted s) (executed s')"
proof -
  obtain holder cleared where inv: "in_turn holder cleared s"
    using in_turn_reachable [OF reach] by blast
  obtain s1 where s1: "loop_steps True s s1" "\<not> event_lock s1" "loop_running s1"
      "prefix (accepted s) (accepted s1)" "turning (frames s1 t)"
  proof (cases "event_lock s")
    case True
    then obtain u where "inside_lock (frames s u)" "loop_nested (frames s u)"
      using inv unfolding in_turn_def by blast
    from holder_releases [OF this] assms that show ?thesis by blast
  qed (use assms that loop_steps.start in blast)
  have reach1: "loop_steps True new_loop s1"
    using loop_steps_trans [OF s1(1) reach] .
  then obtain holder1 cleared1 where "in_turn holder1 cleared1 s1"
    using in_turn_reachable by blast
  then have "loop_nested (frames s1 t)" "\<not> inside_lock (frames s1 t)"
    using s1(2) unfolding in_turn_def by auto
  from next_turn [OF s1(2,3,5) this] obtain s2 ps where s2: "loop_steps True s1 s2"
    "prefix (accepted s1) (accepted s2)" "frames s2 t = Loop_event 0 # ps"
    by blast
  from turn_executes [OF loop_steps_trans [OF s2(1) reach1] s2(3)] obtain s3 where
    "loop_steps True s2 s3" "executed s3 = accepted s2"
    by blast
  then show ?thesis
    using s1 s2 loop_steps_trans prefix_order.trans by metis
qed

text \<open>
  C12. As long as events return and call neither \<^verbatim>\<open>run\<close> nor \<^verbatim>\<open>execute\<close>, in every interleaving
  of threads each event is called at most once and in the order in which \<^verbatim>\<open>execute\<close> appended
  them; when the lock is free those not yet called are the ones in the list, and a turn that
  comes to clear the list has called all, so none is lost. Some thread can always go on, so there is no
  deadlock. While a thread is inside \<^verbatim>\<open>run\<close> and the loop has not been stopped, the threads can go on
  so that every event appended so far is called; after \<^verbatim>\<open>stop\<close>, or if the threads are never scheduled that way,
  events may stay in the list.
\<close>

theorem events_once:
  assumes "loop_steps True new_loop s"
  shows "prefix (executed s) (accepted s)
    \<and> (\<not> event_lock s \<longrightarrow> accepted s = executed s @ event_queue s)
    \<and> (\<forall>t ps. frames s t = Loop_clear # ps \<longrightarrow> accepted s = executed s)
    \<and> (\<forall>t. frames s t \<noteq> [] \<longrightarrow> (\<exists>u. loop_step True u (Go_on Returns) s \<noteq> None))
    \<and> (\<forall>t. loop_running s \<and> turning (frames s t) \<longrightarrow>
         (\<exists>s'. loop_steps True s s' \<and> prefix (accepted s) (executed s')))"
proof -
  obtain holder cleared where inv: "in_turn holder cleared s"
    using in_turn_reachable [OF assms] by blast
  then have "prefix (executed s) (accepted s)"
    by (auto simp: in_turn_def take_is_prefix)
  moreover have "\<not> event_lock s \<Longrightarrow> accepted s = executed s @ event_queue s"
    using inv by (simp add: in_turn_def progress_def)
  moreover have "\<exists>u. loop_step True u (Go_on Returns) s \<noteq> None" if "frames s t \<noteq> []" for t
  proof (cases "event_lock s")
    case True
    then obtain u where "inside_lock (frames s u)"
      using inv unfolding in_turn_def by blast
    then have "loop_step True u (Go_on Returns) s \<noteq> None"
      using inside_lock_moves by (cases "frames s u") (auto simp: loop_step_def)
    then show ?thesis by blast
  next
    case False
    then have "loop_step True t (Go_on Returns) s \<noteq> None"
      using that free_lock_moves by (cases "frames s t") (auto simp: loop_step_def)
    then show ?thesis by blast
  qed
  ultimately show ?thesis
    using cleared_all [OF inv] run_catches_up [OF assms] by blast
qed

text \<open>Two events are appended; the second is not yet called, but it can be.\<close>

theorem events_once_witness:
  "\<exists>s. loop_exec True (concat [(1, Call_execute e) # replicate 3 (1, Go_on Returns). e \<leftarrow> [7, 8]]
         @ (2, Call_run) # replicate 3 (2, Go_on Returns)) new_loop = Some s
     \<and> executed s = [7] \<and> prefix [7] (accepted s) \<and> (\<exists>s'. loop_steps True s s' \<and> prefix [7, 8] (executed s'))"
proof -
  let ?as = "concat [(1, Call_execute e) # replicate 3 (1, Go_on Returns). e \<leftarrow> [7, 8]]
    @ (2, Call_run) # replicate 3 (2, Go_on Returns) :: (nat \<times> loop_action) list"
  obtain s where s: "loop_exec True ?as new_loop = Some s" "executed s = [7]" "accepted s = [7, 8]"
      "loop_running s" "turning (frames s 2)"
    by (simp add: new_loop_def at_points_def loop_defs numeral_3_eq_3)
  have "loop_steps True new_loop s"
    by (rule loop_exec_steps [OF loop_steps.start s(1)])
  from events_once [OF this] s show ?thesis by fastforce
qed

subsection \<open>Events that schedule events or throw\<close>

text \<open>A thread that waits for the lock while no other thread is inside it.\<close>

definition waits_forever :: "nat \<Rightarrow> loop_point list \<Rightarrow> loop_sys \<Rightarrow> bool" where
  "waits_forever t ps s \<longleftrightarrow>
     event_lock s \<and> frames s t = ps \<and> (ps \<noteq> [] \<and> (hd ps = Loop_acquire \<or> (\<exists>e. hd ps = Exec_acquire e)))
     \<and> (\<forall>u. u \<noteq> t \<longrightarrow> (\<forall>p \<in> set (frames s u). \<not> inside_lock [p]))"

lemma waits_forever_step:
  assumes "waits_forever t ps s" "loop_step False u a s = Some s'"
  shows "waits_forever t ps s'"
proof (cases "u = t")
  case True
  then show ?thesis
    using assms by (cases a) (auto simp: waits_forever_def loop_defs neq_Nil_conv split: if_splits list.splits)
next
  case False
  then have outside: "\<forall>p \<in> set (frames s u). \<not> inside_lock [p]"
    using assms(1) by (simp add: waits_forever_def)
  show ?thesis
  proof (cases a)
    case (Go_on r)
    then obtain p qs where "frames s u = p # qs" "loop_go u r p qs s = Some s'"
      using assms(2) by (auto simp: loop_step_def split: list.splits)
    then show ?thesis
      using assms(1) False outside
      by (cases p) (auto simp: waits_forever_def acquire_event_lock_def loop_except_def split: if_splits result.splits)
  qed (use assms False outside in \<open>auto simp: waits_forever_def loop_defs split: if_splits\<close>)
qed

lemma waits_forever_steps: "loop_steps False s s' \<Longrightarrow> waits_forever t ps s \<Longrightarrow> waits_forever t ps s'"
  by (induction rule: loop_steps.induct) (auto intro: waits_forever_step)

text \<open>
  C27. An event may do neither: one that calls \<^verbatim>\<open>execute\<close> waits for the lock its own loop
  holds, and one that throws what \<^verbatim>\<open>run\<close> passes over leaves the lock taken, so that the
  loop's next turn waits for it. In both cases the loop never moves again, whatever the other
  threads do.
\<close>

theorem events_block:
  "(\<exists>s. loop_steps False new_loop s \<and> frames s 1 = [Exec_acquire 8, In_event 0]
      \<and> (\<forall>s'. loop_steps False s s' \<longrightarrow> frames s' 1 = [Exec_acquire 8, In_event 0] \<and> event_lock s'))
   \<and> (\<exists>s. loop_steps False new_loop s \<and> frames s 1 = [Loop_acquire]
      \<and> (\<forall>s'. loop_steps False s s' \<longrightarrow> frames s' 1 = [Loop_acquire] \<and> event_lock s'))"
proof -
  let ?run = "[(1, Call_execute 7), (1, Go_on Returns), (1, Go_on Returns), (1, Go_on Returns), (1, Call_run),
      (1, Go_on Returns), (1, Go_on Returns), (1, Go_on Returns)] :: (nat \<times> loop_action) list"
  have ends: "\<exists>s. loop_steps False new_loop s \<and> frames s 1 = ps
      \<and> (\<forall>s'. loop_steps False s s' \<longrightarrow> frames s' 1 = ps \<and> event_lock s')"
    if "\<exists>s. loop_exec False as new_loop = Some s \<and> waits_forever 1 ps s" for as ps
    using that loop_exec_steps [OF loop_steps.start] waits_forever_steps unfolding waits_forever_def by blast
  have "\<exists>s. loop_exec False (?run @ [(1, Call_execute 8)]) new_loop = Some s \<and> waits_forever 1 [Exec_acquire 8, In_event 0] s"
    by (simp add: new_loop_def at_points_def loop_defs waits_forever_def)
  moreover have "\<exists>s. loop_exec False (?run @ [(1, Go_on (Throws (Select_error 4))), (1, Go_on Returns)]) new_loop = Some s
      \<and> waits_forever 1 [Loop_acquire] s"
    by (simp add: new_loop_def at_points_def loop_defs waits_forever_def)
  ultimately show ?thesis
    using ends by blast
qed

theorem events_block_witness:
  "\<exists>s. loop_steps False new_loop s \<and> frames s 1 = [Exec_acquire 8, In_event 0] \<and> event_lock s"
  using events_block loop_steps.start by blast

end
