(* ===== verification/TypeTable.thy ===== *)
theory TypeTable
  imports PyValues
begin

section \<open>The module: its classes and exceptions (csrc/pyndn.c)\<close>

text \<open>
  \<^verbatim>\<open>_pyndn_get_type\<close> finds a Python class by an index, imports its module on first use and
  keeps the class in the module's state. The state is the cache; importing is a parameter,
  a function from a module name to its dictionary. The exceptions the module creates are
  modelled with their base classes.
\<close>

subsection \<open>Class lookup\<close>

datatype e_class_type =
    Face | Closure | Data | Interest | Key | KeyLocator | Name | Signature | SignedInfo
  | SigningParams | UpcallInfo

fun class_index :: "e_class_type \<Rightarrow> nat" where
  "class_index Face = 0"
| "class_index Closure = 1"
| "class_index Data = 2"
| "class_index Interest = 3"
| "class_index Key = 4"
| "class_index KeyLocator = 5"
| "class_index Name = 6"
| "class_index Signature = 7"
| "class_index SignedInfo = 8"
| "class_index SigningParams = 9"
| "class_index UpcallInfo = 10"

text \<open>
  The rows of the static table \<^verbatim>\<open>modules\<close>: the type, the module and the class; the last
  row is the sentinel.
\<close>

definition modules :: "(e_class_type option \<times> (string \<times> string) option) list" where
  "modules =
     [(Some Face, Some (''ndn.Face'', ''Face'')),
      (Some Closure, Some (''ndn.Closure'', ''Closure'')),
      (Some Data, Some (''ndn.Data'', ''Data'')),
      (Some Interest, Some (''ndn.Interest'', ''Interest'')),
      (Some Key, Some (''ndn.Key'', ''Key'')),
      (Some KeyLocator, Some (''ndn.KeyLocator'', ''KeyLocator'')),
      (Some Name, Some (''ndn.Name'', ''Name'')),
      (Some Signature, Some (''ndn.Signature'', ''Signature'')),
      (Some SignedInfo, Some (''ndn.SignedInfo'', ''SignedInfo'')),
      (Some UpcallInfo, Some (''ndn.Closure'', ''UpcallInfo'')),
      (None, None)]"

type_synonym 'c class_cache = "e_class_type \<Rightarrow> 'c option"
type_synonym 'c importer = "string \<Rightarrow> (string \<Rightarrow> 'c option) outcome"

text \<open>
  The body of \<^verbatim>\<open>_pyndn_get_type\<close>. Importing a \<^verbatim>\<open>NULL\<close> module name is undefined.
\<close>

definition import_class :: "'c importer \<Rightarrow> (string \<times> string) option \<Rightarrow> 'c outcome" where
  "import_class imp row =
     (case row of
        None \<Rightarrow> Undef
      | Some (m, cls) \<Rightarrow>
          bnd (imp m) (\<lambda>dict.
            case dict cls of None \<Rightarrow> Raise SystemError | Some t \<Rightarrow> Ret t))"

definition get_type ::
    "'e env_scheme \<Rightarrow> 'c importer \<Rightarrow> e_class_type \<Rightarrow> 'c class_cache \<Rightarrow> 'c outcome \<times> 'c class_cache"
  where
  "get_type E imp ty cache =
     (let p = modules ! class_index ty in
      if \<not> ndebug E \<and> fst p \<noteq> Some ty then (Abort, cache)
      else case cache ty of
             Some t \<Rightarrow> (Ret t, cache)
           | None \<Rightarrow>
               (case import_class imp (snd p) of
                  Ret t \<Rightarrow> (Ret t, cache(ty \<mapsto> t))
                | r \<Rightarrow> (r, cache)))"

text \<open>The class a type stands for, where the table has a row for it.\<close>

definition class_of :: "'c importer \<Rightarrow> e_class_type \<Rightarrow> 'c outcome" where
  "class_of imp ty =
     import_class imp
       (case ty of
          Face \<Rightarrow> Some (''ndn.Face'', ''Face'')
        | Closure \<Rightarrow> Some (''ndn.Closure'', ''Closure'')
        | Data \<Rightarrow> Some (''ndn.Data'', ''Data'')
        | Interest \<Rightarrow> Some (''ndn.Interest'', ''Interest'')
        | Key \<Rightarrow> Some (''ndn.Key'', ''Key'')
        | KeyLocator \<Rightarrow> Some (''ndn.KeyLocator'', ''KeyLocator'')
        | Name \<Rightarrow> Some (''ndn.Name'', ''Name'')
        | Signature \<Rightarrow> Some (''ndn.Signature'', ''Signature'')
        | SignedInfo \<Rightarrow> Some (''ndn.SignedInfo'', ''SignedInfo'')
        | SigningParams \<Rightarrow> Some (''ndn.Data'', ''SigningParams'')
        | UpcallInfo \<Rightarrow> Some (''ndn.Closure'', ''UpcallInfo''))"

definition has_row :: "e_class_type \<Rightarrow> bool" where
  "has_row ty \<longleftrightarrow> ty \<noteq> SigningParams \<and> ty \<noteq> UpcallInfo"

lemma has_row_simps [simp]:
  "has_row Face" "has_row Closure" "has_row Data" "has_row Interest" "has_row Key"
  "has_row KeyLocator" "has_row Name" "has_row Signature" "has_row SignedInfo"
  "\<not> has_row SigningParams" "\<not> has_row UpcallInfo"
  by (simp_all add: has_row_def)

lemma row_of: "has_row ty \<Longrightarrow> fst (modules ! class_index ty) = Some ty
    \<and> import_class imp (snd (modules ! class_index ty)) = class_of imp ty"
  by (cases ty) (simp_all add: modules_def class_of_def)

lemma get_type_row:
  "has_row ty \<Longrightarrow> get_type E imp ty cache =
     (case cache ty of
        Some t \<Rightarrow> (Ret t, cache)
      | None \<Rightarrow> (case class_of imp ty of Ret t \<Rightarrow> (Ret t, cache(ty \<mapsto> t)) | r \<Rightarrow> (r, cache)))"
  using row_of [of ty imp] by (auto simp: get_type_def Let_def split: option.splits)

text \<open>For a type with a row, the lookup is a memoised import.\<close>

lemma get_type_clean_memo:
  "has_row ty \<Longrightarrow> clean_memo (get_type E imp ty) (\<lambda>cache. cache ty) (\<lambda>_. class_of imp ty)"
  by unfold_locales (auto simp: get_type_row split: outcome.splits)

interpretation name_class: clean_memo
  "get_type E imp Name" "\<lambda>cache. cache Name" "\<lambda>_. class_of imp Name"
  by (rule get_type_clean_memo) simp

lemma get_type_no_row:
  "\<not> ndebug E \<Longrightarrow> \<not> has_row ty \<Longrightarrow> get_type E imp ty cache = (Abort, cache)"
  by (cases ty) (simp_all add: get_type_def modules_def)

subsection \<open>Exceptions\<close>

text \<open>
  \<^verbatim>\<open>NEW_EXCEPTION\<close> makes a class and stores it in a global, which starts out \<^verbatim>\<open>NULL\<close>; the
  base is the value the base's global has at that moment, and \<^verbatim>\<open>NULL\<close> makes
  \<^verbatim>\<open>PyErr_NewExceptionWithDoc\<close> use \<^verbatim>\<open>Exception\<close> (\<open>None\<close>). Classes are numbered as they are
  made, since the module may be initialised more than once.
\<close>

record exc_state =
  exc_next :: nat
  exc_global :: "py_exc \<Rightarrow> nat option"
  exc_base :: "nat \<Rightarrow> nat option"

definition no_exceptions :: exc_state where
  "no_exceptions = \<lparr>exc_next = 0, exc_global = (\<lambda>_. None), exc_base = (\<lambda>_. None)\<rparr>"

definition new_exception :: "py_exc \<Rightarrow> py_exc option \<Rightarrow> exc_state \<Rightarrow> exc_state" where
  "new_exception nm base st =
     (let b = (case base of None \<Rightarrow> None | Some x \<Rightarrow> exc_global st x); n = exc_next st in
      \<lparr>exc_next = Suc n, exc_global = (exc_global st)(nm \<mapsto> n), exc_base = (exc_base st)(n := b)\<rparr>)"

definition exception_calls :: "(py_exc \<times> py_exc option) list" where
  "exception_calls =
     [(NDNError, None), (NDNNameError, Some NDNError), (NDNKeyLocatorError, Some NDNError),
      (NDNSignatureError, Some NDNError), (NDNSignedInfoError, Some NDNError),
      (NDNInterestError, Some NDNError), (NDNExclusionFilterError, Some NDNInterestError),
      (NDNKeyError, Some NDNKeyError), (NDNDataError, Some NDNError)]"

definition initialize_exceptions :: "exc_state \<Rightarrow> exc_state" where
  "initialize_exceptions st = foldl (\<lambda>st (nm, base). new_exception nm base st) st exception_calls"

lemma new_exception_record:
  "new_exception nm base \<lparr>exc_next = n, exc_global = g, exc_base = b\<rparr>
     = \<lparr>exc_next = Suc n, exc_global = g(nm \<mapsto> n),
        exc_base = b(n := (case base of None \<Rightarrow> None | Some x \<Rightarrow> g x))\<rparr>"
  by (cases base) (simp_all add: new_exception_def)

text \<open>
  Whether an exception of class \<open>e\<close> is caught by \<^verbatim>\<open>except\<close> with the class \<open>c\<close>: walking up the bases,
  each of which was made earlier.
\<close>

function caught_by :: "(nat \<Rightarrow> nat option) \<Rightarrow> nat \<Rightarrow> nat \<Rightarrow> bool" where
  "caught_by bases c e =
     (c = e \<or> (case bases e of Some b \<Rightarrow> if b < e then caught_by bases c b else False | None \<Rightarrow> False))"
  by pat_completeness auto
termination by (relation "measure (\<lambda>(bases, c, e). e)") auto

declare caught_by.simps [simp del]

definition exc_ok :: "exc_state \<Rightarrow> bool" where
  "exc_ok st \<longleftrightarrow> (\<forall>e i. exc_global st e = Some i \<longrightarrow> i < exc_next st)"

lemma caught_by_earlier: "caught_by bases c e \<Longrightarrow> c \<le> e"
  by (induction bases c e rule: caught_by.induct)
    (subst (asm) (2) caught_by.simps, auto split: option.splits if_splits)

text \<open>The nine classes of one initialisation, in the order they are made.\<close>

definition ndn_exceptions :: "py_exc list" where
  "ndn_exceptions =
     [NDNError, NDNNameError, NDNKeyLocatorError, NDNSignatureError, NDNSignedInfoError,
      NDNInterestError, NDNExclusionFilterError, NDNKeyError, NDNDataError]"

subsection \<open>Properties\<close>

text \<open>
  C38. A class lookup is a faithful memo. With a cache that agrees with the package, looking
  up any type with a row gives the class of that name (or the import's failure), leaves a
  cache that still agrees, and a second lookup after a successful one imports nothing. For
  \<^verbatim>\<open>UpcallInfo\<close> and \<^verbatim>\<open>SigningParams\<close>, whose rows the commented-out line shifts, a
  build with assertions stops.
\<close>

theorem get_type_memo:
  assumes "\<not> ndebug E"
    and "\<forall>ty' t. cache ty' = Some t \<longrightarrow> has_row ty' \<and> class_of imp ty' = Ret t"
  shows "(if has_row ty
          then fst (get_type E imp ty cache) = class_of imp ty
             \<and> (\<forall>ty' t. snd (get_type E imp ty cache) ty' = Some t
                   \<longrightarrow> has_row ty' \<and> class_of imp ty' = Ret t)
             \<and> (\<forall>t imp'. class_of imp ty = Ret t \<longrightarrow>
                   get_type E imp' ty (snd (get_type E imp ty cache))
                     = (Ret t, snd (get_type E imp ty cache)))
          else get_type E imp ty cache = (Abort, cache))"
proof (cases "has_row ty")
  case True
  note memo = get_type_clean_memo [OF True, of E imp, THEN clean_memo.axioms(1)]
  have "fst (get_type E imp ty cache) = class_of imp ty"
    by (rule memo.get_computes [OF memo]) (use assms(2) in \<open>auto simp: memo.consistent_def [OF memo]\<close>)
  moreover have "\<forall>ty' t. snd (get_type E imp ty cache) ty' = Some t
      \<longrightarrow> has_row ty' \<and> class_of imp ty' = Ret t"
    using assms(2) True
    by (auto simp: get_type_row split: option.splits outcome.splits if_splits)
  moreover have "get_type E imp' ty (snd (get_type E imp ty cache))
      = (Ret t, snd (get_type E imp ty cache))" if "class_of imp ty = Ret t" for t imp'
    using that assms(2) True by (auto simp: get_type_row split: option.splits)
  ultimately show ?thesis
    using True by auto
next
  case False
  then show ?thesis
    using get_type_no_row [OF assms(1)] by simp
qed

definition some_importer :: "string importer" where
  "some_importer m = Ret (\<lambda>cls. Some (m @ ''.'' @ cls))"

theorem get_type_memo_witness:
  "fst (get_type \<lparr>ndebug = False, mem = (\<lambda>_. True)\<rparr> some_importer Name (\<lambda>_. None))
     = Ret ''ndn.Name.Name''"
  using get_type_memo [of "\<lparr>ndebug = False, mem = (\<lambda>_. True)\<rparr>" "\<lambda>_. None" some_importer Name]
  by (simp add: class_of_def import_class_def some_importer_def)

text \<open>
  Of the exceptions the module creates, all are caught by \<^verbatim>\<open>NDNError\<close> except
  \<^verbatim>\<open>NDNKeyError\<close>, which is given its own global as its base: \<^verbatim>\<open>Exception\<close> when the module
  is initialised for the first time, the class of the initialisation before when it is again.
\<close>

theorem exception_hierarchy:
  assumes "exc_ok st"
  shows "(\<exists>c. exc_global (initialize_exceptions st) NDNError = Some c
        \<and> list_all (\<lambda>e. \<exists>i. exc_global (initialize_exceptions st) e = Some i
             \<and> caught_by (exc_base (initialize_exceptions st)) c i = (e \<noteq> NDNKeyError)) ndn_exceptions)
    \<and> (\<exists>k. exc_global (initialize_exceptions st) NDNKeyError = Some k
        \<and> exc_base (initialize_exceptions st) k = exc_global st NDNKeyError)
    \<and> exc_ok (initialize_exceptions st)"
proof -
  let ?s = "initialize_exceptions st" and ?n = "exc_next st"
  obtain g b where st: "st = \<lparr>exc_next = ?n, exc_global = g, exc_base = b\<rparr>"
    by (cases st) auto
  note init = initialize_exceptions_def exception_calls_def new_exception_record
  have s: "?s = \<lparr>exc_next = ?n + 9,
      exc_global = g(NDNError \<mapsto> ?n, NDNNameError \<mapsto> ?n + 1, NDNKeyLocatorError \<mapsto> ?n + 2,
        NDNSignatureError \<mapsto> ?n + 3, NDNSignedInfoError \<mapsto> ?n + 4, NDNInterestError \<mapsto> ?n + 5,
        NDNExclusionFilterError \<mapsto> ?n + 6, NDNKeyError \<mapsto> ?n + 7, NDNDataError \<mapsto> ?n + 8),
      exc_base = b(?n := None, ?n + 1 := Some ?n, ?n + 2 := Some ?n, ?n + 3 := Some ?n, ?n + 4 := Some ?n,
        ?n + 5 := Some ?n, ?n + 6 := Some (?n + 5), ?n + 7 := g NDNKeyError, ?n + 8 := Some ?n)\<rparr>"
    by (subst st) (simp add: init eval_nat_numeral)
  have g: "exc_global st = g"
    by (subst st) simp
  have base: "exc_base ?s ?n = None" "exc_base ?s (?n + 1) = Some ?n" "exc_base ?s (?n + 2) = Some ?n"
    "exc_base ?s (?n + 3) = Some ?n" "exc_base ?s (?n + 4) = Some ?n" "exc_base ?s (?n + 5) = Some ?n"
    "exc_base ?s (?n + 6) = Some (?n + 5)" "exc_base ?s (?n + 7) = exc_global st NDNKeyError"
    "exc_base ?s (?n + 8) = Some ?n"
    by (simp_all add: s g)
  have direct: "caught_by (exc_base ?s) ?n (?n + k)" if "exc_base ?s (?n + k) = Some ?n" "0 < k" for k
    using that by (subst caught_by.simps) (simp add: caught_by.simps [of _ ?n ?n])
  have six: "caught_by (exc_base ?s) ?n (?n + 6)"
    using direct [of 5] base by (subst caught_by.simps) simp
  have key: "\<not> caught_by (exc_base ?s) ?n (?n + 7)"
  proof
    assume "caught_by (exc_base ?s) ?n (?n + 7)"
    then obtain b where "exc_global st NDNKeyError = Some b" "caught_by (exc_base ?s) ?n b"
      using base(8) by (subst (asm) caught_by.simps) (auto split: option.splits if_splits)
    then show False
      using assms caught_by_earlier [of "exc_base ?s" ?n b] unfolding exc_ok_def
      by (meson not_less)
  qed
  have "exc_ok ?s"
    using assms unfolding exc_ok_def g by (auto simp: s split: if_splits) (meson trans_less_add1)
  moreover have glob: "exc_global ?s NDNError = Some ?n" "exc_global ?s NDNNameError = Some (?n + 1)"
    "exc_global ?s NDNKeyLocatorError = Some (?n + 2)" "exc_global ?s NDNSignatureError = Some (?n + 3)"
    "exc_global ?s NDNSignedInfoError = Some (?n + 4)" "exc_global ?s NDNInterestError = Some (?n + 5)"
    "exc_global ?s NDNExclusionFilterError = Some (?n + 6)" "exc_global ?s NDNKeyError = Some (?n + 7)"
    "exc_global ?s NDNDataError = Some (?n + 8)"
    by (simp_all add: s)
  moreover have "list_all (\<lambda>e. \<exists>i. exc_global ?s e = Some i
      \<and> caught_by (exc_base ?s) ?n i = (e \<noteq> NDNKeyError)) ndn_exceptions"
    using direct [of 1] direct [of 2] direct [of 3] direct [of 4] direct [of 5] direct [of 8] six key base
    unfolding ndn_exceptions_def by (simp add: glob caught_by.simps [of _ ?n ?n])
  ultimately show ?thesis
    using base(8) by blast
qed

theorem exception_hierarchy_witness:
  "\<exists>c k. exc_global (initialize_exceptions no_exceptions) NDNError = Some c
     \<and> exc_global (initialize_exceptions no_exceptions) NDNKeyError = Some k
     \<and> exc_base (initialize_exceptions no_exceptions) k = None"
  using exception_hierarchy [of no_exceptions] by (auto simp: exc_ok_def no_exceptions_def)

end
