(* ===== verification/RunState.thy ===== *)
theory RunState
  imports Objects
begin

section \<open>Which handles are inside ndn\_run (csrc/util.c, csrc/methods\_handle.c)\<close>

text \<open>
  The module keeps a linked list of the handles whose \<^verbatim>\<open>ndn_run\<close> is executing.
  \<^verbatim>\<open>_pyndn_cmd_run\<close> adds its handle, releases the interpreter lock while libndn runs, and
  takes the handle out again; other threads, and callbacks of the same thread, may do the
  same meanwhile. The list is modelled as a list of handles, most recent first; the two
  halves of \<^verbatim>\<open>_pyndn_cmd_run\<close> as separate operations, and their interleavings as a
  step relation.
\<close>

subsection \<open>The list\<close>

definition run_state_add :: "'e env_scheme \<Rightarrow> nat \<Rightarrow> nat list \<Rightarrow> nat list outcome" where
  "run_state_add E handle st = jump_if_null_mem (mem E A_run_state) (Ret (handle # st))"

text \<open>The result is the node found, that is, the rest of the list from it.\<close>

fun run_state_find :: "nat \<Rightarrow> nat list \<Rightarrow> nat list option" where
  "run_state_find handle [] = None"
| "run_state_find handle (p # ps) =
     (if p \<noteq> handle then run_state_find handle ps else Some (p # ps))"

text \<open>
  \<^verbatim>\<open>_pyndn_run_state_clear\<close> looks at the first node before asking whether there is one.
  The loop \<open>unlink\<close> is its second half, the nodes after the first.
\<close>

fun unlink :: "nat \<Rightarrow> nat list \<Rightarrow> nat list" where
  "unlink handle [] = []"
| "unlink handle (p # ps) = (if p \<noteq> handle then p # unlink handle ps else ps)"

fun run_state_clear :: "nat \<Rightarrow> nat list \<Rightarrow> nat list outcome" where
  "run_state_clear handle [] = Undef"
| "run_state_clear handle (p # ps) =
     (if p = handle then Ret ps else Ret (p # unlink handle ps))"

lemma find_iff: "run_state_find h st \<noteq> None \<longleftrightarrow> h \<in> set st"
  by (induction st) auto

lemma unlink_mset: "mset (unlink h st) = mset st - {#h#}"
  by (induction st) auto

lemma clear_mset:
  "st \<noteq> [] \<Longrightarrow> \<exists>st'. run_state_clear h st = Ret st' \<and> mset st' = mset st - {#h#}"
  by (cases st) (auto simp: unlink_mset)

text \<open>
  The contract: the list implements a multiset of handles. The client sees a bag with
  \<open>add\<close>, \<open>remove\<close> and membership.
\<close>

locale bag =
  fixes content :: "'s \<Rightarrow> 'a multiset"
    and add :: "'a \<Rightarrow> 's \<Rightarrow> 's outcome"
    and remove :: "'a \<Rightarrow> 's \<Rightarrow> 's outcome"
    and mem :: "'a \<Rightarrow> 's \<Rightarrow> bool"
  assumes add_content: "add a s = Ret s' \<Longrightarrow> content s' = add_mset a (content s)"
    and remove_content:
      "content s \<noteq> {#} \<Longrightarrow> \<exists>s'. remove a s = Ret s' \<and> content s' = content s - {#a#}"
    and mem_content: "mem a s \<longleftrightarrow> a \<in># content s"
begin

lemma add_remove:
  assumes "add a s = Ret s'"
  shows "\<exists>s''. remove a s' = Ret s'' \<and> content s'' = content s"
proof -
  from add_content [OF assms] have c: "content s' = add_mset a (content s)" .
  then have "content s' \<noteq> {#}" by simp
  from remove_content [OF this, of a] c show ?thesis by simp
qed

lemma remove_member:
  "mem a s \<Longrightarrow> \<exists>s'. remove a s = Ret s' \<and> content s = add_mset a (content s')"
  using remove_content [of s a] mem_content [of a s] by fastforce

end

interpretation run_bag: bag mset "run_state_add E" run_state_clear
    "\<lambda>h st. run_state_find h st \<noteq> None"
proof unfold_locales
  show "run_state_add E a s = Ret s' \<Longrightarrow> mset s' = add_mset a (mset s)" for a s s'
    by (auto simp: run_state_add_def jump_if_null_mem_def split: if_splits)
  show "mset s \<noteq> {#} \<Longrightarrow> \<exists>s'. run_state_clear a s = Ret s' \<and> mset s' = mset s - {#a#}"
    for a :: nat and s
    by (rule clear_mset) auto
  show "(run_state_find a s \<noteq> None) = (a \<in># mset s)" for a s
    by (simp only: find_iff set_mset_mset)
qed

subsection \<open>The commands\<close>

definition the_handle :: "'e env_scheme \<Rightarrow> pyval \<Rightarrow> nat outcome" where
  "the_handle E v =
     bnd (NDNObject_IsValid E HANDLE v) (\<lambda>ok.
       if \<not> ok then Raise TypeError
       else bnd (NDNObject_Get E HANDLE v) (\<lambda>p.
              case p of Some (P_Handle h) \<Rightarrow> Ret h | _ \<Rightarrow> Undef))"

definition cmd_is_run_executing :: "'e env_scheme \<Rightarrow> pyval \<Rightarrow> nat list \<Rightarrow> pyval outcome" where
  "cmd_is_run_executing E py_handle st =
     bnd (the_handle E py_handle) (\<lambda>h. Ret (PyBool (run_state_find h st \<noteq> None)))"

text \<open>
  \<^verbatim>\<open>_pyndn_cmd_run\<close> up to the call of \<^verbatim>\<open>ndn_run\<close>: the arguments
  (\<^verbatim>\<open>"O|i"\<close>), the handle, the new node. The result is the handle and the timeout
  handed to \<^verbatim>\<open>ndn_run\<close>.
\<close>

definition run_args :: "pyval list \<Rightarrow> (pyval \<times> int) outcome" where
  "run_args args =
     (case args of
        [h] \<Rightarrow> Ret (h, - 1)
      | [h, t] \<Rightarrow> bnd (arg_int t) (\<lambda>n. Ret (h, n))
      | _ \<Rightarrow> Raise TypeError)"

definition run_enter ::
    "'e env_scheme \<Rightarrow> pyval list \<Rightarrow> nat list \<Rightarrow> (nat \<times> int \<times> nat list) outcome" where
  "run_enter E args st =
     bnd (run_args args) (\<lambda>(py_handle, timeoutms).
       bnd (the_handle E py_handle) (\<lambda>handle.
         bnd (run_state_add E handle st) (\<lambda>st'. Ret (handle, timeoutms, st'))))"

text \<open>
  \<^verbatim>\<open>_pyndn_cmd_run\<close> after \<^verbatim>\<open>ndn_run\<close> has returned \<open>r\<close>: the node is taken
  out whatever the result. Both messages for a failure are an \<^verbatim>\<open>NDNError\<close>.
\<close>

definition run_leave :: "nat \<Rightarrow> int \<Rightarrow> nat list \<Rightarrow> pyval outcome \<times> nat list" where
  "run_leave state_slot r st =
     (case run_state_clear state_slot st of
        Ret st' \<Rightarrow> (if r < 0 then Raise NDNError else Ret PyNone, st')
      | Raise e \<Rightarrow> (Raise e, st)
      | Abort \<Rightarrow> (Abort, st)
      | Undef \<Rightarrow> (Undef, st))"

subsection \<open>Interleaved runs\<close>

text \<open>
  The state of the process: the module's list, and for each call of
  \<^verbatim>\<open>_pyndn_cmd_run\<close> that is inside \<^verbatim>\<open>ndn_run\<close> its \<^verbatim>\<open>state_slot\<close>. Any call
  in progress may be the next to return. \<open>crashed\<close> records undefined behaviour.
\<close>

record run_sys =
  run_list :: "nat list"
  inside :: "nat multiset"
  crashed :: bool

definition boot :: run_sys where
  "boot = \<lparr>run_list = [], inside = {#}, crashed = False\<rparr>"

inductive run_step :: "run_sys \<Rightarrow> run_sys \<Rightarrow> bool" where
  enter: "run_enter (E :: env) args (run_list s) = Ret (h, t, st') \<Longrightarrow>
    run_step s (s\<lparr>run_list := st', inside := add_mset h (inside s)\<rparr>)"
| leave: "h \<in># inside s \<Longrightarrow> run_leave h r (run_list s) = (res, st') \<Longrightarrow>
    run_step s (s\<lparr>run_list := st', inside := inside s - {#h#}, crashed := (crashed s \<or> is_crash res)\<rparr>)"

inductive run_reachable :: "run_sys \<Rightarrow> bool" where
  start: "run_reachable boot"
| step: "run_reachable s \<Longrightarrow> run_step s s' \<Longrightarrow> run_reachable s'"

lemma run_leave_inside:
  assumes "h \<in> set st"
  shows "fst (run_leave h r st) = (if r < 0 then Raise NDNError else Ret PyNone)
         \<and> mset (snd (run_leave h r st)) = mset st - {#h#}"
proof -
  from assms have "mset st \<noteq> {#}" by auto
  from run_bag.remove_content [OF this, of h] obtain st' where
    "run_state_clear h st = Ret st'" "mset st' = mset st - {#h#}" by auto
  then show ?thesis by (simp add: run_leave_def)
qed

lemma run_enter_adds:
  "run_enter E args st = Ret (h, t, st') \<Longrightarrow> mset st' = add_mset h (mset st)"
  by (auto simp: run_enter_def bnd_eq_Ret dest: run_bag.add_content)

lemma run_reachable_inv: "run_reachable s \<Longrightarrow> mset (run_list s) = inside s \<and> \<not> crashed s"
proof (induction rule: run_reachable.induct)
  case start
  then show ?case by (simp add: boot_def)
next
  case (step s s')
  from step.hyps(2) show ?case
  proof (cases rule: run_step.cases)
    case (enter E args h t st')
    then show ?thesis using step.IH by (simp add: run_enter_adds)
  next
    case (leave h r res st')
    then have "h \<in> set (run_list s)"
      using step.IH by (metis set_mset_mset)
    from run_leave_inside [OF this, of r] leave step.IH show ?thesis by (cases "r < 0") auto
  qed
qed

subsection \<open>Properties\<close>

text \<open>
  C6. However calls of \<^verbatim>\<open>run\<close> nest and interleave, the list holds one node for each
  call inside \<^verbatim>\<open>ndn_run\<close>; so \<^verbatim>\<open>is_run_executing\<close> answers whether some
  call on that handle is, and taking a node out never meets the empty list.
\<close>

theorem run_state_tracks_runs:
  assumes "run_reachable s"
  shows "mset (run_list s) = inside s \<and> \<not> crashed s
    \<and> cmd_is_run_executing E
         (PyCapsule \<lparr>cap_pointer = P_Handle h, cap_name = Some (capsule_name HANDLE),
                     cap_context = NoContext, cap_owned = True\<rparr>) (run_list s)
       = Ret (PyBool (h \<in># inside s))"
proof -
  from run_reachable_inv [OF assms] have inv: "mset (run_list s) = inside s" "\<not> crashed s"
    by auto
  have "run_state_find h (run_list s) \<noteq> None \<longleftrightarrow> h \<in># inside s"
    using run_bag.mem_content [of h "run_list s"] inv(1) by simp
  then show ?thesis
    using inv
    by (simp add: cmd_is_run_executing_def the_handle_def has_type_def capsule_is_valid_def
        NDNObject_Get_def del: not_None_eq)
qed

text \<open>
  Run the other way round, clearing is only safe because of that invariant: on a
  non-empty list it removes one occurrence of the handle, and on the empty list it reads
  through \<^verbatim>\<open>NULL\<close>.
\<close>

theorem run_state_clear_spec:
  "(case run_state_clear h st of
      Ret st' \<Rightarrow> st \<noteq> [] \<and> mset st' = mset st - {#h#} \<and> (h \<notin> set st \<longrightarrow> st' = st)
    | Undef \<Rightarrow> st = []
    | _ \<Rightarrow> False)"
proof -
  have "h \<notin> set ps \<Longrightarrow> unlink h ps = ps" for ps
    by (induction ps) auto
  then show ?thesis
    by (cases st) (auto simp: unlink_mset)
qed

definition handle_capsule :: "nat \<Rightarrow> pyval" where
  "handle_capsule h =
     PyCapsule \<lparr>cap_pointer = P_Handle h, cap_name = Some (capsule_name HANDLE),
                cap_context = NoContext, cap_owned = True\<rparr>"

definition plain_env :: env where
  "plain_env = \<lparr>ndebug = False, mem = (\<lambda>_. True)\<rparr>"

theorem run_state_tracks_runs_witness:
  "mset [4::nat] = {#4#} \<and> cmd_is_run_executing plain_env (handle_capsule 4) [4] = Ret (PyBool True)"
proof -
  have "run_enter plain_env [handle_capsule 4] [] = Ret (4, - 1, [4])"
    by (simp add: run_enter_def run_args_def the_handle_def has_type_def capsule_is_valid_def
        NDNObject_Get_def handle_capsule_def run_state_add_def jump_if_null_mem_def plain_env_def)
  then have "run_step boot (boot\<lparr>run_list := [4], inside := add_mset 4 (inside boot)\<rparr>)"
    by (intro run_step.enter) (simp add: boot_def)
  from run_state_tracks_runs [OF run_reachable.step [OF run_reachable.start this], of plain_env 4]
  show ?thesis
    by (simp add: boot_def handle_capsule_def)
qed

theorem run_state_clear_spec_witness: "run_state_clear 4 [3, 4, 4] = Ret [3, 4::nat]"
  using run_state_clear_spec [where h = 4 and st = "[3, 4, 4]"] by simp

end
