(* ===== verification/SystemM.thy ===== *)
theory SystemM
  imports PyValues
begin

section \<open>The system around the module: files, entropy, output\<close>

text \<open>
  What \<^verbatim>\<open>csrc/util.c\<close> does with files and output, \<^verbatim>\<open>namecrypto/toolkit.c\<close>, and the seeding of
  OpenSSL's generator at the start of \<^verbatim>\<open>csrc/key_utils.c\<close>. The functions of the system are a
  record; what the code asks of it is returned as a list of actions, so that theories which
  call it can say what was opened, closed, read and written.
\<close>

subsection \<open>The functions of the system\<close>

text \<open>
  \<open>os_fileno\<close> is \<^verbatim>\<open>PyObject_AsFileDescriptor\<close>, which sets the exception itself; \<open>os_fdopen\<close> gives
  what is left to read of the file, or \<open>None\<close> for \<^verbatim>\<open>NULL\<close>. \<open>os_rand_load\<close> is what
  \<^verbatim>\<open>RAND_load_file\<close> returns, \<open>os_rand_file_name\<close> the name \<^verbatim>\<open>RAND_file_name\<close> stores.
\<close>

record os =
  os_fileno :: "pyval \<Rightarrow> int outcome"
  os_dup :: "int \<Rightarrow> int"
  os_fdopen :: "int \<Rightarrow> string \<Rightarrow> bytes option"
  os_rand_file_name :: "string option"
  os_rand_load :: "string \<Rightarrow> int \<Rightarrow> int"
  os_fopen :: "string \<Rightarrow> string \<Rightarrow> bool"

subsection \<open>File handles\<close>

text \<open>
  A handle is the duplicate of a Python file's descriptor. When \<^verbatim>\<open>fdopen\<close> fails the
  duplicate is closed again; \<^verbatim>\<open>fclose\<close> closes the descriptor of a handle.
\<close>

datatype fd_action = Fd_dup int | Fd_close int

definition open_file_handle :: "os \<Rightarrow> pyval \<Rightarrow> string \<Rightarrow> (int \<times> bytes) outcome \<times> fd_action list" where
  "open_file_handle S py_file mode =
     (case os_fileno S py_file of
        Ret ofd \<Rightarrow>
          if ofd < 0 then (Raise SystemError, [])
          else (let fd = os_dup S ofd in
                if fd < 0 then (Raise IOError, [])
                else case os_fdopen S fd mode of
                       None \<Rightarrow> (Raise IOError, [Fd_dup fd] @ (if fd > - 1 then [Fd_close fd] else []))
                     | Some content \<Rightarrow> (Ret (fd, content), [Fd_dup fd]))
      | Raise e \<Rightarrow> (Raise e, [])
      | Abort \<Rightarrow> (Abort, [])
      | Undef \<Rightarrow> (Undef, []))"

definition close_file_handle :: "int \<Rightarrow> fd_action list" where
  "close_file_handle fd = [Fd_close fd]"

text \<open>
  What the callers do: work on the file between the two, and close it whatever the
  result; a crash does not come back.
\<close>

definition with_file ::
    "os \<Rightarrow> pyval \<Rightarrow> string \<Rightarrow> (bytes \<Rightarrow> 'a outcome) \<Rightarrow> 'a outcome \<times> fd_action list" where
  "with_file S py_file mode work =
     (case open_file_handle S py_file mode of
        (Ret (fd, content), opened) \<Rightarrow>
          (let r = work content in
           (r, opened @ (if is_crash r then [] else close_file_handle fd)))
      | (Raise e, opened) \<Rightarrow> (Raise e, opened)
      | (Abort, opened) \<Rightarrow> (Abort, opened)
      | (Undef, opened) \<Rightarrow> (Undef, opened))"

text \<open>Descriptors opened and closed again in order.\<close>

fun fds_after :: "fd_action list \<Rightarrow> int list \<Rightarrow> int list option" where
  "fds_after [] fds = Some fds"
| "fds_after (Fd_dup fd # as) fds = fds_after as (fd # fds)"
| "fds_after (Fd_close fd # as) fds = (if fd \<in> set fds then fds_after as (remove1 fd fds) else None)"

definition closes_what_it_opens :: "fd_action list \<Rightarrow> bool" where
  "closes_what_it_opens as \<longleftrightarrow> (fds_after as [] = Some [])"

lemma open_file_handle_cases:
  "(\<exists>fd c. open_file_handle S f mode = (Ret (fd, c), [Fd_dup fd]))
   \<or> (\<exists>fd e. open_file_handle S f mode = (Raise e, [Fd_dup fd, Fd_close fd]))
   \<or> (\<exists>r. \<not> is_ret r \<and> open_file_handle S f mode = (r, []))"
proof (cases "os_fileno S f")
  case (Ret ofd)
  then show ?thesis
    by (cases "ofd < 0"; cases "os_dup S ofd < 0"; cases "os_fdopen S (os_dup S ofd) mode")
      (simp_all add: open_file_handle_def Let_def)
qed (simp_all add: open_file_handle_def)

lemma with_file_closes:
  assumes "\<not> is_crash (fst (with_file S f mode work))"
  shows "closes_what_it_opens (snd (with_file S f mode work))"
  using open_file_handle_cases [of S f mode] assms
proof (elim disjE exE conjE)
  fix r
  assume "\<not> is_ret r" "open_file_handle S f mode = (r, [])"
  then show ?thesis
    by (cases r) (auto simp: with_file_def closes_what_it_opens_def)
qed (auto simp: with_file_def closes_what_it_opens_def close_file_handle_def Let_def)

subsection \<open>Seeding the generator\<close>

text \<open>The static variables \<^verbatim>\<open>g_seed_file\<close> and \<^verbatim>\<open>g_seeded\<close>.\<close>

record prng =
  g_seed_file :: string
  g_seeded :: bool

datatype rand_call = RAND_load_file string int | RAND_write_file string

definition prng_boot :: prng where
  "prng_boot = \<lparr>g_seed_file = [], g_seeded = False\<rparr>"

definition seed_prng :: "os \<Rightarrow> prng \<Rightarrow> unit outcome \<times> prng \<times> rand_call list" where
  "seed_prng S st =
     (let file = (if g_seed_file st \<noteq> [] then Some (g_seed_file st) else os_rand_file_name S) in
      case file of
        None \<Rightarrow> (Abort, st, [])
      | Some f \<Rightarrow>
          (let st = st\<lparr>g_seed_file := f\<rparr>; own = RAND_load_file f (- 1) in
           if os_rand_load S f (- 1) \<noteq> 0
           then (Ret (), st\<lparr>g_seeded := True\<rparr>, [own, RAND_load_file ''/dev/random'' 8])
           else if os_rand_load S ''/dev/urandom'' 2048 < 2048
           then (Abort, st, [own, RAND_load_file ''/dev/urandom'' 2048])
           else if os_rand_load S ''/dev/random'' 32 < 32
           then (Abort, st, [own, RAND_load_file ''/dev/urandom'' 2048, RAND_load_file ''/dev/random'' 32])
           else (Ret (), st\<lparr>g_seeded := True\<rparr>,
                 [own, RAND_load_file ''/dev/urandom'' 2048, RAND_load_file ''/dev/random'' 32])))"

definition save_seed :: "'e env_scheme \<Rightarrow> prng \<Rightarrow> rand_call list outcome" where
  "save_seed E st =
     c_assert E (g_seed_file st \<noteq> [])
       (Ret (if \<not> g_seeded st then [] else [RAND_write_file (g_seed_file st)]))"

text \<open>What \<^verbatim>\<open>seed_prng\<close> accepts as entropy: any result of loading the seed file but zero.\<close>

definition entropy :: "os \<Rightarrow> string \<Rightarrow> bool" where
  "entropy S f \<longleftrightarrow>
     os_rand_load S f (- 1) \<noteq> 0
     \<or> 2048 \<le> os_rand_load S ''/dev/urandom'' 2048 \<and> 32 \<le> os_rand_load S ''/dev/random'' 32"

lemma seed_prng_spec:
  "seed_prng S st = (r, st', calls) \<Longrightarrow>
     r \<noteq> Undef \<and> (\<forall>e. r \<noteq> Raise e)
     \<and> (r = Ret () \<longrightarrow> g_seeded st' \<and> RAND_load_file (g_seed_file st') (- 1) \<in> set calls \<and> entropy S (g_seed_file st'))
     \<and> (r = Abort \<longrightarrow> g_seeded st' = g_seeded st)"
  by (auto simp: seed_prng_def entropy_def Let_def split: option.splits if_splits)

subsection \<open>Output\<close>

text \<open>
  \<^verbatim>\<open>dump_charbuf\<close> of \<^verbatim>\<open>util.c\<close> and \<^verbatim>\<open>print_hex\<close> of \<^verbatim>\<open>toolkit.c\<close>, as the characters they
  write; \<^verbatim>\<open>isprint\<close> is that of the C locale.
\<close>

definition is_print :: "byte \<Rightarrow> bool" where
  "is_print b \<longleftrightarrow> 32 \<le> unat b \<and> unat b < 127"

definition hex_digit :: "nat \<Rightarrow> nat \<Rightarrow> byte" where
  "hex_digit ten d = of_nat (if d < 10 then 48 + d else ten + (d - 10))"

definition hex_byte :: "nat \<Rightarrow> byte \<Rightarrow> bytes" where
  "hex_byte ten b = [hex_digit ten (unat b div 16), hex_digit ten (unat b mod 16)]"

definition dump_charbuf :: "bytes \<Rightarrow> bytes" where
  "dump_charbuf c = concat (map (\<lambda>b. if is_print b then [b] else [92, 120] @ hex_byte 97 b) c)"

definition print_hex :: "bytes \<Rightarrow> nat \<Rightarrow> bytes outcome" where
  "print_hex s len = bnd (mem_read s 0 len) (\<lambda>b. Ret (concat (map (hex_byte 65) b)))"

text \<open>\<^verbatim>\<open>print_object\<close> appends both forms of an object to a log it opens without a check.\<close>

definition print_object :: "os \<Rightarrow> (pyval \<Rightarrow> bytes) \<Rightarrow> (pyval \<Rightarrow> bytes) \<Rightarrow> pyval \<Rightarrow> bytes outcome" where
  "print_object S repr str object =
     (if \<not> os_fopen S ''object.log'' ''aw'' then Undef
      else Ret (repr object @ [10] @ str object @ [10, 10]))"

text \<open>
  The hexadecimal output can be read back; the other one cannot, since a backslash is
  printed as it is.
\<close>

fun unhex_digit :: "byte \<Rightarrow> nat" where
  "unhex_digit c = (if unat c < 58 then unat c - 48 else unat c - 55)"

fun unhex :: "bytes \<Rightarrow> bytes" where
  "unhex (a # b # r) = of_nat (16 * unhex_digit a + unhex_digit b) # unhex r"
| "unhex _ = []"

lemma unhex_digit: "d < 16 \<Longrightarrow> unhex_digit (hex_digit 65 d) = d"
  by (simp add: hex_digit_def unat_of_nat_small del: of_nat_add of_nat_diff)

lemma print_hex_read: "print_hex s (length s) = Ret x \<Longrightarrow> unhex x = s"
proof -
  have "unhex (concat (map (hex_byte 65) s)) = s"
  proof (induction s)
    case (Cons b s)
    have "unat b div 16 < 16" using unat_byte [of b] by (simp add: div_less_iff_less_mult)
    then show ?case
      using Cons by (simp add: hex_byte_def unhex_digit del: unhex_digit.simps)
  qed simp
  then show "print_hex s (length s) = Ret x \<Longrightarrow> unhex x = s"
    by (auto simp: print_hex_def mem_read_def)
qed

lemma dump_ambiguous: "dump_charbuf [0] = dump_charbuf [92, 120, 48, 48]"
  by (simp add: dump_charbuf_def is_print_def hex_byte_def hex_digit_def)

end
