(* ===== verification/FaceM.thy ===== *)
theory FaceM
  imports RunState
begin

section \<open>The lock of a face: python/ndn/Face.py over csrc/methods\_handle.c\<close>

text \<open>
  A \<^verbatim>\<open>Face\<close> guards its handle with a lock. \<^verbatim>\<open>run\<close> holds it while \<^verbatim>\<open>ndn_run\<close> executes; five
  methods ask \<^verbatim>\<open>is_run_executing\<close> whether they are called from a callback and take
  the lock only if not; the others enter libndn without it, two of them
  (\<^verbatim>\<open>process_scheduled\<close>, \<^verbatim>\<open>output_is_pending\<close>) after an assertion that no run executes. The answer is that of the module's list of runs (theory \<open>RunState\<close>),
  which does not know threads. A method is modelled by the points between which the
  interpreter may switch threads; a thread has a stack of them, since libndn calls back.
\<close>

subsection \<open>Threads inside the methods\<close>

text \<open>
  The points of \<^verbatim>\<open>_expressInterest\<close>, \<^verbatim>\<open>_setInterestFilter\<close>, \<^verbatim>\<open>clearInterestFilter\<close>,
  \<^verbatim>\<open>get\<close> and \<^verbatim>\<open>put\<close>, which differ in the command they call, and those of \<^verbatim>\<open>run\<close>. The methods
  without the lock have one point, their call: \<open>In_scheduled\<close> is that of \<^verbatim>\<open>process_scheduled\<close>,
  in which libndn calls back, \<open>In_free\<close> that of the others.
\<close>

datatype point =
    At_check | At_acquire | In_call | At_recheck | At_release
  | Run_acquire | Run_enter | Run_inside | Run_release
  | In_free | In_scheduled

record face_sys =
  runs :: "nat list"
  locked :: bool
  stacks :: "nat \<Rightarrow> point list"
  errors :: "(nat \<times> py_exc) list"

definition new_face :: face_sys where
  "new_face = \<lparr>runs = [], locked = False, stacks = (\<lambda>_. []), errors = []\<rparr>"

definition executing :: "'e env_scheme \<Rightarrow> nat \<Rightarrow> face_sys \<Rightarrow> bool" where
  "executing E h s = (cmd_is_run_executing E (handle_capsule h) (runs s) = Ret (PyBool True))"

text \<open>
  \<^verbatim>\<open>_acquire_lock\<close> takes the lock when it is free, otherwise the thread waits (\<open>None\<close>).
  \<^verbatim>\<open>release\<close> of a lock nobody holds raises \<^verbatim>\<open>thread.error\<close>; it may be called by a thread
  that does not hold it.
\<close>

definition goto :: "nat \<Rightarrow> point list \<Rightarrow> face_sys \<Rightarrow> face_sys" where
  "goto t ps s = s\<lparr>stacks := (stacks s)(t := ps)\<rparr>"

definition throw :: "nat \<Rightarrow> py_exc \<Rightarrow> face_sys \<Rightarrow> face_sys" where
  "throw t e s = s\<lparr>errors := (t, e) # errors s\<rparr>"

definition lock_acquire :: "face_sys \<Rightarrow> face_sys option" where
  "lock_acquire s = (if locked s then None else Some (s\<lparr>locked := True\<rparr>))"

definition lock_release :: "nat \<Rightarrow> face_sys \<Rightarrow> face_sys" where
  "lock_release t s = (if locked s then s\<lparr>locked := False\<rparr> else throw t ThreadError s)"

text \<open>
  One step of the method on top of a thread's stack. \<open>n\<close> is the timeout when \<^verbatim>\<open>run\<close> is
  entered and the status of \<^verbatim>\<open>ndn_run\<close> when it is left.
\<close>

fun advance_point :: "'e env_scheme \<Rightarrow> nat \<Rightarrow> nat \<Rightarrow> int \<Rightarrow> point \<Rightarrow> point list \<Rightarrow> face_sys \<Rightarrow> face_sys option" where
  "advance_point E h t n At_check ps s =
     Some (goto t ((if executing E h s then In_call else At_acquire) # ps) s)"
| "advance_point E h t n At_acquire ps s = map_option (goto t (In_call # ps)) (lock_acquire s)"
| "advance_point E h t n In_call ps s = Some (goto t (At_recheck # ps) s)"
| "advance_point E h t n At_recheck ps s =
     Some (goto t (if executing E h s then ps else At_release # ps) s)"
| "advance_point E h t n At_release ps s = Some (goto t ps (lock_release t s))"
| "advance_point E h t n Run_acquire ps s = map_option (goto t (Run_enter # ps)) (lock_acquire s)"
| "advance_point E h t n Run_enter ps s =
     (case run_enter E [handle_capsule h, PyInt n] (runs s) of
        Ret (_, _, st) \<Rightarrow> Some (goto t (Run_inside # ps) (s\<lparr>runs := st\<rparr>))
      | Raise e \<Rightarrow> Some (goto t (Run_release # ps) (throw t e s))
      | _ \<Rightarrow> None)"
| "advance_point E h t n Run_inside ps s =
     (case run_leave h n (runs s) of
        (Ret _, st) \<Rightarrow> Some (goto t (Run_release # ps) (s\<lparr>runs := st\<rparr>))
      | (Raise e, st) \<Rightarrow> Some (goto t (Run_release # ps) (throw t e (s\<lparr>runs := st\<rparr>)))
      | _ \<Rightarrow> None)"
| "advance_point E h t n Run_release ps s = Some (goto t ps (lock_release t s))"
| "advance_point E h t n In_free ps s = Some (goto t ps s)"
| "advance_point E h t n In_scheduled ps s = Some (goto t ps s)"

text \<open>
  A thread calls a method from outside or in a callback, which libndn makes inside
  \<^verbatim>\<open>ndn_run\<close> and inside \<^verbatim>\<open>ndn_process_scheduled_operations\<close>; \<open>cb\<close> says whether it also does
  inside the commands of the other methods (as when \<^verbatim>\<open>ndn_get\<close> waits for an answer).
  \<open>Call_method\<close> is a call of one of the five methods with the lock; \<open>Call_free\<close> one of \<^verbatim>\<open>connect\<close>,
  \<^verbatim>\<open>disconnect\<close>, \<^verbatim>\<open>defer_verification\<close>, \<^verbatim>\<open>fileno\<close> and \<^verbatim>\<open>setRunTimeout\<close>, which only call their
  command; \<open>Call_pending\<close> and \<open>Call_scheduled\<close> are \<^verbatim>\<open>output_is_pending\<close> and
  \<^verbatim>\<open>process_scheduled\<close>.
\<close>

datatype action = Call_method | Call_run | Call_free | Call_pending | Call_scheduled | Go int

definition may_call :: "bool \<Rightarrow> point list \<Rightarrow> bool" where
  "may_call cb ps = (case ps of [] \<Rightarrow> True
     | p # _ \<Rightarrow> p = Run_inside \<or> p = In_scheduled \<or> cb \<and> (p = In_call \<or> p = In_free))"

text \<open>The first point of a method, unless its assertion fails.\<close>

fun first_point :: "action \<Rightarrow> bool \<Rightarrow> point option" where
  "first_point Call_run run_executing = (if run_executing then None else Some Run_acquire)"
| "first_point Call_pending run_executing = (if run_executing then None else Some In_free)"
| "first_point Call_scheduled run_executing = (if run_executing then None else Some In_scheduled)"
| "first_point Call_free run_executing = Some In_free"
| "first_point _ run_executing = Some At_check"

definition face_step :: "'e env_scheme \<Rightarrow> nat \<Rightarrow> bool \<Rightarrow> nat \<Rightarrow> action \<Rightarrow> face_sys \<Rightarrow> face_sys option" where
  "face_step E h cb t a s =
     (case a of
        Go n \<Rightarrow> (case stacks s t of [] \<Rightarrow> None | p # ps \<Rightarrow> advance_point E h t n p ps s)
      | _ \<Rightarrow>
          if may_call cb (stacks s t)
          then Some (case first_point a (executing E h s) of
              None \<Rightarrow> throw t AssertionError s
            | Some p \<Rightarrow> goto t (p # stacks s t) s)
          else None)"

fun face_exec ::
    "'e env_scheme \<Rightarrow> nat \<Rightarrow> bool \<Rightarrow> (nat \<times> action) list \<Rightarrow> face_sys \<Rightarrow> face_sys option" where
  "face_exec E h cb [] s = Some s"
| "face_exec E h cb ((t, a) # as) s =
     (case face_step E h cb t a s of None \<Rightarrow> None | Some s' \<Rightarrow> face_exec E h cb as s')"

text \<open>The states threads \<open>T\<close> can reach together.\<close>

inductive face_reachable :: "'e env_scheme \<Rightarrow> nat \<Rightarrow> bool \<Rightarrow> nat set \<Rightarrow> face_sys \<Rightarrow> bool"
  for E h cb T where
  start: "face_reachable E h cb T new_face"
| step: "face_reachable E h cb T s \<Longrightarrow> t \<in> T \<Longrightarrow> face_step E h cb t a s = Some s'
    \<Longrightarrow> face_reachable E h cb T s'"

lemma face_exec_reachable:
  "face_reachable E h cb T s \<Longrightarrow> fst ` set as \<subseteq> T \<Longrightarrow> face_exec E h cb as s = Some s'
   \<Longrightarrow> face_reachable E h cb T s'"
  by (induction as arbitrary: s)
    (auto split: option.splits, metis face_reachable.step)

lemma executing_iff [simp]: "executing E h s \<longleftrightarrow> h \<in> set (runs s)"
  by (simp add: executing_def cmd_is_run_executing_def the_handle_def has_type_def
      capsule_is_valid_def NDNObject_Get_def handle_capsule_def find_iff [symmetric] del: not_None_eq)

lemma goto_simps [simp]:
  "runs (goto t ps s) = runs s" "locked (goto t ps s) = locked s" "errors (goto t ps s) = errors s"
  "stacks (goto t ps s) t = ps" "t' \<noteq> t \<Longrightarrow> stacks (goto t ps s) t' = stacks s t'"
  by (simp_all add: goto_def)

lemma throw_simps [simp]:
  "runs (throw t e s) = runs s" "locked (throw t e s) = locked s" "stacks (throw t e s) = stacks s"
  "errors (throw t e s) = (t, e) # errors s"
  by (simp_all add: throw_def)

lemma run_enter_face:
  "run_enter E [handle_capsule h, PyInt n] st
     = (if - (2 ^ 31) \<le> n \<and> n < 2 ^ 31 then
          (if mem E A_run_state then Ret (h, n, h # st) else Raise MemoryError)
        else Raise OverflowError)"
  by (auto simp: run_enter_def run_args_def arg_int_def long_range_def the_handle_def has_type_def
      capsule_is_valid_def NDNObject_Get_def handle_capsule_def run_state_add_def jump_if_null_mem_def)

subsection \<open>One thread\<close>

text \<open>
  Where the one thread may stand, with the lock and the list of runs it leaves there: at the
  bottom calls of \<^verbatim>\<open>process_scheduled\<close>, nested through callbacks, and on top of them the rest: at most
  one \<^verbatim>\<open>run\<close> or method, and a method called from a callback of this \<^verbatim>\<open>run\<close>, which finds its
  handle in the list, both when it is called and when it returns, and leaves the lock alone.
\<close>

definition above_scheduled :: "point list \<Rightarrow> point list" where
  "above_scheduled ps = takeWhile (\<lambda>p. p \<noteq> In_scheduled) ps"

definition only_scheduled_below :: "point list \<Rightarrow> bool" where
  "only_scheduled_below ps \<longleftrightarrow> (\<forall>q \<in> set (dropWhile (\<lambda>p. p \<noteq> In_scheduled) ps). q = In_scheduled)"

fun well_nested :: "point list \<Rightarrow> bool" where
  "well_nested [] = True"
| "well_nested [p] = True"
| "well_nested [p, q] = (q = Run_inside \<and> p \<in> {At_check, In_call, At_recheck, In_free})"
| "well_nested _ = False"

fun holds_lock :: "point list \<Rightarrow> bool" where
  "holds_lock [] = False"
| "holds_lock [p] = (p \<notin> {At_check, At_acquire, Run_acquire, In_free})"
| "holds_lock _ = True"

definition handles_run :: "nat \<Rightarrow> point list \<Rightarrow> nat list" where
  "handles_run h ps = (if ps \<noteq> [] \<and> last ps = Run_inside then [h] else [])"

definition alone :: "nat \<Rightarrow> nat \<Rightarrow> face_sys \<Rightarrow> bool" where
  "alone h t s \<longleftrightarrow>
     only_scheduled_below (stacks s t) \<and> well_nested (above_scheduled (stacks s t))
     \<and> locked s = holds_lock (above_scheduled (stacks s t))
     \<and> runs s = handles_run h (above_scheduled (stacks s t)) \<and> (\<forall>e \<in> set (errors s). snd e \<noteq> ThreadError)"

lemma above_scheduled_simps [simp]:
  "above_scheduled [] = []"
  "above_scheduled (p # ps) = (if p = In_scheduled then [] else p # above_scheduled ps)"
  by (simp_all add: above_scheduled_def)

lemma only_scheduled_below_simps [simp]:
  "only_scheduled_below []"
  "only_scheduled_below (p # ps)
     \<longleftrightarrow> (if p = In_scheduled then \<forall>q \<in> set ps. q = In_scheduled else only_scheduled_below ps)"
  by (auto simp: only_scheduled_below_def)

lemma all_scheduled:
  assumes "\<forall>q \<in> set ps. q = In_scheduled"
  shows "above_scheduled ps = []" "only_scheduled_below ps"
  using assms by (cases ps; simp)+

lemma run_leave_one: "run_leave h n [h] = (if n < 0 then Raise NDNError else Ret PyNone, [])"
  by (simp add: run_leave_def)

lemmas face_defs =
  face_step_def may_call_def lock_acquire_def lock_release_def run_enter_face run_leave_one

lemma well_nested_cases:
  "well_nested (p # ps) \<longleftrightarrow> ps = [] \<or> ps = [Run_inside] \<and> p \<in> {At_check, In_call, At_recheck, In_free}"
  by (cases ps; cases "tl ps") auto

lemma above_scheduled_Nil: "only_scheduled_below ps \<Longrightarrow> above_scheduled ps = [] \<Longrightarrow> \<forall>q \<in> set ps. q = In_scheduled"
  by (cases ps) (auto split: if_splits)

lemma above_scheduled_one:
  "only_scheduled_below ps \<Longrightarrow> above_scheduled ps = [p]
     \<Longrightarrow> \<exists>qs. ps = p # qs \<and> p \<noteq> In_scheduled \<and> (\<forall>q \<in> set qs. q = In_scheduled)"
  by (cases ps) (auto split: if_splits dest: above_scheduled_Nil)

text \<open>The shapes of the thread's stack.\<close>

lemma alone_stack:
  assumes "alone h t s" "stacks s t = p # ps"
  shows "(\<forall>q \<in> set ps. q = In_scheduled)
    \<or> (\<exists>qs. ps = Run_inside # qs \<and> (\<forall>q \<in> set qs. q = In_scheduled) \<and> p \<in> {At_check, In_call, At_recheck, In_free})"
proof (cases "p = In_scheduled")
  case False
  then have "well_nested (p # above_scheduled ps)" "only_scheduled_below ps"
    using assms by (simp_all add: alone_def)
  then show ?thesis
    using above_scheduled_Nil above_scheduled_one unfolding well_nested_cases by blast
qed (use assms in \<open>simp add: alone_def\<close>)

lemma alone_go:
  assumes "alone h t s" "stacks s t = p # ps" "advance_point E h t n p ps s = Some s'"
  shows "alone h t s'"
  using alone_stack [OF assms(1,2)]
proof (elim disjE exE conjE)
  assume below: "\<forall>q \<in> set ps. q = In_scheduled"
  show ?thesis
    using assms all_scheduled [OF below]
    by (cases p) (auto simp: alone_def handles_run_def face_defs below split: if_splits)
next
  fix qs assume ps: "ps = Run_inside # qs" "p \<in> {At_check, In_call, At_recheck, In_free}"
    and below: "\<forall>q \<in> set qs. q = In_scheduled"
  show ?thesis
    using assms ps all_scheduled [OF below]
    by (cases p) (auto simp: alone_def handles_run_def face_defs split: if_splits)
qed

lemma may_call_alone:
  assumes "alone h t s" "may_call False (stacks s t)"
  shows "(\<forall>q \<in> set (stacks s t). q = In_scheduled)
    \<or> (\<exists>qs. stacks s t = Run_inside # qs \<and> (\<forall>q \<in> set qs. q = In_scheduled))"
proof (cases "stacks s t")
  case (Cons p ps)
  with alone_stack [OF assms(1) Cons] assms(2) show ?thesis
    by (auto simp: may_call_def)
qed simp

lemma alone_call:
  assumes "alone h t s" "may_call False (stacks s t)"
  shows "alone h t (case first_point a (executing E h s) of
      None \<Rightarrow> throw t AssertionError s | Some p \<Rightarrow> goto t (p # stacks s t) s)"
  using may_call_alone [OF assms]
proof (elim disjE exE conjE)
  assume below: "\<forall>q \<in> set (stacks s t). q = In_scheduled"
  show ?thesis
    using assms(1) all_scheduled [OF below] by (cases a) (simp_all add: alone_def handles_run_def below)
next
  fix qs assume ps: "stacks s t = Run_inside # qs" and below: "\<forall>q \<in> set qs. q = In_scheduled"
  show ?thesis
    using assms(1) all_scheduled [OF below] ps by (cases a) (simp_all add: alone_def handles_run_def)
qed

lemma alone_step: "alone h t s \<Longrightarrow> face_step E h False t a s = Some s' \<Longrightarrow> alone h t s'"
  using alone_call [of h t s a E]
  by (cases a) (auto simp: face_step_def split: list.splits if_splits intro: alone_go)

lemma alone_reachable: "face_reachable E h False {t} s \<Longrightarrow> alone h t s"
proof (induction rule: face_reachable.induct)
  case start
  then show ?case by (simp add: alone_def new_face_def handles_run_def)
next
  case (step s t' a s')
  then show ?case using alone_step [of h t s E a s'] by simp
qed

lemma alone_moves:
  assumes "alone h t s" "stacks s t = p # ps"
  shows "advance_point E h t 0 p ps s \<noteq> None"
  using alone_stack [OF assms]
proof (elim disjE exE conjE)
  assume below: "\<forall>q \<in> set ps. q = In_scheduled"
  show ?thesis
    using assms all_scheduled [OF below] by (cases p) (auto simp: alone_def handles_run_def face_defs)
next
  fix qs assume ps: "ps = Run_inside # qs" "p \<in> {At_check, In_call, At_recheck, In_free}"
    and below: "\<forall>q \<in> set qs. q = In_scheduled"
  show ?thesis
    using assms ps all_scheduled [OF below] by (cases p) (auto simp: alone_def handles_run_def face_defs)
qed

lemma alone_inside:
  assumes "alone h t s" "In_call \<in> set (stacks s t) \<or> Run_inside \<in> set (stacks s t)"
  shows "locked s"
proof (cases "stacks s t")
  case (Cons p ps)
  from alone_stack [OF assms(1) Cons] show ?thesis
  proof (elim disjE exE conjE)
    assume below: "\<forall>q \<in> set ps. q = In_scheduled"
    then have "p = In_call \<or> p = Run_inside"
      using assms(2) Cons by auto
    then show ?thesis
      using assms(1) Cons all_scheduled [OF below] by (auto simp: alone_def)
  next
    fix qs assume ps: "ps = Run_inside # qs" "p \<in> {At_check, In_call, At_recheck, In_free}"
      and below: "\<forall>q \<in> set qs. q = In_scheduled"
    show ?thesis
      using assms(1) Cons ps all_scheduled [OF below] by (auto simp: alone_def)
  qed
qed (use assms in simp)

subsection \<open>Properties\<close>

text \<open>
  C13. As long as one thread uses a face, from outside and from callbacks of \<^verbatim>\<open>run\<close> and of
  \<^verbatim>\<open>process_scheduled\<close>, and libndn makes no callbacks inside its other commands, the lock works: \<^verbatim>\<open>run\<close> and the
  five methods that guard their command are inside it with the lock held; no method waits
  for ever or releases a lock that is not held; when the thread is outside, the lock is free
  and no run is listed, and so it is in \<^verbatim>\<open>process_scheduled\<close>, whose callbacks therefore can
  take it. The methods that do not take the lock call libndn without it.
\<close>

theorem one_thread_safe:
  assumes "face_reachable E h False {t} s"
  shows "(In_call \<in> set (stacks s t) \<or> Run_inside \<in> set (stacks s t) \<longrightarrow> locked s)
    \<and> (\<forall>p ps. stacks s t = p # ps \<longrightarrow> face_step E h False t (Go 0) s \<noteq> None)
    \<and> (\<forall>ps. stacks s t = [] \<or> stacks s t = In_scheduled # ps \<longrightarrow> \<not> locked s \<and> runs s = [])
    \<and> (\<forall>e \<in> set (errors s). snd e \<noteq> ThreadError)"
proof -
  from alone_reachable [OF assms] have inv: "alone h t s" .
  then show ?thesis
    using alone_moves [OF inv] alone_inside [OF inv]
    by (auto simp: alone_def face_step_def handles_run_def)
qed

theorem one_thread_safe_witness:
  "\<exists>s. face_exec plain_env 4 False
        [(1, Call_scheduled), (1, Call_run), (1, Go 0), (1, Go 0), (1, Call_scheduled), (1, Call_method), (1, Go 0)]
        new_face = Some s
     \<and> stacks s 1 = [In_call, Run_inside, In_scheduled] \<and> errors s = [(1, AssertionError)] \<and> locked s"
proof -
  let ?as = "[(1, Call_scheduled), (1, Call_run), (1, Go 0), (1, Go 0), (1, Call_scheduled), (1, Call_method), (1, Go 0)]
    :: (nat \<times> action) list"
  have ex: "\<exists>s. face_exec plain_env 4 False ?as new_face = Some s
      \<and> stacks s 1 = [In_call, Run_inside, In_scheduled] \<and> errors s = [(1, AssertionError)]"
    by (simp add: new_face_def face_defs plain_env_def)
  then obtain s where s: "face_exec plain_env 4 False ?as new_face = Some s"
      "stacks s 1 = [In_call, Run_inside, In_scheduled]" "errors s = [(1, AssertionError)]"
    by blast
  have "face_reachable plain_env 4 False {1} s"
    by (rule face_exec_reachable [OF face_reachable.start _ s(1)]) simp
  from one_thread_safe [OF this] s show ?thesis by auto
qed

text \<open>
  C29. Two threads are not safe: the question whether a run is executing does not ask which
  thread executes it. While one is inside \<^verbatim>\<open>ndn_run\<close>, the other enters libndn with the same handle and
  without the lock; when the run ends before that call does, the call gives
  back the lock of the other thread, whose own release then raises \<^verbatim>\<open>thread.error\<close>. And where libndn
  calls back inside a command, a single thread waits for itself.
\<close>

theorem two_threads_unsafe:
  assumes "mem E A_run_state"
  shows "(\<exists>s. face_reachable E h False {1, 2} s \<and> stacks s 1 = [Run_inside] \<and> stacks s 2 = [In_call])
    \<and> (\<exists>s. face_reachable E h False {1, 2} s \<and> (1, ThreadError) \<in> set (errors s))
    \<and> (\<exists>s. face_reachable E h True {1} s \<and> stacks s 1 \<noteq> [] \<and> (\<forall>a. face_step E h True 1 a s = None))"
proof (intro conjI)
  let ?both = "[(1, Call_run), (1, Go 0), (1, Go 0), (2, Call_method), (2, Go 0)] :: (nat \<times> action) list"
  let ?late = "[(1, Go 0), (2, Go 0), (2, Go 0), (2, Go 0), (1, Go 0)] :: (nat \<times> action) list"
  let ?get = "[(1, Call_method), (1, Go 0), (1, Go 0), (1, Call_method), (1, Go 0)] :: (nat \<times> action) list"
  have run: "\<exists>s. face_reachable E h cb T s \<and> P s"
    if "\<exists>s. face_exec E h cb as new_face = Some s \<and> P s" "fst ` set as \<subseteq> T" for as cb T P
    using that face_exec_reachable [OF face_reachable.start] by blast
  show "\<exists>s. face_reachable E h False {1, 2} s \<and> stacks s 1 = [Run_inside] \<and> stacks s 2 = [In_call]"
    by (rule run [of _ ?both]) (use assms in \<open>simp_all add: new_face_def face_defs\<close>)
  show "\<exists>s. face_reachable E h False {1, 2} s \<and> (1, ThreadError) \<in> set (errors s)"
    by (rule run [of _ "?both @ ?late"]) (use assms in \<open>simp_all add: new_face_def face_defs\<close>)
  show "\<exists>s. face_reachable E h True {1} s \<and> stacks s 1 \<noteq> [] \<and> (\<forall>a. face_step E h True 1 a s = None)"
  proof (rule run [of _ ?get])
    show "\<exists>s. face_exec E h True ?get new_face = Some s \<and> stacks s 1 \<noteq> [] \<and> (\<forall>a. face_step E h True 1 a s = None)"
      by (simp add: new_face_def face_defs split: action.splits)
  qed simp
qed

theorem two_threads_unsafe_witness:
  "\<exists>s. face_reachable plain_env 4 False {1, 2} s \<and> (1, ThreadError) \<in> set (errors s)"
  using two_threads_unsafe [of plain_env 4] by (simp add: plain_env_def)

end
