(* ===== verification/LibDecode.thy ===== *)
theory LibDecode
  imports NameM
begin

section \<open>The decoder of the library\<close>

text \<open>
  The modules that read signatures, signed information and key locators walk over a buffer
  with libndn's \<^verbatim>\<open>struct ndn_buf_decoder\<close>. Its functions extend the record of theory
  \<open>LibNdn\<close>; the laws say what they do on the format of theory \<open>Ndnb\<close>, and the lemmas of the
  locale are the steps the clients take: an optional or required element, the closer.
  \<open>demo_codec\<close> is a decoder that obeys the laws.
\<close>

text \<open>
  The fields of the decoder the module reads: the buffer, the index of the current token and
  the state, negative after an error; \<open>dec_more\<close> is what the library keeps for itself.
\<close>

record decoder =
  dec_buf :: bytes
  dec_token_index :: nat
  dec_state :: int
  dec_more :: "nat list"

record codec = ndnlib +
  l_decoder_start :: "bytes \<Rightarrow> decoder"
  l_match_dtag :: "decoder \<Rightarrow> nat \<Rightarrow> bool"
  l_advance :: "decoder \<Rightarrow> decoder"
  l_optional_blob :: "decoder \<Rightarrow> nat \<Rightarrow> int \<Rightarrow> int \<Rightarrow> int \<times> decoder"
  l_required_blob :: "decoder \<Rightarrow> nat \<Rightarrow> int \<Rightarrow> int \<Rightarrow> int \<times> decoder"
  l_optional_binary_number :: "decoder \<Rightarrow> nat \<Rightarrow> int \<Rightarrow> int \<Rightarrow> int \<Rightarrow> int \<times> decoder"
  l_optional_nonneg :: "decoder \<Rightarrow> nat \<Rightarrow> int \<times> decoder"
  l_advance_past_element :: "decoder \<Rightarrow> int \<times> decoder"
  l_parse_Name :: "decoder \<Rightarrow> int \<times> decoder"
  l_check_close :: "decoder \<Rightarrow> decoder"

subsection \<open>Elements\<close>

text \<open>The well-formed items of the format, and a tagged BLOB that may be missing.\<close>

inductive wf_item :: "nat \<Rightarrow> bytes \<Rightarrow> bool" for udata :: nat where
  blob: "wf_item udata (ndnb_blob x)"
| text_item: "wf_item udata (ndnb_encode (length x) udata @ x)"
| tagged: "list_all (wf_item udata) items \<Longrightarrow> wf_item udata (ndnb_dtag tag (concat items))"

definition tagged_blob_wire :: "nat \<Rightarrow> bytes \<Rightarrow> bytes" where
  "tagged_blob_wire tag x = ndnb_dtag tag (ndnb_blob x)"

definition opt_blob_wire :: "nat \<Rightarrow> bytes option \<Rightarrow> bytes" where
  "opt_blob_wire tag v = (case v of None \<Rightarrow> [] | Some x \<Rightarrow> tagged_blob_wire tag x)"

definition in_bounds :: "int \<Rightarrow> int \<Rightarrow> bytes \<Rightarrow> bool" where
  "in_bounds lo hi x \<longleftrightarrow> lo \<le> int (length x) \<and> (hi < 0 \<or> int (length x) \<le> hi)"

text \<open>A number in network byte order.\<close>

definition big_endian :: "bytes \<Rightarrow> int" where
  "big_endian x = foldl (\<lambda>acc b. acc * 256 + int (unat b)) 0 x"

text \<open>Whether the next thing in the buffer is the element of this tag.\<close>

definition next_is :: "nat \<Rightarrow> bytes \<Rightarrow> bool" where
  "next_is tag rest \<longleftrightarrow> read_tag tag rest \<noteq> None"

lemma next_is_simps [simp, wire_simps]:
  "next_is tag (ndnb_dtag tag' x @ rest) \<longleftrightarrow> tag = tag'"
  "next_is tag (tagged_blob_wire tag' x @ rest) \<longleftrightarrow> tag = tag'"
  "\<not> next_is tag (0 # rest)" "\<not> next_is tag []"
  by (simp_all add: next_is_def ndnb_dtag_def tagged_blob_wire_def read_tag_ndnb)
    (simp_all add: read_tag_def)

lemma next_is_header [simp, wire_simps]:
  "next_is tag (ndnb_encode tag' NDN_DTAG @ rest) \<longleftrightarrow> tag = tag'"
  by (simp add: next_is_def read_tag_ndnb)

lemma next_is_opt [simp, wire_simps]:
  "next_is tag (opt_blob_wire tag' v @ rest) \<longleftrightarrow> (if v = None then next_is tag rest else tag = tag')"
  by (cases v) (simp_all add: opt_blob_wire_def)

subsection \<open>The laws\<close>

text \<open>
  \<open>at_rest buf d rest\<close>: the decoder \<open>d\<close> stands, without an error, at a token of the buffer
  from which \<open>rest\<close> is left.
\<close>

locale element_decoder = element_reader L
  for L :: "'e codec_scheme"
    and at_rest :: "bytes \<Rightarrow> decoder \<Rightarrow> bytes \<Rightarrow> bool" +
  assumes start: "at_rest buf (l_decoder_start L buf) buf"
    and position: "at_rest buf d rest
      \<Longrightarrow> dec_buf d = buf \<and> 0 \<le> dec_state d \<and> dec_token_index d + length rest = length buf
          \<and> drop (dec_token_index d) buf = rest"
    and match: "at_rest buf d rest \<Longrightarrow> l_match_dtag L d tag \<longleftrightarrow> next_is tag rest"
    and advance:
      "at_rest buf d (ndnb_encode tag NDN_DTAG @ rest) \<Longrightarrow> at_rest buf (l_advance L d) rest"
    and optional_hit:
      "at_rest buf d (tagged_blob_wire tag x @ rest) \<Longrightarrow> in_bounds lo hi x
       \<Longrightarrow> at_rest buf (snd (l_optional_blob L d tag lo hi)) rest"
    and optional_miss:
      "at_rest buf d rest \<Longrightarrow> \<not> next_is tag rest \<Longrightarrow> snd (l_optional_blob L d tag lo hi) = d"
    and required_hit:
      "at_rest buf d (tagged_blob_wire tag x @ rest) \<Longrightarrow> in_bounds lo hi x
       \<Longrightarrow> 0 \<le> fst (l_required_blob L d tag lo hi)
           \<and> at_rest buf (snd (l_required_blob L d tag lo hi)) rest"
    and required_miss:
      "at_rest buf d rest \<Longrightarrow> \<not> next_is tag rest
       \<Longrightarrow> fst (l_required_blob L d tag lo hi) < 0
           \<and> dec_buf (snd (l_required_blob L d tag lo hi)) = buf
           \<and> dec_token_index (snd (l_required_blob L d tag lo hi)) = dec_token_index d"
    and number_hit:
      "at_rest buf d (tagged_blob_wire tag x @ rest) \<Longrightarrow> in_bounds lo hi x \<Longrightarrow> length x < 4
       \<Longrightarrow> fst (l_optional_binary_number L d tag lo hi dflt) = big_endian x
           \<and> at_rest buf (snd (l_optional_binary_number L d tag lo hi dflt)) rest"
    and number_miss:
      "at_rest buf d rest \<Longrightarrow> \<not> next_is tag rest \<Longrightarrow> l_optional_binary_number L d tag lo hi dflt = (dflt, d)"
    and nonneg_hit:
      "at_rest buf d (ndnb_dtag tag (number_wire L n) @ rest) \<Longrightarrow> 0 \<le> n \<Longrightarrow> n < 2 ^ 31
       \<Longrightarrow> fst (l_optional_nonneg L d tag) = n \<and> at_rest buf (snd (l_optional_nonneg L d tag)) rest"
    and nonneg_miss:
      "at_rest buf d rest \<Longrightarrow> \<not> next_is tag rest \<Longrightarrow> l_optional_nonneg L d tag = (- 1, d)"
    and past_element:
      "at_rest buf d (ndnb_dtag tag (concat items) @ rest) \<Longrightarrow> list_all (wf_item (l_udata L)) items
       \<Longrightarrow> 0 \<le> fst (l_advance_past_element L d) \<and> at_rest buf (snd (l_advance_past_element L d)) rest"
    and parse_name:
      "at_rest buf d (name_wire cs @ rest)
       \<Longrightarrow> 0 \<le> fst (l_parse_Name L d) \<and> at_rest buf (snd (l_parse_Name L d)) rest"
    and check_close: "at_rest buf d (0 # rest) \<Longrightarrow> 0 \<le> dec_state (l_check_close L d)"
    and ref_empty: "fst (l_ref_tagged_blob L tag buf b b) < 0"
begin

text \<open>The bytes between two positions of the decoder.\<close>

lemma element_between:
  assumes "at_rest buf d (w @ rest)" "at_rest buf d' rest"
  shows "element_at buf (dec_token_index d) (dec_token_index d') w"
proof -
  have "dec_token_index d' = dec_token_index d + length w"
    using position [OF assms(1)] position [OF assms(2)] by simp
  then show ?thesis
    using position [OF assms(1)] by (simp add: element_at_def)
qed

lemma ref_between:
  assumes "at_rest buf d (tagged_blob_wire tag x @ rest)" "at_rest buf d' rest"
  shows "\<exists>off n. l_ref_tagged_blob L tag buf (dec_token_index d) (dec_token_index d') = (0, off, n)
    \<and> mem_read buf off n = Ret x"
  using element_between [OF assms] ref_blob ref_read unfolding tagged_blob_wire_def by blast

end

subsection \<open>Steps of the clients\<close>

text \<open>
  The code reads an element by passing over it with the decoder and then asking for the BLOB
  between the two positions; an optional element is stored when that succeeds.
\<close>

definition ref_between_tokens :: "'e codec_scheme \<Rightarrow> ndn_dtag \<Rightarrow> decoder \<Rightarrow> decoder \<Rightarrow> int \<times> nat \<times> nat" where
  "ref_between_tokens L tag d d' =
     l_ref_tagged_blob L (l_dtag L tag) (dec_buf d') (dec_token_index d) (dec_token_index d')"

definition store_bytes ::
    "decoder \<Rightarrow> nat \<Rightarrow> nat \<Rightarrow> string \<Rightarrow> pyval \<Rightarrow> (decoder \<times> pyval) outcome" where
  "store_bytes d off n a obj =
     bnd (mem_read (dec_buf d) off n) (\<lambda>x.
       bnd (py_setattr obj a (PyBytes x)) (\<lambda>obj'. Ret (d, obj')))"

definition optional_bytes ::
    "'e codec_scheme \<Rightarrow> ndn_dtag \<Rightarrow> string \<Rightarrow> decoder \<Rightarrow> pyval \<Rightarrow> (decoder \<times> pyval) outcome" where
  "optional_bytes L tag a d obj =
     (let d' = snd (l_optional_blob L d (l_dtag L tag) 1 (- 1));
          (r, off, n) = ref_between_tokens L tag d d' in
      if r = 0 then store_bytes d' off n a obj else Ret (d', obj))"

definition required_bytes ::
    "'e codec_scheme \<Rightarrow> py_exc \<Rightarrow> ndn_dtag \<Rightarrow> int \<Rightarrow> int \<Rightarrow> string \<Rightarrow> decoder \<Rightarrow> pyval
      \<Rightarrow> (decoder \<times> pyval) outcome" where
  "required_bytes L e tag lo hi a d obj =
     (let d' = snd (l_required_blob L d (l_dtag L tag) lo hi);
          (r, off, n) = ref_between_tokens L tag d d' in
      if r < 0 then Raise e else store_bytes d' off n a obj)"

context element_decoder begin

lemma ref_tokens_hit:
  assumes "at_rest buf d (tagged_blob_wire (l_dtag L tag) x @ rest)" "at_rest buf d' rest"
  obtains off n where "ref_between_tokens L tag d d' = (0, off, n)" "mem_read (dec_buf d') off n = Ret x"
  using ref_between [OF assms] position [OF assms(2)] by (auto simp: ref_between_tokens_def)

lemma optional_present:
  assumes "at_rest buf d (tagged_blob_wire (l_dtag L tag) x @ rest)" "x \<noteq> []"
    and "py_setattr obj a (PyBytes x) = Ret obj'"
  obtains d' where "optional_bytes L tag a d obj = Ret (d', obj')" "at_rest buf d' rest"
proof -
  let ?d = "snd (l_optional_blob L d (l_dtag L tag) 1 (- 1))"
  have at: "at_rest buf ?d rest"
    by (rule optional_hit [OF assms(1)]) (use assms(2) in \<open>simp add: in_bounds_def Suc_le_eq\<close>)
  obtain off n where "ref_between_tokens L tag d ?d = (0, off, n)" "mem_read (dec_buf ?d) off n = Ret x"
    using ref_tokens_hit [OF assms(1) at] by blast
  then have "optional_bytes L tag a d obj = Ret (?d, obj')"
    using assms(3) by (simp add: optional_bytes_def store_bytes_def Let_def)
  then show thesis
    using at that by blast
qed

lemma optional_absent:
  assumes "at_rest buf d rest" "\<not> next_is (l_dtag L tag) rest"
  shows "optional_bytes L tag a d obj = Ret (d, obj)"
  using optional_miss [OF assms] position [OF assms(1)] ref_empty [of "l_dtag L tag" buf "dec_token_index d"]
  by (auto simp: optional_bytes_def ref_between_tokens_def Let_def split: prod.splits)

lemma required_present:
  assumes "at_rest buf d (tagged_blob_wire (l_dtag L tag) x @ rest)" "in_bounds lo hi x"
    and "py_setattr obj a (PyBytes x) = Ret obj'"
  obtains d' where "required_bytes L e tag lo hi a d obj = Ret (d', obj')" "at_rest buf d' rest"
proof -
  let ?d = "snd (l_required_blob L d (l_dtag L tag) lo hi)"
  have at: "at_rest buf ?d rest"
    using required_hit [OF assms(1,2)] by simp
  obtain off n where "ref_between_tokens L tag d ?d = (0, off, n)" "mem_read (dec_buf ?d) off n = Ret x"
    using ref_tokens_hit [OF assms(1) at] by blast
  then have "required_bytes L e tag lo hi a d obj = Ret (?d, obj')"
    using assms(3) by (simp add: required_bytes_def store_bytes_def Let_def)
  then show thesis
    using at that by blast
qed

lemma optional_field:
  assumes "at_rest buf d (opt_blob_wire (l_dtag L tag) v @ rest)" "v \<noteq> Some []"
    and "v = None \<Longrightarrow> \<not> next_is (l_dtag L tag) rest"
    and "case v of None \<Rightarrow> obj' = obj | Some x \<Rightarrow> py_setattr obj a (PyBytes x) = Ret obj'"
  obtains d' where "optional_bytes L tag a d obj = Ret (d', obj')" "at_rest buf d' rest"
proof (cases v)
  case None
  then show thesis
    using assms that [of d] optional_absent [of buf d rest tag a obj] by (simp add: opt_blob_wire_def)
next
  case (Some x)
  then show thesis
    using assms optional_present [of buf d tag x rest obj a obj'] that by (simp add: opt_blob_wire_def) blast
qed

lemma required_ref_miss:
  assumes "at_rest buf d rest" "\<not> next_is (l_dtag L tag) rest"
  shows "fst (ref_between_tokens L tag d (snd (l_required_blob L d (l_dtag L tag) lo hi))) < 0"
  using required_miss [OF assms, of lo hi] ref_empty [of "l_dtag L tag" buf "dec_token_index d"]
  by (simp add: ref_between_tokens_def)

lemma required_absent:
  assumes "at_rest buf d rest" "\<not> next_is (l_dtag L tag) rest"
  shows "required_bytes L e tag lo hi a d obj = Raise e"
  using required_ref_miss [OF assms, of lo hi]
  by (auto simp: required_bytes_def Let_def split: prod.splits)

end

subsection \<open>A decoder that obeys them\<close>

text \<open>
  \<open>cd_rest\<close> is what is left of the buffer; \<open>cd_skip\<close> passes over whole items, \<open>depth\<close> counting
  the open elements and the first argument bounding the number of headers.
\<close>

definition cd_start :: "bytes \<Rightarrow> decoder" where
  "cd_start buf = \<lparr>dec_buf = buf, dec_token_index = 0, dec_state = 0, dec_more = []\<rparr>"

definition cd_rest :: "decoder \<Rightarrow> bytes" where
  "cd_rest d = drop (dec_token_index d) (dec_buf d)"

definition cd_to :: "decoder \<Rightarrow> bytes \<Rightarrow> decoder" where
  "cd_to d rest = d\<lparr>dec_token_index := length (dec_buf d) - length rest\<rparr>"

definition cd_fail :: "decoder \<Rightarrow> decoder" where
  "cd_fail d = d\<lparr>dec_state := - 1\<rparr>"

definition cd_advance :: "decoder \<Rightarrow> decoder" where
  "cd_advance d =
     (case read_header 0 (cd_rest d) of Some (_, rest) \<Rightarrow> cd_to d rest | None \<Rightarrow> cd_fail d)"

definition cd_blob :: "decoder \<Rightarrow> nat \<Rightarrow> int \<Rightarrow> int \<Rightarrow> (bytes \<times> bytes) option" where
  "cd_blob d tag lo hi =
     (case read_tag tag (cd_rest d) of
        None \<Rightarrow> None
      | Some body \<Rightarrow>
          (case read_blob body of
             Some (x, z # rest) \<Rightarrow> if z = 0 \<and> in_bounds lo hi x then Some (x, rest) else None
           | _ \<Rightarrow> None))"

definition cd_required :: "decoder \<Rightarrow> nat \<Rightarrow> int \<Rightarrow> int \<Rightarrow> int \<times> decoder" where
  "cd_required d tag lo hi =
     (case cd_blob d tag lo hi of Some (_, rest) \<Rightarrow> (0, cd_to d rest) | None \<Rightarrow> (- 1, cd_fail d))"

definition cd_optional :: "decoder \<Rightarrow> nat \<Rightarrow> int \<Rightarrow> int \<Rightarrow> int \<times> decoder" where
  "cd_optional d tag lo hi = (if next_is tag (cd_rest d) then cd_required d tag lo hi else (- 1, d))"

definition cd_number :: "decoder \<Rightarrow> nat \<Rightarrow> int \<Rightarrow> int \<Rightarrow> int \<Rightarrow> int \<times> decoder" where
  "cd_number d tag lo hi dflt =
     (if \<not> next_is tag (cd_rest d) then (dflt, d)
      else case cd_blob d tag lo hi of
             Some (x, rest) \<Rightarrow> (big_endian x, cd_to d rest) | None \<Rightarrow> (- 1, cd_fail d))"

definition cd_nonneg :: "decoder \<Rightarrow> nat \<Rightarrow> int \<times> decoder" where
  "cd_nonneg d tag =
     (case read_tag tag (cd_rest d) of
        None \<Rightarrow> (- 1, d)
      | Some body \<Rightarrow>
          (case read_header 0 body of
             Some (Header h, r) \<Rightarrow>
               (int (digits_value (take (h div 8) r) 0), cd_to d (drop (Suc (h div 8)) r))
           | _ \<Rightarrow> (- 1, cd_fail d)))"

fun cd_skip :: "nat \<Rightarrow> nat \<Rightarrow> bytes \<Rightarrow> bytes option" where
  "cd_skip 0 depth bs = None"
| "cd_skip (Suc n) depth bs =
     (case read_header 0 bs of
        None \<Rightarrow> None
      | Some (Close, r) \<Rightarrow>
          if depth = 0 then None else if depth = 1 then Some r else cd_skip n (depth - 1) r
      | Some (Header h, r) \<Rightarrow>
          if h mod 8 = NDN_DTAG then cd_skip n (Suc depth) r
          else if h div 8 \<le> length r then cd_skip n depth (drop (h div 8) r) else None)"

definition cd_past :: "decoder \<Rightarrow> int \<times> decoder" where
  "cd_past d =
     (case cd_skip (length (cd_rest d)) 0 (cd_rest d) of
        Some rest \<Rightarrow> (0, cd_to d rest) | None \<Rightarrow> (- 1, cd_fail d))"

definition cd_parse_Name :: "decoder \<Rightarrow> int \<times> decoder" where
  "cd_parse_Name d = (if next_is DTAG_Name (cd_rest d) then cd_past d else (- 1, cd_fail d))"

definition cd_check_close :: "decoder \<Rightarrow> decoder" where
  "cd_check_close d = (case cd_rest d of z # rest \<Rightarrow> if z = 0 then cd_to d rest else cd_fail d | [] \<Rightarrow> cd_fail d)"

definition cd_at :: "bytes \<Rightarrow> decoder \<Rightarrow> bytes \<Rightarrow> bool" where
  "cd_at buf d rest \<longleftrightarrow>
     dec_buf d = buf \<and> dec_state d = 0 \<and> cd_rest d = rest \<and> dec_token_index d + length rest = length buf"

lemma cd_at_to:
  assumes "cd_at buf d (w @ rest)"
  shows "cd_at buf (cd_to d rest) rest"
proof -
  have "length buf - length rest = length w + dec_token_index d"
    using assms by (auto simp: cd_at_def)
  then have "drop (length buf - length rest) buf = drop (length w) (cd_rest d)"
    using assms by (simp add: cd_at_def cd_rest_def)
  then show ?thesis
    using assms by (simp add: cd_at_def cd_to_def) (simp add: cd_rest_def)
qed

lemma cd_blob_hit:
  "cd_at buf d (tagged_blob_wire tag x @ rest) \<Longrightarrow> in_bounds lo hi x \<Longrightarrow> cd_blob d tag lo hi = Some (x, rest)"
  by (simp add: cd_at_def cd_blob_def tagged_blob_wire_def ndnb_dtag_def read_tag_ndnb read_blob_ndnb)

lemma cd_blob_miss: "\<not> next_is tag (cd_rest d) \<Longrightarrow> cd_blob d tag lo hi = None"
  by (simp add: cd_blob_def next_is_def)

text \<open>Skipping an item: some number of headers, at most one per byte, and nothing of the rest.\<close>

definition skips :: "bytes \<Rightarrow> bool" where
  "skips w \<longleftrightarrow> (\<exists>k \<le> length w. \<forall>n depth rest. cd_skip (k + n) (Suc depth) (w @ rest) = cd_skip n (Suc depth) rest)"

lemma skips_Nil: "skips []"
  by (auto simp: skips_def)

lemma skips_append: "skips v \<Longrightarrow> skips w \<Longrightarrow> skips (v @ w)"
  unfolding skips_def
proof (elim exE conjE)
  fix j k
  assume j: "j \<le> length v" "\<forall>n depth rest. cd_skip (j + n) (Suc depth) (v @ rest) = cd_skip n (Suc depth) rest"
    and k: "k \<le> length w" "\<forall>n depth rest. cd_skip (k + n) (Suc depth) (w @ rest) = cd_skip n (Suc depth) rest"
  show "\<exists>i \<le> length (v @ w). \<forall>n depth rest. cd_skip (i + n) (Suc depth) ((v @ w) @ rest) = cd_skip n (Suc depth) rest"
    using j k by (intro exI [of _ "j + k"]) (simp add: add.assoc)
qed

lemma cd_skip_close:
  "cd_skip (Suc n) (Suc (Suc depth)) (0 # rest) = cd_skip n (Suc depth) rest"
  "cd_skip (Suc n) 1 (0 # rest) = Some rest"
  by simp_all

lemma cd_skip_dtag:
  "cd_skip (Suc n) depth (ndnb_encode tag NDN_DTAG @ rest) = cd_skip n (Suc depth) rest"
proof -
  have "(tag * 8 + NDN_DTAG) mod 8 = NDN_DTAG"
    unfolding NDN_DTAG_def by presburger
  then show ?thesis
    by (simp only: cd_skip.simps read_header_encode option.case prod.case header.case if_True simp_thms)
qed

lemma cd_skip_sized:
  assumes "tt < 8" "tt \<noteq> NDN_DTAG"
  shows "cd_skip (Suc n) depth (ndnb_encode (length x) tt @ x @ rest) = cd_skip n depth rest"
  using assms by (simp add: read_header_encode)

declare cd_skip.simps [simp del]

lemma skips_sized:
  assumes "tt < 8" "tt \<noteq> NDN_DTAG"
  shows "skips (ndnb_encode (length x) tt @ x)"
  unfolding skips_def
  by (rule exI [of _ 1]) (use assms in \<open>simp add: cd_skip_sized Suc_le_eq\<close>)

lemma skips_dtag:
  assumes "skips w"
  shows "skips (ndnb_dtag tag w)"
proof -
  obtain k where k: "k \<le> length w"
    "\<And>n depth rest. cd_skip (k + n) (Suc depth) (w @ rest) = cd_skip n (Suc depth) rest"
    using assms by (auto simp: skips_def)
  have "cd_skip (Suc (k + Suc n)) (Suc depth) (ndnb_dtag tag w @ rest) = cd_skip n (Suc depth) rest" for n depth rest
    using k(2) [of "Suc n" "Suc depth" "0 # rest"]
    by (simp add: ndnb_dtag_def cd_skip_dtag cd_skip_close)
  moreover have "Suc (k + 1) \<le> length (ndnb_dtag tag w)"
    using k(1) by (cases "ndnb_encode tag NDN_DTAG") (simp_all add: ndnb_dtag_def)
  ultimately show ?thesis
    unfolding skips_def by (intro exI [of _ "Suc (k + 1)"]) simp
qed

lemma skips_wf:
  assumes "wf_item udata w" "udata < 8" "udata \<noteq> NDN_DTAG"
  shows "skips w"
  using assms(1)
proof induction
  case (blob x)
  then show ?case by (simp add: ndnb_blob_def skips_sized NDN_BLOB_def NDN_DTAG_def)
next
  case (text_item x)
  then show ?case by (simp add: skips_sized assms(2,3))
next
  case (tagged items tag)
  then have "skips (concat items)"
    by (induction items) (auto simp: skips_Nil intro: skips_append)
  then show ?case by (rule skips_dtag)
qed

lemma skips_name: "skips (concat (map component_wire cs))"
proof (induction cs)
  case Nil
  then show ?case by (simp add: skips_Nil)
next
  case (Cons c cs)
  have "skips (component_wire c)"
    unfolding component_wire_def ndnb_blob_def
    by (intro skips_dtag skips_sized) (simp_all add: NDN_BLOB_def NDN_DTAG_def)
  then show ?case
    using Cons by (auto intro: skips_append)
qed

lemma cd_past_hit:
  assumes "cd_at buf d (ndnb_dtag tag w @ rest)" "skips w"
  shows "fst (cd_past d) = 0" "cd_at buf (snd (cd_past d)) rest"
proof -
  obtain k where k: "k \<le> length w"
    "\<And>n depth rest. cd_skip (k + n) (Suc depth) (w @ rest) = cd_skip n (Suc depth) rest"
    using assms(2) by (auto simp: skips_def)
  have r: "cd_rest d = ndnb_encode tag NDN_DTAG @ w @ 0 # rest"
    using assms(1) by (simp add: cd_at_def ndnb_dtag_def)
  have "Suc (Suc k) \<le> length (cd_rest d)"
    using k(1) by (cases "ndnb_encode tag NDN_DTAG") (simp_all add: r)
  then obtain n where n: "length (cd_rest d) = Suc (k + Suc n)"
    by (metis add_Suc_right le_Suc_ex add_Suc)
  have "cd_skip (length (cd_rest d)) 0 (cd_rest d) = Some rest"
    using k(2) [of "Suc n" 0 "0 # rest"] cd_skip_close(2) [of n rest]
    unfolding n unfolding r cd_skip_dtag by simp
  then show "fst (cd_past d) = 0" "cd_at buf (snd (cd_past d)) rest"
    using assms(1) by (simp_all add: cd_past_def cd_at_to)
qed

lemma cd_nonneg_hit:
  assumes "cd_at buf d (ndnb_dtag tag (number_wire L n) @ rest)" "0 \<le> n"
    and "l_udata L < 8"
  shows "fst (cd_nonneg d tag) = n" "cd_at buf (snd (cd_nonneg d tag)) rest"
proof -
  have r: "cd_rest d = ndnb_encode tag NDN_DTAG
      @ ndnb_encode (length (int_digits n)) (l_udata L) @ int_digits n @ 0 # rest"
    using assms(1) by (simp add: cd_at_def ndnb_dtag_def number_wire_def)
  have h: "(length (int_digits n) * 8 + l_udata L) div 8 = length (int_digits n)"
    using assms(3) by simp
  have v: "int (digits_value (int_digits n) 0) = n"
    using assms(2) by (simp add: int_digits_def digits_value_nat_digits)
  have "cd_nonneg d tag = (n, cd_to d rest)"
    by (simp add: cd_nonneg_def r read_tag_ndnb read_header_encode v div_add1_eq assms(3))
  then show "fst (cd_nonneg d tag) = n" "cd_at buf (snd (cd_nonneg d tag)) rest"
    using cd_at_to [OF assms(1)] by simp_all
qed

text \<open>The library of theory \<open>LibNdn\<close> and this decoder, also under further fields.\<close>

definition writes_ndnb :: "'e ndnlib_scheme \<Rightarrow> bool" where
  "writes_ndnb L \<longleftrightarrow>
     l_append L = l_append ndnb_lib \<and> l_append_tt L = l_append_tt ndnb_lib
     \<and> l_append_closer L = l_append_closer ndnb_lib \<and> l_tagged_blob L = l_tagged_blob ndnb_lib
     \<and> l_tagged_putf_d L = l_tagged_putf_d ndnb_lib \<and> l_dtag L = l_dtag ndnb_lib
     \<and> l_udata L = l_udata ndnb_lib"

definition names_ndnb :: "'e ndnlib_scheme \<Rightarrow> bool" where
  "names_ndnb L \<longleftrightarrow>
     l_name_init L = l_name_init ndnb_lib \<and> l_name_append L = l_name_append ndnb_lib
     \<and> l_name_append_str L = l_name_append_str ndnb_lib \<and> l_name_split L = l_name_split ndnb_lib
     \<and> l_name_comp_get L = l_name_comp_get ndnb_lib \<and> l_compare_names L = l_compare_names ndnb_lib"

definition decodes_ndnb :: "'e codec_scheme \<Rightarrow> bool" where
  "decodes_ndnb L \<longleftrightarrow>
     l_udata L = l_udata ndnb_lib \<and> l_fetch_nonneg L = nl_fetch_nonneg
     \<and> l_ref_tagged_blob L = nl_ref_tagged_blob
     \<and> l_decoder_start L = cd_start
     \<and> l_match_dtag L = (\<lambda>d tag. next_is tag (cd_rest d)) \<and> l_advance L = cd_advance
     \<and> l_optional_blob L = cd_optional \<and> l_required_blob L = cd_required
     \<and> l_optional_binary_number L = cd_number \<and> l_optional_nonneg L = cd_nonneg
     \<and> l_advance_past_element L = cd_past \<and> l_parse_Name L = cd_parse_Name
     \<and> l_check_close L = cd_check_close"

lemma writes_ndnb_writer: "writes_ndnb L \<Longrightarrow> buffer_writer L"
  by unfold_locales (simp_all add: writes_ndnb_def ndnb_lib_def number_wire_def)

lemma names_ndnb_library: "names_ndnb L \<Longrightarrow> name_library L"
  by unfold_locales
    (simp_all add: names_ndnb_def ndnb_lib_def nl_append_def nl_split_def nl_comp_get_def
      read_name_wire name_offsets_def)

lemma names_ndnb_canonical: "names_ndnb L \<Longrightarrow> canonical_names L"
  using names_ndnb_library [of L]
  by (simp add: canonical_names_def canonical_names_axioms_def names_ndnb_def ndnb_lib_def)

lemma decodes_ndnb_decoder:
  assumes "decodes_ndnb L"
  shows "element_decoder L cd_at"
proof -
  note L = assms [unfolded decodes_ndnb_def, simplified]
  have u: "l_udata L = 6"
    using L by (simp add: ndnb_lib_def)
  have n: "number_wire L = number_wire ndnb_lib"
    using L by (auto simp: number_wire_def)
  have reader: "element_reader L"
    using ndnb_reader.fetch_nonneg ndnb_reader.ref_blob L
    by unfold_locales (simp_all add: n ndnb_lib_def)
  have items: "list_all (wf_item (l_udata L)) items \<Longrightarrow> skips (concat items)" for items
    by (induction items) (auto simp: skips_Nil u NDN_DTAG_def intro!: skips_append skips_wf)
  show ?thesis
  proof (rule element_decoder.intro [OF reader], unfold_locales)
    show "cd_at buf (l_decoder_start L buf) buf" for buf
      using L by (simp add: cd_at_def cd_start_def cd_rest_def)
    show "cd_at buf d rest \<Longrightarrow> dec_buf d = buf \<and> 0 \<le> dec_state d \<and> dec_token_index d + length rest = length buf
          \<and> drop (dec_token_index d) buf = rest" for buf d rest
      by (auto simp: cd_at_def cd_rest_def)
    show "cd_at buf d rest \<Longrightarrow> l_match_dtag L d tag \<longleftrightarrow> next_is tag rest" for buf d rest tag
      using L by (simp add: cd_at_def)
    show "cd_at buf d (ndnb_encode tag NDN_DTAG @ rest) \<Longrightarrow> cd_at buf (l_advance L d) rest" for buf d tag rest
      using L cd_at_to [of buf d "ndnb_encode tag NDN_DTAG" rest]
      by (auto simp: cd_advance_def cd_at_def [of _ d] read_header_encode)
    show "cd_at buf d (tagged_blob_wire tag x @ rest) \<Longrightarrow> in_bounds lo hi x
       \<Longrightarrow> cd_at buf (snd (l_optional_blob L d tag lo hi)) rest" for buf d tag x rest lo hi
      using L cd_at_to [of buf d "tagged_blob_wire tag x" rest] cd_blob_hit [of buf d tag x rest lo hi]
      by (simp add: cd_optional_def cd_required_def) (simp add: cd_at_def)
    show "cd_at buf d rest \<Longrightarrow> \<not> next_is tag rest \<Longrightarrow> snd (l_optional_blob L d tag lo hi) = d"
      for buf d rest tag lo hi
      using L by (simp add: cd_optional_def cd_at_def)
    show "cd_at buf d (tagged_blob_wire tag x @ rest) \<Longrightarrow> in_bounds lo hi x
       \<Longrightarrow> 0 \<le> fst (l_required_blob L d tag lo hi)
           \<and> cd_at buf (snd (l_required_blob L d tag lo hi)) rest" for buf d tag x rest lo hi
      using L cd_at_to [of buf d "tagged_blob_wire tag x" rest] cd_blob_hit [of buf d tag x rest lo hi]
      by (simp add: cd_required_def)
    show "cd_at buf d rest \<Longrightarrow> \<not> next_is tag rest
       \<Longrightarrow> fst (l_required_blob L d tag lo hi) < 0
           \<and> dec_buf (snd (l_required_blob L d tag lo hi)) = buf
           \<and> dec_token_index (snd (l_required_blob L d tag lo hi)) = dec_token_index d"
      for buf d rest tag lo hi
      using L cd_blob_miss [of tag d lo hi] by (simp add: cd_required_def cd_at_def cd_fail_def)
    show "cd_at buf d (tagged_blob_wire tag x @ rest) \<Longrightarrow> in_bounds lo hi x \<Longrightarrow> length x < 4
       \<Longrightarrow> fst (l_optional_binary_number L d tag lo hi dflt) = big_endian x
           \<and> cd_at buf (snd (l_optional_binary_number L d tag lo hi dflt)) rest" for buf d tag x rest lo hi dflt
      using L cd_at_to [of buf d "tagged_blob_wire tag x" rest] cd_blob_hit [of buf d tag x rest lo hi]
      by (simp add: cd_number_def) (simp add: cd_at_def)
    show "cd_at buf d rest \<Longrightarrow> \<not> next_is tag rest \<Longrightarrow> l_optional_binary_number L d tag lo hi dflt = (dflt, d)"
      for buf d rest tag lo hi dflt
      using L by (simp add: cd_number_def cd_at_def)
    show "cd_at buf d (ndnb_dtag tag (number_wire L m) @ rest) \<Longrightarrow> 0 \<le> m \<Longrightarrow> m < 2 ^ 31
       \<Longrightarrow> fst (l_optional_nonneg L d tag) = m \<and> cd_at buf (snd (l_optional_nonneg L d tag)) rest"
      for buf d tag m rest
      using L cd_nonneg_hit [of buf d tag L m rest] u by simp
    show "cd_at buf d rest \<Longrightarrow> \<not> next_is tag rest \<Longrightarrow> l_optional_nonneg L d tag = (- 1, d)"
      for buf d rest tag
      using L by (simp add: cd_nonneg_def cd_at_def next_is_def)
    show "cd_at buf d (ndnb_dtag tag (concat items) @ rest) \<Longrightarrow> list_all (wf_item (l_udata L)) items
       \<Longrightarrow> 0 \<le> fst (l_advance_past_element L d) \<and> cd_at buf (snd (l_advance_past_element L d)) rest"
      for buf d tag items rest
      using L cd_past_hit [of buf d tag "concat items" rest] items [of items] by simp
    show "cd_at buf d (name_wire cs @ rest)
       \<Longrightarrow> 0 \<le> fst (l_parse_Name L d) \<and> cd_at buf (snd (l_parse_Name L d)) rest" for buf d cs rest
      using L cd_past_hit [of buf d DTAG_Name "concat (map component_wire cs)" rest] skips_name [of cs]
      by (auto simp: cd_parse_Name_def name_wire_def cd_at_def [of _ d])
    show "cd_at buf d (0 # rest) \<Longrightarrow> 0 \<le> dec_state (l_check_close L d)" for buf d rest
      using L by (simp add: cd_at_def cd_check_close_def cd_to_def)
    show "fst (l_ref_tagged_blob L tag buf b b) < 0" for tag buf b
      using L by (simp add: nl_ref_tagged_blob_def nl_slice_def read_tag_def)
  qed
qed

definition demo_codec :: codec where
  "demo_codec =
     ndnlib.extend ndnb_lib
       (codec.fields cd_start (\<lambda>d tag. next_is tag (cd_rest d)) cd_advance cd_optional cd_required
         cd_number cd_nonneg cd_past cd_parse_Name cd_check_close)"

lemma demo_codec_ndnb: "writes_ndnb demo_codec" "names_ndnb demo_codec" "decodes_ndnb demo_codec"
  by (simp_all add: demo_codec_def ndnlib.defs codec.defs ndnb_lib_def writes_ndnb_def names_ndnb_def
      decodes_ndnb_def)

interpretation demo_decoder: element_decoder demo_codec cd_at
  by (rule decodes_ndnb_decoder) (rule demo_codec_ndnb)

end
