(* ===== verification/SignatureM.thy ===== *)
theory SignatureM
  imports LibDecode
begin

section \<open>Signatures: csrc/methods\_signature.c\<close>

text \<open>
  Encoding a Python \<^verbatim>\<open>Signature\<close> and decoding a buffer into one. The decoder passes over
  two optional elements and one that must be there; what it does when the buffer is not a
  signature, or lacks the bits, is part of the properties.
\<close>

subsection \<open>Encoding\<close>

definition py_hasattr :: "pyval \<Rightarrow> string \<Rightarrow> bool" where
  "py_hasattr v a = is_ret (py_getattr v a)"

text \<open>
  The \<^verbatim>\<open>assert\<close> on the length of the string comes before the test that there is one: a
  failed conversion leaves a pointer that was never written, read by builds with assertions.
\<close>

definition append_digest_algorithm :: "'e codec_scheme \<Rightarrow> pyval \<Rightarrow> bytes \<Rightarrow> bytes outcome" where
  "append_digest_algorithm L obj signature =
     (if \<not> py_hasattr obj ''digestAlgorithm'' then Ret signature
      else bnd (py_getattr obj ''digestAlgorithm'') (\<lambda>v.
        if v = PyNone then Ret signature
        else case pyndn_unicode_to_utf8 L v True of
               Ret str \<Rightarrow>
                 c_assert L (0 \<notin> set str)
                   (try_mem (l_tagged_blob L signature (l_dtag L NDN_DTAG_DigestAlgorithm) str) Ret)
             | Raise e \<Rightarrow> if ndebug L then Raise e else Undef
             | Abort \<Rightarrow> Abort
             | Undef \<Rightarrow> Undef))"

text \<open>
  The witness and the bits: \<^verbatim>\<open>PyBytes_AsString\<close> and \<^verbatim>\<open>PyBytes_GET_SIZE\<close>, which
  for a \<^verbatim>\<open>unicode\<close> object of ASCII characters give its characters and their number.
\<close>

definition append_bytes_element ::
    "'e codec_scheme \<Rightarrow> ndn_dtag \<Rightarrow> string \<Rightarrow> pyval \<Rightarrow> bytes \<Rightarrow> bytes outcome" where
  "append_bytes_element L tag a obj signature =
     (if \<not> py_hasattr obj a then Ret signature
      else bnd (py_getattr obj a) (\<lambda>v.
        if v = PyNone then Ret signature
        else bnd (bytes_as_string_and_size v) (\<lambda>blob.
               try_mem (l_tagged_blob L signature (l_dtag L tag) blob) Ret)))"

definition append_witness :: "'e codec_scheme \<Rightarrow> pyval \<Rightarrow> bytes \<Rightarrow> bytes outcome" where
  "append_witness L = append_bytes_element L NDN_DTAG_Witness ''witness''"

definition append_signature_bits :: "'e codec_scheme \<Rightarrow> pyval \<Rightarrow> bytes \<Rightarrow> bytes outcome" where
  "append_signature_bits L = append_bytes_element L NDN_DTAG_SignatureBits ''signatureBits''"

definition Signature_obj_to_ndn :: "'e codec_scheme \<Rightarrow> pyval \<Rightarrow> pyval outcome" where
  "Signature_obj_to_ndn L obj =
     bnd (NDNObject_New_charbuf L SIGNATURE) (\<lambda>c.
     try_mem (l_append_tt L [] (l_dtag L NDN_DTAG_Signature) NDN_DTAG) (\<lambda>b.
     bnd (append_digest_algorithm L obj b) (\<lambda>b.
     bnd (append_witness L obj b) (\<lambda>b.
     bnd (append_signature_bits L obj b) (\<lambda>b.
     try_mem (l_append_closer L b) (\<lambda>b. Ret (fill c b)))))))"

definition cmd_Signature_obj_to_ndn :: "'e codec_scheme \<Rightarrow> pyval \<Rightarrow> pyval outcome" where
  "cmd_Signature_obj_to_ndn L obj =
     (if tp_name obj \<noteq> ''Signature'' then Raise TypeError else Signature_obj_to_ndn L obj)"

subsection \<open>Decoding\<close>

text \<open>The bits; a status above zero stops a build with assertions.\<close>

definition required_bits :: "'e codec_scheme \<Rightarrow> decoder \<Rightarrow> pyval \<Rightarrow> (decoder \<times> pyval) outcome" where
  "required_bits L d obj =
     (let d' = snd (l_required_blob L d (l_dtag L NDN_DTAG_SignatureBits) 1 (- 1));
          (r, off, n) = ref_between_tokens L NDN_DTAG_SignatureBits d d' in
      if r < 0 then Raise NDNSignatureError
      else c_assert L (r = 0) (store_bytes d' off n ''signatureBits'' obj))"

definition read_signature :: "'e codec_scheme \<Rightarrow> decoder \<Rightarrow> pyval \<Rightarrow> pyval outcome" where
  "read_signature L d obj =
     (if \<not> l_match_dtag L d (l_dtag L NDN_DTAG_Signature) then Raise NDNSignatureError
      else bnd (optional_bytes L NDN_DTAG_DigestAlgorithm ''digestAlgorithm'' (l_advance L d) obj) (\<lambda>(d, obj).
           bnd (optional_bytes L NDN_DTAG_Witness ''witness'' d obj) (\<lambda>(d, obj).
           bnd (required_bits L d obj) (\<lambda>(d, obj).
             if dec_state (l_check_close L d) < 0 then Raise NDNSignatureError else Ret obj))))"

definition Signature_obj_from_ndn :: "'e codec_scheme \<Rightarrow> pyval \<Rightarrow> pyval outcome" where
  "Signature_obj_from_ndn L py_signature =
     bnd (NDNObject_IsValid L SIGNATURE py_signature) (\<lambda>valid.
      c_assert L valid
       (bnd (get_charbuf L SIGNATURE py_signature) (\<lambda>signature.
         bnd (py_setattr new_Signature ''ndn_data'' py_signature)
           (read_signature L (l_decoder_start L signature)))))"

definition cmd_Signature_obj_from_ndn :: "'e codec_scheme \<Rightarrow> pyval \<Rightarrow> pyval outcome" where
  "cmd_Signature_obj_from_ndn L py_signature =
     bnd (NDNObject_IsValid L SIGNATURE py_signature) (\<lambda>valid.
       if \<not> valid then Raise TypeError else Signature_obj_from_ndn L py_signature)"

subsection \<open>The wire form of a signature\<close>

text \<open>A signature as its fields, the Python object that holds them, and their wire form.\<close>

record signature_fields =
  g_algorithm :: "bytes option"
  g_witness :: "bytes option"
  g_bits :: "bytes option"

definition opt_bytes :: "bytes option \<Rightarrow> pyval" where
  "opt_bytes v = (case v of None \<Rightarrow> PyNone | Some x \<Rightarrow> PyBytes x)"

lemma opt_bytes_simps [simp]: "opt_bytes None = PyNone" "opt_bytes (Some x) = PyBytes x"
  by (simp_all add: opt_bytes_def)

definition signature_obj :: "signature_fields \<Rightarrow> pyval" where
  "signature_obj g =
     PyInst ''Signature''
       ([(''witness'', opt_bytes (g_witness g)), (''signatureBits'', opt_bytes (g_bits g)), (''ndn_data'', PyNone)]
        @ (case g_algorithm g of None \<Rightarrow> [] | Some x \<Rightarrow> [(''digestAlgorithm'', PyBytes x)]))"

definition signature_body :: "'e codec_scheme \<Rightarrow> signature_fields \<Rightarrow> bytes" where
  "signature_body L g =
     opt_blob_wire (l_dtag L NDN_DTAG_DigestAlgorithm) (g_algorithm g)
     @ opt_blob_wire (l_dtag L NDN_DTAG_Witness) (g_witness g)
     @ opt_blob_wire (l_dtag L NDN_DTAG_SignatureBits) (g_bits g)"

definition signature_wire :: "'e codec_scheme \<Rightarrow> signature_fields \<Rightarrow> bytes" where
  "signature_wire L g = ndnb_dtag (l_dtag L NDN_DTAG_Signature) (signature_body L g)"

text \<open>Fields the encoder accepts: no empty byte string, no zero byte in the algorithm.\<close>

definition signature_ok :: "signature_fields \<Rightarrow> bool" where
  "signature_ok g \<longleftrightarrow>
     Some [] \<notin> set [g_algorithm g, g_witness g, g_bits g]
     \<and> (case g_algorithm g of None \<Rightarrow> True | Some x \<Rightarrow> 0 \<notin> set x)"

text \<open>The three elements have tags of their own.\<close>

definition signature_tags :: "'e codec_scheme \<Rightarrow> bool" where
  "signature_tags L \<longleftrightarrow>
     distinct (map (l_dtag L) [NDN_DTAG_DigestAlgorithm, NDN_DTAG_Witness, NDN_DTAG_SignatureBits])"

subsection \<open>Encoding gives the wire form\<close>

lemma signature_attrs:
  "py_getattr (signature_obj g) ''witness'' = Ret (opt_bytes (g_witness g))"
  "py_getattr (signature_obj g) ''signatureBits'' = Ret (opt_bytes (g_bits g))"
  "py_getattr (signature_obj g) ''digestAlgorithm''
     = (case g_algorithm g of None \<Rightarrow> Raise AttributeError | Some x \<Rightarrow> Ret (PyBytes x))"
  by (simp_all add: signature_obj_def split: option.split)

lemma append_bytes_field:
  assumes "buffer_writer L" "py_getattr obj a = Ret (opt_bytes v)" "v \<noteq> Some []"
  shows "append_bytes_element L tag a obj b = Ret (b @ opt_blob_wire (l_dtag L tag) v)"
  using assms
  by (cases v)
    (simp_all add: append_bytes_element_def py_hasattr_def opt_blob_wire_def tagged_blob_wire_def
      buffer_writer.tagged_blob)

lemma append_algorithm_field:
  assumes "buffer_writer L" "signature_ok g"
  shows "append_digest_algorithm L (signature_obj g) b
    = Ret (b @ opt_blob_wire (l_dtag L NDN_DTAG_DigestAlgorithm) (g_algorithm g))"
  using assms
  by (cases "g_algorithm g")
    (auto simp: append_digest_algorithm_def py_hasattr_def signature_attrs opt_blob_wire_def
      tagged_blob_wire_def signature_ok_def pyndn_unicode_to_utf8_def string_and_size_def
      buffer_writer.tagged_blob)

lemma signature_encodes:
  assumes "buffer_writer L" "allocs_ok L" "signature_ok g"
  shows "cmd_Signature_obj_to_ndn L (signature_obj g) = Ret (box SIGNATURE (signature_wire L g))"
proof -
  have ok: "g_witness g \<noteq> Some []" "g_bits g \<noteq> Some []"
    using assms(3) by (auto simp: signature_ok_def)
  have tp: "tp_name (signature_obj g) = ''Signature''"
    by (simp add: signature_obj_def)
  note New = New_charbuf_ok [of SIGNATURE L Ret, unfolded charbuf_types_def, simplified, OF assms(2)]
  show ?thesis
    using append_bytes_field [OF assms(1) signature_attrs(1) ok(1)]
      append_bytes_field [OF assms(1) signature_attrs(2) ok(2)]
      append_algorithm_field [OF assms(1,3)] New
    by (simp add: cmd_Signature_obj_to_ndn_def Signature_obj_to_ndn_def tp append_witness_def
        append_signature_bits_def buffer_writer.append_tt [OF assms(1)]
        buffer_writer.append_closer [OF assms(1)] signature_wire_def signature_body_def ndnb_dtag_def)
qed

subsection \<open>Decoding the wire form\<close>

definition partial_signature :: "pyval \<Rightarrow> pyval \<Rightarrow> pyval \<Rightarrow> bytes option \<Rightarrow> pyval" where
  "partial_signature w b data alg =
     PyInst ''Signature''
       ([(''witness'', w), (''signatureBits'', b), (''ndn_data'', data)]
        @ (case alg of None \<Rightarrow> [] | Some x \<Rightarrow> [(''digestAlgorithm'', PyBytes x)]))"

lemma partial_signature_set:
  "py_setattr (partial_signature w b data None) ''digestAlgorithm'' (PyBytes x)
     = Ret (partial_signature w b PyNone (Some x))"
  "py_setattr (partial_signature w b data alg) ''witness'' v = Ret (partial_signature v b PyNone alg)"
  "py_setattr (partial_signature w b data alg) ''signatureBits'' v = Ret (partial_signature w v PyNone alg)"
  "py_setattr new_Signature ''ndn_data'' v = Ret (partial_signature PyNone PyNone v None)"
  by (simp_all add: partial_signature_def caches_wire_def new_Signature_def nones_def split: option.split)

context element_decoder begin

lemma required_bits_present:
  assumes "at_rest buf d (tagged_blob_wire (l_dtag L NDN_DTAG_SignatureBits) x @ rest)" "x \<noteq> []"
  obtains d' where "required_bits L d (partial_signature w b data alg) = Ret (d', partial_signature w (PyBytes x) PyNone alg)"
    "at_rest buf d' rest"
proof -
  let ?d = "snd (l_required_blob L d (l_dtag L NDN_DTAG_SignatureBits) 1 (- 1))"
  have at: "at_rest buf ?d rest"
    using required_hit [OF assms(1), of 1 "- 1"] assms(2) by (simp add: in_bounds_def Suc_le_eq)
  obtain off n where "ref_between_tokens L NDN_DTAG_SignatureBits d ?d = (0, off, n)" "mem_read (dec_buf ?d) off n = Ret x"
    using ref_tokens_hit [OF assms(1) at] by blast
  then have "required_bits L d (partial_signature w b data alg) = Ret (?d, partial_signature w (PyBytes x) PyNone alg)"
    by (simp add: required_bits_def store_bytes_def partial_signature_set Let_def)
  then show thesis
    using at that by blast
qed

lemma required_bits_absent:
  assumes "at_rest buf d rest" "\<not> next_is (l_dtag L NDN_DTAG_SignatureBits) rest"
  shows "required_bits L d obj = Raise NDNSignatureError"
  using required_ref_miss [OF assms, of 1 "- 1"]
  by (auto simp: required_bits_def Let_def split: prod.splits)

lemma read_signature_wire:
  assumes "at_rest buf d (signature_wire L g)" "signature_ok g" "signature_tags L"
  shows "read_signature L d (partial_signature PyNone PyNone data None)
    = (if g_bits g = None then Raise NDNSignatureError else Ret (signature_obj g))"
proof -
  let ?alg = "l_dtag L NDN_DTAG_DigestAlgorithm" and ?wit = "l_dtag L NDN_DTAG_Witness"
    and ?bits = "l_dtag L NDN_DTAG_SignatureBits"
  let ?r2 = "opt_blob_wire ?bits (g_bits g) @ [0]"
  let ?r1 = "opt_blob_wire ?wit (g_witness g) @ ?r2"
  note tags = assms(3) [unfolded signature_tags_def, simplified]
  have ok: "g_algorithm g \<noteq> Some []" "g_witness g \<noteq> Some []" "g_bits g \<noteq> Some []"
    using assms(2) by (auto simp: signature_ok_def)
  have match: "l_match_dtag L d (l_dtag L NDN_DTAG_Signature)"
    using match [OF assms(1), of "l_dtag L NDN_DTAG_Signature"] next_is_simps(1) [of _ _ _ "[]"]
    by (simp add: signature_wire_def)
  have at: "at_rest buf (l_advance L d) (opt_blob_wire ?alg (g_algorithm g) @ ?r1)"
    by (rule advance [of _ _ "l_dtag L NDN_DTAG_Signature"])
      (use assms(1) in \<open>simp add: signature_wire_def signature_body_def ndnb_dtag_def\<close>)
  define o1 where "o1 = partial_signature PyNone PyNone (if g_algorithm g = None then data else PyNone) (g_algorithm g)"
  define o2 where "o2 = partial_signature (opt_bytes (g_witness g)) PyNone
    (if g_algorithm g = None \<and> g_witness g = None then data else PyNone) (g_algorithm g)"
  have set1: "case g_algorithm g of None \<Rightarrow> o1 = partial_signature PyNone PyNone data None
      | Some x \<Rightarrow> py_setattr (partial_signature PyNone PyNone data None) ''digestAlgorithm'' (PyBytes x) = Ret o1"
    by (simp add: o1_def partial_signature_set split: option.split)
  have set2: "case g_witness g of None \<Rightarrow> o2 = o1 | Some x \<Rightarrow> py_setattr o1 ''witness'' (PyBytes x) = Ret o2"
    by (simp add: o1_def o2_def partial_signature_set split: option.split)
  have n1: "g_algorithm g = None \<Longrightarrow> \<not> next_is ?alg ?r1" and n2: "g_witness g = None \<Longrightarrow> \<not> next_is ?wit ?r2"
    using tags by simp_all
  obtain d1 where d1: "optional_bytes L NDN_DTAG_DigestAlgorithm ''digestAlgorithm'' (l_advance L d)
      (partial_signature PyNone PyNone data None) = Ret (d1, o1)" "at_rest buf d1 ?r1"
    using optional_field [OF at ok(1) n1 set1] by blast
  obtain d2 where d2: "optional_bytes L NDN_DTAG_Witness ''witness'' d1 o1 = Ret (d2, o2)" "at_rest buf d2 ?r2"
    using optional_field [OF d1(2) ok(2) n2 set2] by blast
  show ?thesis
  proof (cases "g_bits g")
    case None
    then have "required_bits L d2 o2 = Raise NDNSignatureError"
      using required_bits_absent [OF d2(2)] by simp
    then show ?thesis
      using None d1(1) d2(1) match by (simp add: read_signature_def)
  next
    case (Some x)
    then have "at_rest buf d2 (tagged_blob_wire ?bits x @ [0])" "x \<noteq> []"
      using d2(2) ok(3) by (auto simp: opt_blob_wire_def)
    then obtain d3 where d3: "required_bits L d2 o2 = Ret (d3, signature_obj g)" "at_rest buf d3 [0]"
      using required_bits_present [of buf d2 x "[0]"] Some
      unfolding o2_def signature_obj_def partial_signature_def by (metis opt_bytes_simps(2))
    then show ?thesis
      using Some d1(1) d2(1) match check_close [OF d3(2)] by (simp add: read_signature_def)
  qed
qed

end

subsection \<open>Properties\<close>

text \<open>
  C23. Encoding a signature and decoding the buffer gives a signature with the same algorithm,
  witness and bits, but without its wire form: \<^verbatim>\<open>ndn_data\<close>, set first, is dropped when
  the first attribute is set. A signature without bits is encoded, and refused by the decoder.
\<close>

theorem signature_roundtrip:
  assumes "buffer_writer L" "element_decoder L at_rest" "allocs_ok L" "signature_tags L" "signature_ok g"
  shows "bnd (cmd_Signature_obj_to_ndn L (signature_obj g)) (cmd_Signature_obj_from_ndn L)
    = (if g_bits g = None then Raise NDNSignatureError else Ret (signature_obj g))"
proof -
  note start = element_decoder.start [OF assms(2), of "signature_wire L g"]
  from element_decoder.read_signature_wire [OF assms(2) start assms(5,4)] show ?thesis
    using signature_encodes [OF assms(1,3,5)]
    by (simp add: cmd_Signature_obj_from_ndn_def Signature_obj_from_ndn_def partial_signature_set)
qed

definition sample_signature :: signature_fields where
  "sample_signature = \<lparr>g_algorithm = Some [115], g_witness = None, g_bits = Some [1, 0, 2]\<rparr>"

theorem signature_roundtrip_witness:
  "bnd (cmd_Signature_obj_to_ndn demo_codec (signature_obj sample_signature))
       (cmd_Signature_obj_from_ndn demo_codec) = Ret (signature_obj sample_signature)
   \<and> bnd (cmd_Signature_obj_to_ndn demo_codec (signature_obj (sample_signature\<lparr>g_bits := None\<rparr>)))
       (cmd_Signature_obj_from_ndn demo_codec) = Raise NDNSignatureError"
proof -
  have "allocs_ok demo_codec" "signature_tags demo_codec" "buffer_writer demo_codec"
    by (simp_all add: writes_ndnb_writer demo_codec_ndnb)
      (simp_all add: demo_codec_def ndnlib.defs ndnb_lib_def allocs_ok_def signature_tags_def)
  then show ?thesis
    using signature_roundtrip [OF _ demo_decoder.element_decoder_axioms, of sample_signature]
      signature_roundtrip [OF _ demo_decoder.element_decoder_axioms, of "sample_signature\<lparr>g_bits := None\<rparr>"]
    by (simp add: signature_ok_def sample_signature_def)
qed

end
