(* ===== verification/KeyM.thy ===== *)
theory KeyM
  imports LibDecode SystemM
begin

section \<open>Keys and key locators: csrc/key\_utils.c, csrc/methods\_key.c, csrc/methods.c\<close>

text \<open>
  Splitting a key into its private and public halves, the digest of a public key, the \<^verbatim>\<open>Key\<close>
  object, reading and writing DER and PEM, generating a key, and the conversions between a
  \<^verbatim>\<open>KeyLocator\<close> and its buffer. OpenSSL and libndn's key functions are fields of a
  record; a key is the opaque value behind an \<^verbatim>\<open>EVP_PKEY\<close> pointer, a key capsule holds
  one. Files are what is left to read of them.
\<close>

subsection \<open>The key functions of the libraries\<close>

text \<open>
  \<open>None\<close> is a \<^verbatim>\<open>NULL\<close> pointer, or the status that reports a failure. Private keys are written
  by two functions, to a file with the password as the key string, to memory with the
  password as the argument of the default callback.
  \<open>k_err_reason\<close> is the reason code OpenSSL leaves after a failed read, \<open>k_os\<close> are the functions of
  the system of theory \<open>SystemM\<close>, and \<open>k_seekable\<close> says whether \<^verbatim>\<open>fgetpos\<close> works on a file.
\<close>

record keylib = codec +
  k_EVP_PKEY_new :: "nat option"
  k_get1_RSA :: "nat \<Rightarrow> nat option"
  k_RSAPrivateKey_dup :: "nat \<Rightarrow> nat option"
  k_RSAPublicKey_dup :: "nat \<Rightarrow> nat option"
  k_set1_RSA :: "nat \<Rightarrow> nat option"
  k_generate_RSA :: "int \<Rightarrow> nat option"
  k_i2d_PUBKEY :: "nat \<Rightarrow> bytes option"
  k_i2d_PrivateKey :: "nat \<Rightarrow> bytes option"
  k_d2i_PUBKEY :: "bytes \<Rightarrow> nat option"
  k_d2i_PrivateKey :: "bytes \<Rightarrow> nat option"
  k_read_PUBKEY :: "bytes \<Rightarrow> nat option"
  k_read_PrivateKey :: "bytes \<Rightarrow> bytes option \<Rightarrow> nat option"
  k_write_PUBKEY :: "nat \<Rightarrow> bytes option"
  k_write_PrivateKey :: "nat \<Rightarrow> bytes option \<Rightarrow> bytes option"
  k_write_bio_PrivateKey :: "nat \<Rightarrow> bytes option \<Rightarrow> bytes option"
  k_bio :: bool
  k_err_reason :: "bytes \<Rightarrow> nat"
  k_digest_update :: "bytes \<Rightarrow> int"
  k_digest_final :: "bytes \<Rightarrow> int \<times> bytes"
  k_append_pubkey_blob :: "bytes \<Rightarrow> nat \<Rightarrow> int \<times> bytes"
  k_d2i_pubkey :: "bytes \<Rightarrow> nat option"
  k_os :: os
  k_seekable :: "pyval \<Rightarrow> bool"

subsection \<open>Digests and key pairs\<close>

definition create_key_digest :: "'e keylib_scheme \<Rightarrow> bytes \<Rightarrow> bytes outcome" where
  "create_key_digest K dkey =
     (if \<not> mem K A_digest then Raise NDNKeyError
      else if k_digest_update K dkey < 0 then Raise NDNKeyError
      else (let (r, key_digest) = k_digest_final K dkey in
            if r < 0 then Raise NDNKeyError else Ret key_digest))"

definition create_public_key_digest :: "'e keylib_scheme \<Rightarrow> nat \<Rightarrow> pyval outcome" where
  "create_public_key_digest K key =
     (case k_i2d_PUBKEY K key of
        None \<Rightarrow> Raise NDNKeyError
      | Some der \<Rightarrow> bnd (create_key_digest K der) (\<lambda>d. Ret (PyBytes d)))"

text \<open>
  One half of a pair: a new key in a capsule, and the RSA structure of the old one copied into
  it. A failure of \<^verbatim>\<open>EVP_PKEY_set1_RSA\<close> sets no exception.
\<close>

definition copy_key ::
    "'e keylib_scheme \<Rightarrow> capsule_type \<Rightarrow> (nat \<Rightarrow> nat option) \<Rightarrow> nat \<Rightarrow> pyval outcome" where
  "copy_key K ty dup key =
     (case k_EVP_PKEY_new K of
        None \<Rightarrow> Raise NDNKeyError
      | Some fresh \<Rightarrow>
          bnd (fst (NDNObject_New K ty (P_Pkey fresh))) (\<lambda>c.
            case k_get1_RSA K key of
              None \<Rightarrow> Raise NDNKeyError
            | Some rsa \<Rightarrow>
                (case dup rsa of
                   None \<Rightarrow> Raise NDNKeyError
                 | Some rsa_copy \<Rightarrow>
                     (case k_set1_RSA K rsa_copy of
                        None \<Rightarrow> Raise SystemError
                      | Some k \<Rightarrow> Ret (PyCapsule (c\<lparr>cap_pointer := P_Pkey k\<rparr>))))))"

text \<open>
  \<^verbatim>\<open>ndn_keypair\<close>, both results asked for, as all its callers do. The key may be
  \<^verbatim>\<open>NULL\<close>, which \<^verbatim>\<open>EVP_PKEY_get1_RSA\<close> reads through.
\<close>

definition ndn_keypair :: "'e keylib_scheme \<Rightarrow> bool \<Rightarrow> nat option \<Rightarrow> (pyval \<times> pyval) outcome" where
  "ndn_keypair K public_only key =
     (case key of
        None \<Rightarrow>
          (case k_EVP_PKEY_new K of
             None \<Rightarrow> Raise NDNKeyError
           | Some fresh \<Rightarrow>
               bnd (fst (NDNObject_New K (if public_only then PKEY_PUB else PKEY_PRIV) (P_Pkey fresh))) (\<lambda>_. Undef))
      | Some k \<Rightarrow>
          bnd (if public_only then Ret PyNone else copy_key K PKEY_PRIV (k_RSAPrivateKey_dup K) k) (\<lambda>priv.
            bnd (copy_key K PKEY_PUB (k_RSAPublicKey_dup K) k) (\<lambda>pub. Ret (priv, pub))))"

text \<open>
  \<^verbatim>\<open>_pyndn_privatekey_dup\<close>: the status of \<^verbatim>\<open>EVP_PKEY_set1_RSA\<close>, zero for a failure, is
  tested for being negative, so the capsule may hold the fresh, empty key.
\<close>

definition pyndn_privatekey_dup :: "'e keylib_scheme \<Rightarrow> nat \<Rightarrow> pyval outcome" where
  "pyndn_privatekey_dup K key =
     (case k_EVP_PKEY_new K of
        None \<Rightarrow> Raise NDNKeyError
      | Some fresh \<Rightarrow>
          bnd (fst (NDNObject_New K PKEY_PRIV (P_Pkey fresh))) (\<lambda>c.
            case k_get1_RSA K key of
              None \<Rightarrow> Raise NDNKeyError
            | Some rsa \<Rightarrow>
                Ret (PyCapsule (c\<lparr>cap_pointer := P_Pkey (case k_set1_RSA K rsa of Some k \<Rightarrow> k | None \<Rightarrow> fresh)\<rparr>))))"

text \<open>A key pair and the digest: what every reader of keys ends with.\<close>

definition key_triple :: "'e keylib_scheme \<Rightarrow> bool \<Rightarrow> nat option \<Rightarrow> (pyval \<times> pyval \<times> pyval) outcome" where
  "key_triple K public_only key =
     bnd (ndn_keypair K public_only key) (\<lambda>(priv, pub).
       case key of
         None \<Rightarrow> c_assert K False Undef
       | Some k \<Rightarrow> bnd (create_public_key_digest K k) (\<lambda>d. Ret (priv, pub, d)))"

definition build_triple :: "pyval \<times> pyval \<times> pyval \<Rightarrow> pyval" where
  "build_triple t = (case t of (priv, pub, d) \<Rightarrow> PyTuple [priv, pub, d])"

subsection \<open>Generating a key\<close>

text \<open>
  The generator is seeded before the key is made and its seed saved after. The RSA structure
  is assigned to the new key before either is checked; assigning to \<^verbatim>\<open>NULL\<close> writes
  through it. The result comes with the state of the generator and what was asked of it.
\<close>

definition make_key :: "'e keylib_scheme \<Rightarrow> int \<Rightarrow> nat option outcome" where
  "make_key K len =
     (case k_EVP_PKEY_new K of None \<Rightarrow> Undef | Some _ \<Rightarrow> Ret (k_generate_RSA K len))"

definition generate_key ::
    "'e keylib_scheme \<Rightarrow> prng \<Rightarrow> int \<Rightarrow> (pyval \<times> pyval \<times> pyval) outcome \<times> prng \<times> rand_call list" where
  "generate_key K st len =
     (let (seeded, st, calls) = seed_prng (k_os K) st;
          key = bnd seeded (\<lambda>_. make_key K len);
          saved = bnd key (\<lambda>_. save_seed K st)
      in (bnd saved (\<lambda>_. bnd key (\<lambda>k.
            case k of None \<Rightarrow> Raise NDNKeyError | Some k \<Rightarrow> key_triple K False (Some k))),
          st, calls @ (case saved of Ret ws \<Rightarrow> ws | _ \<Rightarrow> [])))"

text \<open>
  \<^verbatim>\<open>_pyndn_cmd_generate_RSA_key\<close>: the result is the \<^verbatim>\<open>Key\<close> it changes. The length is a
  \<^verbatim>\<open>long\<close> handed on as an \<^verbatim>\<open>int\<close>.
\<close>

definition store_key :: "pyval \<Rightarrow> pyval \<times> pyval \<times> pyval \<Rightarrow> pyval outcome" where
  "store_key py_key t =
     (case t of (priv, pub, key_id) \<Rightarrow>
        bnd (py_setattr py_key ''ndn_data_private'' priv) (\<lambda>key.
        bnd (py_setattr key ''ndn_data_public'' pub) (\<lambda>key.
        bnd (py_setattr key ''type'' (PyUnicode [82, 83, 65])) (\<lambda>key.
          py_setattr key ''publicKeyID'' key_id))))"

definition arg_long :: "pyval \<Rightarrow> int outcome" where
  "arg_long v = (case v of PyFloat _ \<Rightarrow> Raise TypeError | _ \<Rightarrow> py_int_as_long v)"

definition cmd_generate_RSA_key ::
    "'e keylib_scheme \<Rightarrow> prng \<Rightarrow> pyval list \<Rightarrow> pyval outcome \<times> prng \<times> rand_call list" where
  "cmd_generate_RSA_key K st args =
     (case args of
        [py_key, py_len] \<Rightarrow>
          (case arg_long py_len of
             Ret keylen \<Rightarrow>
               if tp_name py_key \<noteq> ''Key'' then (Raise TypeError, st, [])
               else (let (r, st, calls) = generate_key K st (to_int32 keylen) in
                     (case r of
                        Ret t \<Rightarrow> store_key py_key t
                      | Raise _ \<Rightarrow> Raise NDNKeyError
                      | Abort \<Rightarrow> Abort
                      | Undef \<Rightarrow> Undef, st, calls))
           | Raise e \<Rightarrow> (Raise e, st, [])
           | Abort \<Rightarrow> (Abort, st, [])
           | Undef \<Rightarrow> (Undef, st, []))
      | _ \<Rightarrow> (Raise TypeError, st, []))"

subsection \<open>Key objects\<close>

text \<open>\<^verbatim>\<open>Key_to_ndn_private\<close>: the private key of a \<^verbatim>\<open>Key\<close>, \<^verbatim>\<open>NULL\<close> where it has none.\<close>

definition Key_to_ndn_private :: "'e env_scheme \<Rightarrow> pyval \<Rightarrow> nat option outcome" where
  "Key_to_ndn_private E py_key =
     (case py_getattr py_key ''ndn_data_private'' of
        Ret capsule \<Rightarrow>
          bnd (NDNObject_Get E PKEY_PRIV capsule) (\<lambda>p.
            case p of None \<Rightarrow> Ret None | Some (P_Pkey k) \<Rightarrow> Ret (Some k) | _ \<Rightarrow> Undef)
      | _ \<Rightarrow> c_assert E False Undef)"

definition Key_obj_from_ndn :: "'e keylib_scheme \<Rightarrow> pyval \<Rightarrow> pyval outcome" where
  "Key_obj_from_ndn K py_key_ndn =
     bnd (NDNObject_IsValid K PKEY_PRIV py_key_ndn) (\<lambda>priv.
     bnd (NDNObject_IsValid K PKEY_PUB py_key_ndn) (\<lambda>pub.
       if \<not> priv \<and> \<not> pub then Raise TypeError
       else bnd (get_pkey K (if priv then PKEY_PRIV else PKEY_PUB) py_key_ndn) (\<lambda>key.
            bnd (ndn_keypair K (\<not> priv) (Some key)) (\<lambda>(private, public).
            bnd (create_public_key_digest K key) (\<lambda>key_id.
            bnd (py_setattr new_Key ''type'' (PyUnicode [82, 83, 65])) (\<lambda>obj.
            bnd (py_setattr obj ''publicKeyID'' key_id) (\<lambda>obj.
            bnd (py_setattr obj ''ndn_data_private'' private) (\<lambda>obj.
              py_setattr obj ''ndn_data_public'' public))))))))"

definition cmd_Key_obj_from_ndn :: "'e keylib_scheme \<Rightarrow> pyval \<Rightarrow> pyval outcome" where
  "cmd_Key_obj_from_ndn K py_ndn_key = Key_obj_from_ndn K py_ndn_key"

subsection \<open>Key locators\<close>

definition KeyLocator_name_to_ndn :: "'e codec_scheme \<Rightarrow> bytes \<Rightarrow> pyval \<Rightarrow> bytes outcome" where
  "KeyLocator_name_to_ndn L keylocator py_name =
     bnd (NDNObject_IsValid L NAME py_name) (\<lambda>valid.
       if \<not> valid then Raise TypeError
       else bnd (get_charbuf L NAME py_name) (\<lambda>name.
            try_mem (l_append_tt L keylocator (l_dtag L NDN_DTAG_KeyName) NDN_DTAG) (\<lambda>b.
            try_mem (l_append L b name) (\<lambda>b.
            try_mem (l_append_closer L b) Ret))))"

definition KeyLocator_key_to_ndn :: "'e keylib_scheme \<Rightarrow> bytes \<Rightarrow> pyval \<Rightarrow> bytes outcome" where
  "KeyLocator_key_to_ndn K keylocator py_key =
     bnd (NDNObject_IsValid K PKEY_PUB py_key) (\<lambda>valid.
       if \<not> valid then Raise TypeError
       else bnd (get_pkey K PKEY_PUB py_key) (\<lambda>key.
            try_mem (l_append_tt K keylocator (l_dtag K NDN_DTAG_Key) NDN_DTAG) (\<lambda>b.
            try_mem (k_append_pubkey_blob K b key) (\<lambda>b.
            try_mem (l_append_closer K b) Ret))))"

text \<open>
  \<^verbatim>\<open>_pyndn_cmd_KeyLocator_to_ndn\<close>, its keyword arguments bound; the ones not given are
  \<^verbatim>\<open>None\<close>. The digest is accepted and not looked at.
\<close>

definition cmd_KeyLocator_to_ndn ::
    "'e keylib_scheme \<Rightarrow> pyval \<Rightarrow> pyval \<Rightarrow> pyval \<Rightarrow> pyval \<Rightarrow> pyval outcome" where
  "cmd_KeyLocator_to_ndn K py_name py_digest py_key py_cert =
     jump_if_null_mem (mem K A_charbuf)
      (try_mem (l_append_tt K [] (l_dtag K NDN_DTAG_KeyLocator) NDN_DTAG) (\<lambda>b.
        bnd (if py_name \<noteq> PyNone then KeyLocator_name_to_ndn K b py_name
             else if py_key \<noteq> PyNone then KeyLocator_key_to_ndn K b py_key
             else if py_cert \<noteq> PyNone then Raise NotImplementedError
             else Ret b) (\<lambda>b.
        try_mem (l_append_closer K b) (\<lambda>b.
        bnd (fst (NDNObject_New K KEY_LOCATOR (P_Charbuf b))) (\<lambda>c. Ret (PyCapsule c))))))"

text \<open>The name inside a KeyName element: \<open>d\<close> stands behind its tag.\<close>

definition locator_name :: "'e codec_scheme \<Rightarrow> decoder \<Rightarrow> (decoder \<times> pyval) outcome" where
  "locator_name L d =
     (let start = dec_token_index d; (r, d') = l_parse_Name L d; stop = dec_token_index d' in
      if r < 0 then Raise NDNKeyLocatorError
      else c_assert L (start < stop)
        (if stop < start then Undef
         else bnd (NDNObject_New_charbuf L NAME) (\<lambda>c.
              bnd (mem_read (dec_buf d') start (stop - start)) (\<lambda>bname.
              try_mem (l_append L [] bname) (\<lambda>name.
              bnd (Name_obj_from_ndn L (fill c name)) (\<lambda>py_name_obj.
              bnd (py_setattr new_KeyLocator ''keyName'' py_name_obj) (\<lambda>obj. Ret (d', obj))))))))"

text \<open>The key of a Key element. The attribute it is stored in is not a slot of the class.\<close>

definition locator_key :: "'e keylib_scheme \<Rightarrow> decoder \<Rightarrow> (decoder \<times> pyval) outcome" where
  "locator_key K d =
     (let (r, d') = l_required_blob K d (l_dtag K NDN_DTAG_Key) 1 (- 1) in
      if r < 0 then Raise NDNKeyLocatorError
      else (let (r, off, n) = ref_between_tokens K NDN_DTAG_Key d d' in
            if r < 0 then Raise NDNKeyLocatorError
            else bnd (mem_read (dec_buf d') off n) (\<lambda>dkey.
                 case k_d2i_pubkey K dkey of
                   None \<Rightarrow> Raise NDNKeyLocatorError
                 | Some pubkey \<Rightarrow>
                     bnd (fst (NDNObject_New K PKEY_PUB (P_Pkey pubkey))) (\<lambda>py_ndn_key.
                     bnd (Key_obj_from_ndn K (PyCapsule py_ndn_key)) (\<lambda>py_key_obj.
                     bnd (py_setattr new_KeyLocator ''key'' py_key_obj) (\<lambda>obj. Ret (d', obj)))))))"

text \<open>The close is checked, its result is not.\<close>

definition KeyLocator_obj_from_ndn :: "'e keylib_scheme \<Rightarrow> pyval \<Rightarrow> pyval outcome" where
  "KeyLocator_obj_from_ndn K py_keylocator =
     bnd (get_charbuf K KEY_LOCATOR py_keylocator) (\<lambda>keylocator.
       let d = l_decoder_start K keylocator in
       if \<not> l_match_dtag K d (l_dtag K NDN_DTAG_KeyLocator) then Raise NDNKeyLocatorError
       else (let d = l_advance K d in
         bnd (if l_match_dtag K d (l_dtag K NDN_DTAG_KeyName) then locator_name K (l_advance K d)
              else if l_match_dtag K d (l_dtag K NDN_DTAG_Key) then locator_key K d
              else if l_match_dtag K d (l_dtag K NDN_DTAG_Certificate) then Raise NotImplementedError
              else Raise NDNKeyLocatorError)
           (\<lambda>(d, obj). Ret obj)))"

definition cmd_KeyLocator_obj_from_ndn :: "'e keylib_scheme \<Rightarrow> pyval \<Rightarrow> pyval outcome" where
  "cmd_KeyLocator_obj_from_ndn K py_keylocator =
     bnd (NDNObject_IsValid K KEY_LOCATOR py_keylocator) (\<lambda>valid.
       if \<not> valid then Raise TypeError else KeyLocator_obj_from_ndn K py_keylocator)"

text \<open>\<^verbatim>\<open>build_keylocator_from_key\<close> of \<^verbatim>\<open>key_utils.c\<close> looks at one status of five.\<close>

definition build_keylocator_from_key :: "'e keylib_scheme \<Rightarrow> nat \<Rightarrow> (int \<times> bytes) outcome" where
  "build_keylocator_from_key K key =
     (if \<not> mem K A_charbuf then Undef
      else (let b = snd (l_append_tt K [] (l_dtag K NDN_DTAG_KeyLocator) NDN_DTAG);
                b = snd (l_append_tt K b (l_dtag K NDN_DTAG_Key) NDN_DTAG);
                (res, b) = k_append_pubkey_blob K b key;
                b = snd (l_append_closer K b);
                b = snd (l_append_closer K b)
            in Ret (res, b)))"

subsection \<open>DER and PEM\<close>

text \<open>
  The argument for a password: \<^verbatim>\<open>PyString_AsString\<close>, read as a C string. What is not a
  string gives \<^verbatim>\<open>NULL\<close> and leaves the exception it set pending, so that a command which then
  succeeds returns a result with an exception set (\<open>Undef\<close>).
\<close>

definition password_arg :: "pyval \<Rightarrow> bytes option \<times> bool" where
  "password_arg py_password =
     (if py_password = PyNone then (None, False)
      else case bytes_as_string_and_size py_password of
             Ret b \<Rightarrow> (Some (takeWhile (\<lambda>x. x \<noteq> 0) b), False)
           | _ \<Rightarrow> (None, True))"

definition with_pending :: "bool \<Rightarrow> 'a outcome \<Rightarrow> 'a outcome" where
  "with_pending pending m = (if pending \<and> is_ret m then Undef else m)"

definition read_key_pem :: "'e keylib_scheme \<Rightarrow> pyval \<Rightarrow> bytes \<Rightarrow> bytes option \<Rightarrow> (pyval \<times> pyval \<times> pyval) outcome" where
  "read_key_pem K py_file content password =
     (if \<not> k_seekable K py_file then Raise IOError
      else case k_read_PrivateKey K content password of
             Some key \<Rightarrow> key_triple K False (Some key)
           | None \<Rightarrow>
               if k_err_reason K content = 108
               then (case k_read_PUBKEY K content of
                       Some key \<Rightarrow> key_triple K True (Some key)
                     | None \<Rightarrow> Raise NDNKeyError)
               else Raise NDNKeyError)"

definition put_key_pem ::
    "'e keylib_scheme \<Rightarrow> bool \<Rightarrow> pyval \<Rightarrow> bytes option \<Rightarrow> (pyval \<times> pyval \<times> pyval) outcome" where
  "put_key_pem K is_public_only py_key_pem password =
     bnd (bytes_as_string_and_size py_key_pem) (\<lambda>key_pem.
       if \<not> k_bio K then Raise NDNKeyError
       else case (if is_public_only then k_read_PUBKEY K key_pem else k_read_PrivateKey K key_pem password) of
              None \<Rightarrow> Raise NDNKeyError
            | Some key \<Rightarrow> key_triple K is_public_only (Some key))"

text \<open>\<^verbatim>\<open>put_key_der\<close> does not look whether the bytes were a key.\<close>

definition put_key_der :: "'e keylib_scheme \<Rightarrow> bool \<Rightarrow> pyval \<Rightarrow> (pyval \<times> pyval \<times> pyval) outcome" where
  "put_key_der K is_public_only py_key_der =
     bnd (bytes_as_string_and_size py_key_der) (\<lambda>key_der.
       key_triple K is_public_only
         (if is_public_only then k_d2i_PUBKEY K key_der else k_d2i_PrivateKey K key_der))"

definition get_key_pem_private :: "'e keylib_scheme \<Rightarrow> nat \<Rightarrow> bytes option \<Rightarrow> pyval outcome" where
  "get_key_pem_private K key password =
     (if \<not> k_bio K then Raise NDNKeyError
      else case k_write_bio_PrivateKey K key password of
             None \<Rightarrow> Raise NDNKeyError | Some pem \<Rightarrow> Ret (PyBytes pem))"

definition get_key_pem_public :: "'e keylib_scheme \<Rightarrow> nat \<Rightarrow> pyval outcome" where
  "get_key_pem_public K key =
     (if \<not> k_bio K then Raise NDNKeyError
      else case k_write_PUBKEY K key of None \<Rightarrow> Raise NDNKeyError | Some pem \<Rightarrow> Ret (PyBytes pem))"

definition get_key_der_private :: "'e keylib_scheme \<Rightarrow> nat \<Rightarrow> pyval outcome" where
  "get_key_der_private K key =
     (case k_i2d_PrivateKey K key of None \<Rightarrow> Raise NDNKeyError | Some der \<Rightarrow> Ret (PyBytes der))"

definition get_key_der_public :: "'e keylib_scheme \<Rightarrow> nat \<Rightarrow> pyval outcome" where
  "get_key_der_public K key =
     (case k_i2d_PUBKEY K key of None \<Rightarrow> Raise NDNKeyError | Some der \<Rightarrow> Ret (PyBytes der))"

definition cmd_PEM_read_key ::
    "'e keylib_scheme \<Rightarrow> pyval \<Rightarrow> pyval \<Rightarrow> pyval \<Rightarrow> pyval \<Rightarrow> pyval outcome \<times> fd_action list" where
  "cmd_PEM_read_key K py_file py_private_pem py_public_pem py_password =
     (let (password, pending) = password_arg py_password;
          (r, fds) =
            (if py_file \<noteq> PyNone then
               with_file (k_os K) py_file ''r'' (\<lambda>content. read_key_pem K py_file content password)
             else if py_private_pem \<noteq> PyNone then (put_key_pem K False py_private_pem password, [])
             else if py_public_pem \<noteq> PyNone then (put_key_pem K True py_public_pem None, [])
             else (Raise TypeError, []))
      in (with_pending pending (bnd r (\<lambda>t. Ret (build_triple t))), fds))"

definition cmd_DER_read_key :: "'e keylib_scheme \<Rightarrow> pyval \<Rightarrow> pyval \<Rightarrow> pyval outcome" where
  "cmd_DER_read_key K py_private_der py_public_der =
     (if py_private_der = PyNone \<and> py_public_der = PyNone then Raise ValueError
      else (let is_public_only = (py_private_der = PyNone);
                py_der = (if is_public_only then py_public_der else py_private_der) in
            case py_der of
              PyBytes _ \<Rightarrow> bnd (put_key_der K is_public_only py_der) (\<lambda>t. Ret (build_triple t))
            | _ \<Rightarrow> Raise TypeError))"

text \<open>The key argument of the writers: whether it is private, and the key.\<close>

definition any_key :: "'e keylib_scheme \<Rightarrow> pyval \<Rightarrow> (bool \<times> nat) outcome" where
  "any_key K py_pkey =
     bnd (NDNObject_IsValid K PKEY_PRIV py_pkey) (\<lambda>priv.
     bnd (NDNObject_IsValid K PKEY_PUB py_pkey) (\<lambda>pub.
       if priv then bnd (get_pkey K PKEY_PRIV py_pkey) (\<lambda>k. Ret (True, k))
       else if pub then bnd (get_pkey K PKEY_PUB py_pkey) (\<lambda>k. Ret (False, k))
       else Raise TypeError))"

definition cmd_DER_write_key :: "'e keylib_scheme \<Rightarrow> pyval \<Rightarrow> pyval \<Rightarrow> pyval outcome" where
  "cmd_DER_write_key K py_pkey py_file =
     bnd (any_key K py_pkey) (\<lambda>(isprivate, pkey).
       if py_file \<noteq> PyNone then Raise NotImplementedError
       else if isprivate then get_key_der_private K pkey else get_key_der_public K pkey)"

text \<open>\<^verbatim>\<open>write_key_pem_private\<close> and \<^verbatim>\<open>write_key_pem_public\<close>: the bytes that go to the file.\<close>

definition write_key_pem :: "'e keylib_scheme \<Rightarrow> bool \<Rightarrow> nat \<Rightarrow> bytes option \<Rightarrow> bytes outcome" where
  "write_key_pem K isprivate pkey password =
     (case (if isprivate then k_write_PrivateKey K pkey password else k_write_PUBKEY K pkey) of
        None \<Rightarrow> Raise NDNKeyError | Some pem \<Rightarrow> Ret pem)"

text \<open>\<^verbatim>\<open>_pyndn_cmd_PEM_write_key\<close>: the result with what is written to the file, and the descriptors.\<close>

definition cmd_PEM_write_key ::
    "'e keylib_scheme \<Rightarrow> pyval \<Rightarrow> pyval \<Rightarrow> pyval \<Rightarrow> (pyval \<times> bytes) outcome \<times> fd_action list" where
  "cmd_PEM_write_key K py_pkey py_file py_password =
     (case any_key K py_pkey of
        Ret (isprivate, pkey) \<Rightarrow>
          (let (password, pending) = password_arg py_password;
               (r, fds) =
                 (if py_file \<noteq> PyNone then
                    with_file (k_os K) py_file ''w''
                      (\<lambda>_. bnd (write_key_pem K isprivate pkey password) (\<lambda>pem. Ret (PyNone, pem)))
                  else (bnd (if isprivate then get_key_pem_private K pkey password else get_key_pem_public K pkey)
                          (\<lambda>r. Ret (r, [])), []))
           in (with_pending pending r, fds))
      | Raise e \<Rightarrow> (Raise e, [])
      | Abort \<Rightarrow> (Abort, [])
      | Undef \<Rightarrow> (Undef, []))"

subsection \<open>What the properties need of the key functions\<close>

text \<open>
  \<open>rsa_key\<close> are the RSA keys, \<open>is_private\<close> those with a private half, \<open>public_of\<close> the public
  half: OpenSSL's duplicates hold the half they are named after, and the DER encodings can be
  read back.
\<close>

locale key_library =
  fixes K :: "'e keylib_scheme"
    and rsa_key :: "nat \<Rightarrow> bool"
    and is_private :: "nat \<Rightarrow> bool"
    and public_of :: "nat \<Rightarrow> nat"
  assumes fresh: "k_EVP_PKEY_new K \<noteq> None"
    and public_dup:
      "rsa_key k \<Longrightarrow> \<exists>rsa r. k_get1_RSA K k = Some rsa \<and> k_RSAPublicKey_dup K rsa = Some r
                         \<and> k_set1_RSA K r = Some (public_of k)"
    and private_dup:
      "rsa_key k \<Longrightarrow> is_private k \<Longrightarrow> k_get1_RSA K k = Some rsa
       \<Longrightarrow> \<exists>r. k_RSAPrivateKey_dup K rsa = Some r \<and> k_set1_RSA K r = Some k"
    and public_rsa: "rsa_key k \<Longrightarrow> rsa_key (public_of k)"
    and public_idem: "public_of (public_of k) = public_of k"
    and same_public: "k_i2d_PUBKEY K (public_of k) = k_i2d_PUBKEY K k"
    and der_public:
      "rsa_key k \<Longrightarrow> \<exists>der. k_i2d_PUBKEY K k = Some der \<and> k_d2i_PUBKEY K der = Some (public_of k)"
    and der_private:
      "rsa_key k \<Longrightarrow> is_private k \<Longrightarrow> \<exists>der. k_i2d_PrivateKey K k = Some der \<and> k_d2i_PrivateKey K der = Some k"
    and digests: "0 \<le> k_digest_update K x" "0 \<le> fst (k_digest_final K x)"

text \<open>The capsule that holds a key, and the digest of its public half.\<close>

definition key_box :: "capsule_type \<Rightarrow> nat \<Rightarrow> pyval" where
  "key_box ty k =
     PyCapsule \<lparr>cap_pointer = P_Pkey k, cap_name = Some (capsule_name ty), cap_context = NoContext, cap_owned = True\<rparr>"

definition key_id :: "'e keylib_scheme \<Rightarrow> nat \<Rightarrow> bytes" where
  "key_id K k = (case k_i2d_PUBKEY K k of None \<Rightarrow> [] | Some der \<Rightarrow> snd (k_digest_final K der))"

lemma has_type_key_box [simp]: "has_type ty (key_box ty' k) \<longleftrightarrow> ty = ty'"
  by (auto simp: has_type_def capsule_is_valid_def key_box_def)

lemma get_pkey_box [simp]: "listed ty \<Longrightarrow> get_pkey E ty (key_box ty k) = Ret k"
  by (simp add: get_pkey_def NDNObject_Get_def) (simp add: key_box_def)

context key_library begin

lemma copy_public:
  assumes "rsa_key k" "allocs_ok K"
  shows "copy_key K PKEY_PUB (k_RSAPublicKey_dup K) k = Ret (key_box PKEY_PUB (public_of k))"
  using public_dup [OF assms(1)] fresh assms(2)
  by (auto simp: copy_key_def NDNObject_New_def key_box_def)

lemma copy_private:
  assumes "rsa_key k" "is_private k" "allocs_ok K"
  shows "copy_key K PKEY_PRIV (k_RSAPrivateKey_dup K) k = Ret (key_box PKEY_PRIV k)"
proof -
  obtain rsa where rsa: "k_get1_RSA K k = Some rsa"
    using public_dup [OF assms(1)] by blast
  show ?thesis
    using private_dup [OF assms(1,2) rsa] rsa fresh assms(3)
    by (auto simp: copy_key_def NDNObject_New_def key_box_def)
qed

lemma keypair:
  assumes "rsa_key k" "allocs_ok K" "public_only \<or> is_private k"
  shows "ndn_keypair K public_only (Some k)
    = Ret (if public_only then PyNone else key_box PKEY_PRIV k, key_box PKEY_PUB (public_of k))"
  using copy_public [OF assms(1,2)] copy_private [OF assms(1) _ assms(2)] assms(3)
  by (auto simp: ndn_keypair_def)

lemma public_digest:
  assumes "rsa_key k" "allocs_ok K"
  shows "create_public_key_digest K k = Ret (PyBytes (key_id K k))"
proof -
  obtain der where der: "k_i2d_PUBKEY K k = Some der"
    using der_public [OF assms(1)] by blast
  obtain r d where d: "k_digest_final K der = (r, d)" by (cases "k_digest_final K der")
  then show ?thesis
    using digests(1) [of der] digests(2) [of der] assms(2) der
    by (simp add: create_public_key_digest_def create_key_digest_def key_id_def)
qed

lemma same_id: "key_id K (public_of k) = key_id K k"
  by (simp add: key_id_def same_public)

lemma triple:
  assumes "rsa_key k" "allocs_ok K" "public_only \<or> is_private k"
  shows "key_triple K public_only (Some k)
    = Ret (if public_only then PyNone else key_box PKEY_PRIV k, key_box PKEY_PUB (public_of k), PyBytes (key_id K k))"
  using keypair [OF assms] public_digest [OF assms(1,2)] by (simp add: key_triple_def)

end

subsection \<open>Key locators read back\<close>

definition keylocator_obj :: "pyval \<Rightarrow> pyval \<Rightarrow> pyval" where
  "keylocator_obj py_name py_ndn = PyInst ''KeyLocator'' [(''keyName'', py_name), (''ndn_data'', py_ndn)]"

definition locator_wire :: "'e codec_scheme \<Rightarrow> ndn_dtag \<Rightarrow> bytes \<Rightarrow> bytes" where
  "locator_wire L tag x =
     ndnb_dtag (l_dtag L NDN_DTAG_KeyLocator) (ndnb_dtag (l_dtag L tag) x)"

lemma locator_encodes_name:
  assumes "buffer_writer K" "allocs_ok K"
  shows "cmd_KeyLocator_to_ndn K (box NAME (name_wire cs)) dg key cert
    = Ret (box KEY_LOCATOR (locator_wire K NDN_DTAG_KeyName (name_wire cs)))"
proof -
  have "box NAME (name_wire cs) \<noteq> PyNone"
    by (simp add: box_def)
  then show ?thesis
    using assms(2)
    by (simp add: cmd_KeyLocator_to_ndn_def KeyLocator_name_to_ndn_def jump_if_null_mem_def
        buffer_writer.append [OF assms(1)] buffer_writer.append_tt [OF assms(1)]
        buffer_writer.append_closer [OF assms(1)] NDNObject_New_def locator_wire_def ndnb_dtag_def)
      (simp add: box_def fresh_context_def)
qed

lemma locator_encodes_key:
  assumes "buffer_writer K" "allocs_ok K" "\<And>b. k_append_pubkey_blob K b k = (0, b @ ndnb_blob der)"
  shows "cmd_KeyLocator_to_ndn K PyNone dg (key_box PKEY_PUB k) cert
    = Ret (box KEY_LOCATOR (locator_wire K NDN_DTAG_Key (ndnb_blob der)))"
proof -
  have "key_box PKEY_PUB k \<noteq> PyNone"
    by (simp add: key_box_def)
  then show ?thesis
    using assms(2)
    by (simp add: cmd_KeyLocator_to_ndn_def KeyLocator_key_to_ndn_def jump_if_null_mem_def
        buffer_writer.append_tt [OF assms(1)] buffer_writer.append_closer [OF assms(1)]
        assms(3) NDNObject_New_def locator_wire_def ndnb_dtag_def)
      (simp add: box_def fresh_context_def)
qed

context element_decoder begin

lemma locator_name_wire:
  assumes "name_library L" "buffer_writer L" "allocs_ok L"
    and "\<forall>c \<in> set cs. length (component_wire c) < 2 ^ 31" "at_rest buf d (name_wire cs @ rest)"
  shows "\<exists>d'. locator_name L d = Ret (d', keylocator_obj (name_obj cs) PyNone)"
proof -
  let ?d = "snd (l_parse_Name L d)"
  have r: "0 \<le> fst (l_parse_Name L d)" and at: "at_rest buf ?d rest"
    using parse_name [OF assms(5)] by auto
  have "dec_token_index ?d = dec_token_index d + length (name_wire cs)" "dec_buf ?d = buf"
    "drop (dec_token_index d) buf = name_wire cs @ rest" "dec_token_index ?d \<le> length buf"
    using position [OF assms(5)] position [OF at] by auto
  then have read: "mem_read (dec_buf ?d) (dec_token_index d) (dec_token_index ?d - dec_token_index d) = Ret (name_wire cs)"
    "dec_token_index d < dec_token_index ?d"
    by (simp_all add: mem_read_def name_wire_eq)
  have "bnd (Name_obj_from_ndn L (box NAME (name_wire cs))) (\<lambda>n. py_setattr new_KeyLocator ''keyName'' n)
      = Ret (keylocator_obj (name_obj cs) PyNone)"
    using name_library.name_from_box [OF assms(1) _ assms(4)] assms(3)
    by (simp add: new_KeyLocator_def keylocator_obj_def caches_wire_def)
  then show ?thesis
    using r read buffer_writer.append [OF assms(2)] assms(3)
      New_charbuf_ok [of NAME L "\<lambda>v. bnd (Name_obj_from_ndn L v) (\<lambda>n.
          bnd (py_setattr new_KeyLocator ''keyName'' n) (\<lambda>obj. Ret (?d, obj)))" "name_wire cs"]
    by (simp add: locator_name_def Let_def case_prod_beta charbuf_types_def bnd_eq_Ret)
qed

text \<open>Where the decoder stands behind the tag of a locator.\<close>

lemma inside_locator:
  assumes "w = locator_wire L tag x"
  shows "l_match_dtag L (l_decoder_start L w) (l_dtag L NDN_DTAG_KeyLocator)"
    and "at_rest w (l_advance L (l_decoder_start L w)) (ndnb_dtag (l_dtag L tag) x @ [0])"
    and "l_match_dtag L (l_advance L (l_decoder_start L w)) t \<longleftrightarrow> t = l_dtag L tag"
    and "at_rest w (l_advance L (l_advance L (l_decoder_start L w))) (x @ [0, 0])"
proof -
  have w: "w = ndnb_encode (l_dtag L NDN_DTAG_KeyLocator) NDN_DTAG @ ndnb_dtag (l_dtag L tag) x @ [0]"
    by (simp add: assms locator_wire_def ndnb_dtag_def)
  show "l_match_dtag L (l_decoder_start L w) (l_dtag L NDN_DTAG_KeyLocator)"
    using match [OF start, of w "l_dtag L NDN_DTAG_KeyLocator"] next_is_simps(1) [of _ _ _ "[]"]
    by (simp add: assms locator_wire_def)
  show at: "at_rest w (l_advance L (l_decoder_start L w)) (ndnb_dtag (l_dtag L tag) x @ [0])"
    by (rule advance [of _ _ "l_dtag L NDN_DTAG_KeyLocator"]) (use start [of w] w in simp)
  show "l_match_dtag L (l_advance L (l_decoder_start L w)) t \<longleftrightarrow> t = l_dtag L tag"
    using match [OF at, of t] by simp
  show "at_rest w (l_advance L (l_advance L (l_decoder_start L w))) (x @ [0, 0])"
    by (rule advance [of _ _ "l_dtag L tag"]) (use at in \<open>simp add: ndnb_dtag_def\<close>)
qed

end

lemma keylocator_from_name_wire:
  assumes "name_library K" "buffer_writer K" "element_decoder K at_rest" "allocs_ok K"
    and "\<forall>c \<in> set cs. length (component_wire c) < 2 ^ 31"
  shows "KeyLocator_obj_from_ndn K (box KEY_LOCATOR (locator_wire K NDN_DTAG_KeyName (name_wire cs)))
    = Ret (keylocator_obj (name_obj cs) PyNone)"
proof -
  let ?w = "locator_wire K NDN_DTAG_KeyName (name_wire cs)"
  note inside = element_decoder.inside_locator [OF assms(3) refl [of ?w]]
  show ?thesis
    using element_decoder.locator_name_wire [OF assms(3,1,2,4,5) inside(4) [unfolded append_assoc]] inside(1,3)
    by (auto simp: KeyLocator_obj_from_ndn_def Let_def)
qed

context key_library begin

lemma key_object:
  assumes "rsa_key k" "allocs_ok K" "ty = PKEY_PRIV \<and> is_private k \<or> ty = PKEY_PUB"
  shows "Key_obj_from_ndn K (key_box ty k)
    = Ret (PyInst ''Key''
        [(''ndn_data_dirty'', PyBool False), (''type'', PyUnicode [82, 83, 65]),
         (''publicKeyID'', PyBytes (key_id K k)), (''ndn_data_public'', key_box PKEY_PUB (public_of k)),
         (''ndn_data_private'', if ty = PKEY_PRIV then key_box PKEY_PRIV k else PyNone)])"
  using assms(3) keypair [OF assms(1,2), of "ty = PKEY_PUB"] public_digest [OF assms(1,2)]
  by (auto simp: Key_obj_from_ndn_def new_Key_def nones_def caches_wire_def)

lemma keylocator_from_key_wire:
  assumes "element_decoder K at_rest" "allocs_ok K" "der \<noteq> []" "k_d2i_pubkey K der = Some k" "rsa_key k"
    and "l_dtag K NDN_DTAG_Key \<noteq> l_dtag K NDN_DTAG_KeyName"
  shows "KeyLocator_obj_from_ndn K (box KEY_LOCATOR (locator_wire K NDN_DTAG_Key (ndnb_blob der))) = Raise AttributeError"
proof -
  let ?w = "locator_wire K NDN_DTAG_Key (ndnb_blob der)"
  let ?d = "l_advance K (l_decoder_start K ?w)"
  let ?d' = "snd (l_required_blob K ?d (l_dtag K NDN_DTAG_Key) 1 (- 1))"
  note inside = element_decoder.inside_locator [OF assms(1) refl [of ?w]]
  have d: "at_rest ?w ?d (tagged_blob_wire (l_dtag K NDN_DTAG_Key) der @ [0])"
    using inside(2) by (simp add: tagged_blob_wire_def)
  have hit: "0 \<le> fst (l_required_blob K ?d (l_dtag K NDN_DTAG_Key) 1 (- 1))" "at_rest ?w ?d' [0]"
    using element_decoder.required_hit [OF assms(1) d, of 1 "- 1"] assms(3)
    by (simp_all add: in_bounds_def Suc_le_eq)
  obtain off n where ref: "ref_between_tokens K NDN_DTAG_Key ?d ?d' = (0, off, n)" "mem_read (dec_buf ?d') off n = Ret der"
    using element_decoder.ref_tokens_hit [OF assms(1) d hit(2)] by blast
  have new: "fst (NDNObject_New K PKEY_PUB (P_Pkey k))
      = Ret \<lparr>cap_pointer = P_Pkey k, cap_name = Some (capsule_name PKEY_PUB), cap_context = NoContext, cap_owned = True\<rparr>"
    using assms(2) by (simp add: NDNObject_New_def)
  have "locator_key K ?d = Raise AttributeError"
    using hit(1) ref assms(4) new key_object [OF assms(5,2), of PKEY_PUB]
    by (simp add: locator_key_def case_prod_beta Let_def key_box_def new_KeyLocator_def)
  then show ?thesis
    using inside(1,3) assms(6) by (simp add: KeyLocator_obj_from_ndn_def Let_def)
qed

end

subsection \<open>Keys that obey the laws\<close>

text \<open>
  Keys below 256: the even ones are private, the next number is the public half, the encodings
  are the number as one byte.
\<close>

definition demo_public :: "nat \<Rightarrow> nat" where
  "demo_public k = (if even k then Suc k else k)"

definition one_byte :: "bytes \<Rightarrow> nat option" where
  "one_byte d = (case d of [b] \<Rightarrow> Some (unat b) | _ \<Rightarrow> None)"

definition private_byte :: "bytes \<Rightarrow> nat option" where
  "private_byte d = (case one_byte d of Some k \<Rightarrow> if even k then Some k else None | None \<Rightarrow> None)"

definition demo_os :: os where
  "demo_os =
     \<lparr>os_fileno = (\<lambda>v. if v = PyInt 3 then Ret 3 else Raise TypeError), os_dup = (\<lambda>_. 7),
      os_fdopen = (\<lambda>_ _. Some [4]), os_rand_file_name = Some ''.rnd'',
      os_rand_load = (\<lambda>_ n. if n < 0 then 1024 else n), os_fopen = (\<lambda>_ _. True)\<rparr>"

definition demo_keylib :: keylib where
  "demo_keylib =
     codec.extend demo_codec
       (keylib.fields (Some 0) Some Some (\<lambda>k. Some (demo_public k)) Some (\<lambda>_. Some 2)
         (\<lambda>k. Some [of_nat (demo_public k)]) (\<lambda>k. if even k then Some [of_nat k] else None)
         (\<lambda>d. map_option demo_public (one_byte d)) one_byte
         (\<lambda>d. map_option demo_public (one_byte d)) (\<lambda>d _. private_byte d)
         (\<lambda>k. Some [of_nat (demo_public k)]) (\<lambda>k _. if even k then Some [of_nat k] else None)
         (\<lambda>k _. if even k then Some [of_nat k] else None) True (\<lambda>_. 108) (\<lambda>_. 0) (\<lambda>x. (0, x))
         (\<lambda>b k. (0, b @ ndnb_blob [of_nat (demo_public k)])) (\<lambda>d. map_option demo_public (one_byte d))
         demo_os (\<lambda>_. True))"

lemma demo_keylib_simps:
  "k_EVP_PKEY_new demo_keylib = Some 0" "k_get1_RSA demo_keylib = Some"
  "k_RSAPrivateKey_dup demo_keylib = Some" "k_RSAPublicKey_dup demo_keylib = (\<lambda>k. Some (demo_public k))"
  "k_set1_RSA demo_keylib = Some" "k_i2d_PUBKEY demo_keylib = (\<lambda>k. Some [of_nat (demo_public k)])"
  "k_i2d_PrivateKey demo_keylib = (\<lambda>k. if even k then Some [of_nat k] else None)"
  "k_d2i_PUBKEY demo_keylib = (\<lambda>d. map_option demo_public (one_byte d))"
  "k_d2i_PrivateKey demo_keylib = one_byte"
  "k_read_PrivateKey demo_keylib = (\<lambda>d _. private_byte d)" "k_bio demo_keylib"
  "k_read_PUBKEY demo_keylib = (\<lambda>d. map_option demo_public (one_byte d))"
  "k_write_PUBKEY demo_keylib = (\<lambda>k. Some [of_nat (demo_public k)])"
  "k_write_PrivateKey demo_keylib = (\<lambda>k _. if even k then Some [of_nat k] else None)"
  "k_write_bio_PrivateKey demo_keylib = (\<lambda>k _. if even k then Some [of_nat k] else None)"
  "k_err_reason demo_keylib = (\<lambda>_. 108)" "k_os demo_keylib = demo_os" "k_seekable demo_keylib = (\<lambda>_. True)"
  "k_generate_RSA demo_keylib = (\<lambda>_. Some 2)"
  "k_digest_update demo_keylib = (\<lambda>_. 0)" "k_digest_final demo_keylib = (\<lambda>x. (0, x))"
  "k_append_pubkey_blob demo_keylib = (\<lambda>b k. (0, b @ ndnb_blob [of_nat (demo_public k)]))"
  "k_d2i_pubkey demo_keylib = (\<lambda>d. map_option demo_public (one_byte d))"
  "mem demo_keylib a" "\<not> ndebug demo_keylib" "l_dtag demo_keylib = nl_dtag"
  by (simp_all add: demo_keylib_def codec.defs keylib.defs demo_codec_def ndnlib.defs ndnb_lib_def)

lemma demo_keylib_ndnb: "writes_ndnb demo_keylib" "names_ndnb demo_keylib" "decodes_ndnb demo_keylib" "allocs_ok demo_keylib"
  by (simp_all add: demo_keylib_def codec.defs keylib.defs demo_codec_def ndnlib.defs ndnb_lib_def
      writes_ndnb_def names_ndnb_def decodes_ndnb_def allocs_ok_def)

lemma one_byte_of_nat: "k < 256 \<Longrightarrow> one_byte [of_nat k] = Some k"
  by (simp add: one_byte_def unat_of_nat_small)

lemma demo_public_small: "k < 256 \<Longrightarrow> demo_public k < 256" "demo_public (demo_public k) = demo_public k"
  by (auto simp: demo_public_def)

interpretation demo_keys: key_library demo_keylib "\<lambda>k. k < 256" even demo_public
  by unfold_locales
    (simp_all add: demo_keylib_simps demo_public_small one_byte_of_nat)

lemmas demo_keylib_laws =
  writes_ndnb_writer [OF demo_keylib_ndnb(1)] names_ndnb_library [OF demo_keylib_ndnb(2)]
  decodes_ndnb_decoder [OF demo_keylib_ndnb(3)] demo_keylib_ndnb(4)

subsection \<open>Properties\<close>

text \<open>
  A key locator made from a name and read back gives a \<^verbatim>\<open>KeyLocator\<close> with that name,
  whatever digest, key or certificate were passed beside it.
\<close>

theorem keylocator_name_roundtrip:
  assumes "name_library K" "buffer_writer K" "element_decoder K at_rest" "allocs_ok K"
    and "\<forall>c \<in> set cs. length (component_wire c) < 2 ^ 31"
  shows "bnd (cmd_KeyLocator_to_ndn K (box NAME (name_wire cs)) dg key cert) (cmd_KeyLocator_obj_from_ndn K)
    = Ret (keylocator_obj (name_obj cs) PyNone)"
  using locator_encodes_name [OF assms(2,4)] keylocator_from_name_wire [OF assms]
  by (simp add: cmd_KeyLocator_obj_from_ndn_def)

theorem keylocator_name_roundtrip_witness:
  "bnd (cmd_KeyLocator_to_ndn demo_keylib (box NAME (name_wire [[7]])) PyNone PyNone PyNone)
       (cmd_KeyLocator_obj_from_ndn demo_keylib) = Ret (keylocator_obj (name_obj [[7]]) PyNone)"
  using keylocator_name_roundtrip [OF demo_keylib_laws(2,1,3,4), of "[[7]]" PyNone PyNone PyNone]
  by (simp add: component_wire_eq ndnb_encode_def high_groups.simps NDN_BLOB_def)

text \<open>
  A key locator made from a public key is encoded, and can never be read: the key is stored
  in an attribute the class has no slot for. One made from nothing is encoded too, and refused.
\<close>

theorem keylocator_key_unreadable:
  assumes "buffer_writer K" "element_decoder K at_rest" "allocs_ok K"
    and "key_library K rsa_key is_private public_of" "rsa_key (public_of k)"
    and "\<And>b. k_append_pubkey_blob K b k = (0, b @ ndnb_blob der)" "der \<noteq> []"
    and "k_d2i_pubkey K der = Some (public_of k)"
    and "l_dtag K NDN_DTAG_Key \<noteq> l_dtag K NDN_DTAG_KeyName"
  shows "bnd (cmd_KeyLocator_to_ndn K PyNone dg (key_box PKEY_PUB k) cert) (cmd_KeyLocator_obj_from_ndn K)
      = Raise AttributeError
    \<and> bnd (cmd_KeyLocator_to_ndn K PyNone dg PyNone PyNone) (cmd_KeyLocator_obj_from_ndn K)
      = Raise NDNKeyLocatorError"
proof
  show "bnd (cmd_KeyLocator_to_ndn K PyNone dg (key_box PKEY_PUB k) cert) (cmd_KeyLocator_obj_from_ndn K)
      = Raise AttributeError"
    using locator_encodes_key [OF assms(1,3,6)]
      key_library.keylocator_from_key_wire [OF assms(4,2,3,7,8,5,9)]
    by (simp add: cmd_KeyLocator_obj_from_ndn_def)
  let ?w = "ndnb_dtag (l_dtag K NDN_DTAG_KeyLocator) []"
  have enc: "cmd_KeyLocator_to_ndn K PyNone dg PyNone PyNone = Ret (box KEY_LOCATOR ?w)"
    using assms(3)
    by (simp add: cmd_KeyLocator_to_ndn_def jump_if_null_mem_def buffer_writer.append_tt [OF assms(1)]
        buffer_writer.append_closer [OF assms(1)] NDNObject_New_def ndnb_dtag_def)
      (simp add: box_def fresh_context_def)
  note start = element_decoder.start [OF assms(2), of ?w]
  have m: "l_match_dtag K (l_decoder_start K ?w) (l_dtag K NDN_DTAG_KeyLocator)"
    using element_decoder.match [OF assms(2) start, of "l_dtag K NDN_DTAG_KeyLocator"] next_is_simps(1) [of _ _ _ "[]"]
    by simp
  have "at_rest ?w (l_advance K (l_decoder_start K ?w)) [0]"
    by (rule element_decoder.advance [OF assms(2), of _ _ "l_dtag K NDN_DTAG_KeyLocator"])
      (use start in \<open>simp add: ndnb_dtag_def\<close>)
  then have "\<not> l_match_dtag K (l_advance K (l_decoder_start K ?w)) tag" for tag
    using element_decoder.match [OF assms(2), of _ _ "[0]" tag] by simp
  then show "bnd (cmd_KeyLocator_to_ndn K PyNone dg PyNone PyNone) (cmd_KeyLocator_obj_from_ndn K)
      = Raise NDNKeyLocatorError"
    using enc m by (simp add: cmd_KeyLocator_obj_from_ndn_def KeyLocator_obj_from_ndn_def)
qed

theorem keylocator_key_unreadable_witness:
  "bnd (cmd_KeyLocator_to_ndn demo_keylib PyNone PyNone (key_box PKEY_PUB 5) PyNone)
       (cmd_KeyLocator_obj_from_ndn demo_keylib) = Raise AttributeError"
  using keylocator_key_unreadable [OF demo_keylib_laws(1,3,4) demo_keys.key_library_axioms, of 5 "[5]" PyNone PyNone]
  by (simp add: demo_keylib_simps demo_public_def one_byte_def)

text \<open>
  C24. DER round trip: a private key written and read back gives the key, its public half and
  the digest of the public half; the public half written and read back gives no private key,
  the same public half and the same digest.
\<close>

theorem der_roundtrip:
  assumes "key_library K rsa_key is_private public_of" "allocs_ok K" "rsa_key k" "is_private k"
  shows "bnd (cmd_DER_write_key K (key_box PKEY_PRIV k) PyNone) (\<lambda>der. cmd_DER_read_key K der PyNone)
      = Ret (PyTuple [key_box PKEY_PRIV k, key_box PKEY_PUB (public_of k), PyBytes (key_id K k)])
    \<and> bnd (cmd_DER_write_key K (key_box PKEY_PUB (public_of k)) PyNone) (\<lambda>der. cmd_DER_read_key K PyNone der)
      = Ret (PyTuple [PyNone, key_box PKEY_PUB (public_of k), PyBytes (key_id K k)])"
proof -
  note pub = key_library.public_rsa [OF assms(1,3)] and idem = key_library.public_idem [OF assms(1)]
  have "key_triple K False (Some k) = Ret (key_box PKEY_PRIV k, key_box PKEY_PUB (public_of k), PyBytes (key_id K k))"
    using key_library.triple [OF assms(1,3,2), of False] assms(4) by simp
  moreover have "key_triple K True (Some (public_of k))
      = Ret (PyNone, key_box PKEY_PUB (public_of k), PyBytes (key_id K k))"
    using key_library.triple [OF assms(1) pub assms(2), of True] idem
      key_library.same_id [OF assms(1)] by simp
  ultimately show ?thesis
    using key_library.der_private [OF assms(1,3,4)] key_library.der_public [OF assms(1) pub] idem
    by (auto simp: cmd_DER_write_key_def any_key_def get_key_der_private_def get_key_der_public_def
        cmd_DER_read_key_def put_key_der_def build_triple_def)
qed

theorem der_roundtrip_witness:
  "bnd (cmd_DER_write_key demo_keylib (key_box PKEY_PRIV 4) PyNone) (\<lambda>der. cmd_DER_read_key demo_keylib der PyNone)
     = Ret (PyTuple [key_box PKEY_PRIV 4, key_box PKEY_PUB 5, PyBytes [5]])"
  using der_roundtrip [OF demo_keys.key_library_axioms demo_keylib_ndnb(4), of 4]
  by (simp add: demo_public_def key_id_def demo_keylib_simps)

text \<open>
  Bytes that are no key: read as PEM they raise \<^verbatim>\<open>NDNKeyError\<close>, read as DER, of either
  half, they send the \<^verbatim>\<open>NULL\<close> key into OpenSSL.
\<close>

theorem malformed_key:
  assumes "mem K A_capsule" "k_EVP_PKEY_new K \<noteq> None"
    and "k_read_PrivateKey K bs None = None" "k_d2i_PrivateKey K bs = None" "k_d2i_PUBKEY K bs = None"
  shows "fst (cmd_PEM_read_key K PyNone (PyBytes bs) PyNone PyNone) = Raise NDNKeyError
    \<and> cmd_DER_read_key K (PyBytes bs) PyNone = Undef \<and> cmd_DER_read_key K PyNone (PyBytes bs) = Undef"
  using assms
  by (auto simp: cmd_PEM_read_key_def password_arg_def with_pending_def put_key_pem_def
      cmd_DER_read_key_def put_key_der_def key_triple_def ndn_keypair_def NDNObject_New_def)

theorem malformed_key_witness:
  "fst (cmd_PEM_read_key demo_keylib PyNone (PyBytes [1, 2]) PyNone PyNone) = Raise NDNKeyError
   \<and> cmd_DER_read_key demo_keylib (PyBytes [1, 2]) PyNone = Undef"
  using malformed_key [of demo_keylib "[1, 2]"] by (simp add: demo_keylib_simps one_byte_def private_byte_def)

text \<open>
  A \<^verbatim>\<open>Key\<close> object and a generated key agree with the capsules they are made of: the
  identifier is the digest of the public half, the private half is there exactly when the
  capsule was private, and nothing else of the object changes.
\<close>

theorem key_objects:
  assumes "key_library K rsa_key is_private public_of" "allocs_ok K" "rsa_key k"
    and "ty = PKEY_PRIV \<and> is_private k \<or> ty = PKEY_PUB"
  shows "\<exists>obj. Key_obj_from_ndn K (key_box ty k) = Ret obj
    \<and> tp_name obj = ''Key'' \<and> attr obj ''publicKeyID'' = Some (PyBytes (key_id K k))
    \<and> attr obj ''ndn_data_public'' = Some (key_box PKEY_PUB (public_of k))
    \<and> Key_to_ndn_private K obj
        = (if ty = PKEY_PRIV then Ret (Some k) else if ndebug K then Ret None else Abort)"
  using key_library.key_object [OF assms(1,3,2,4)] assms(4)
  by (auto simp: Key_to_ndn_private_def NDNObject_Get_def c_assert_def has_type_def capsule_is_valid_def)
    (simp_all add: key_box_def)

theorem key_objects_witness:
  "\<exists>obj. Key_obj_from_ndn demo_keylib (key_box PKEY_PUB 5) = Ret obj
     \<and> attr obj ''publicKeyID'' = Some (PyBytes [5]) \<and> Key_to_ndn_private demo_keylib obj = Abort"
  using key_objects [OF demo_keys.key_library_axioms demo_keylib_ndnb(4), of 5 PKEY_PUB]
  by (auto simp: key_id_def demo_keylib_simps demo_public_def)

end
