(* ===== verification/SignedInfoM.thy ===== *)
theory SignedInfoM
  imports SignatureM KeyM
begin

section \<open>Signed information: csrc/methods\_signedinfo.c\<close>

text \<open>
  Decoding a buffer into a \<^verbatim>\<open>SignedInfo\<close> and making a buffer from the fields of one, with
  what the Python class does around it when its \<^verbatim>\<open>ndn_data\<close> is read.
\<close>

text \<open>
  The functions of libndn behind signed information and content objects; \<open>d_encode_content\<close>
  and \<open>d_verify_signature\<close> take keys, \<open>d_verify_content\<close> the handle. Matching also gives the parsed form
  as the library leaves it: it may have stored the digest there. \<open>d_object_str\<close> is the interpreter's
  \<^verbatim>\<open>str()\<close> of objects other than strings and numbers.
\<close>

record datalib = keylib +
  d_signed_info_create ::
    "bytes \<Rightarrow> bytes \<Rightarrow> int \<Rightarrow> int \<Rightarrow> bytes option \<Rightarrow> bytes option \<Rightarrow> int \<times> bytes"
  d_content_get_value :: "bytes \<Rightarrow> parsed_data \<Rightarrow> int \<times> nat \<times> nat"
  d_encode_content :: "bytes \<Rightarrow> bytes \<Rightarrow> bytes \<Rightarrow> nat option \<Rightarrow> int \<times> bytes"
  d_digest_content :: "bytes \<Rightarrow> parsed_data \<Rightarrow> bytes"
  d_content_matches_interest :: "bytes \<Rightarrow> parsed_data \<Rightarrow> bytes \<Rightarrow> parsed_interest \<Rightarrow> int \<times> parsed_data"
  d_verify_content :: "nat \<Rightarrow> bytes \<Rightarrow> parsed_data \<Rightarrow> int"
  d_verify_signature :: "bytes \<Rightarrow> parsed_data \<Rightarrow> nat \<Rightarrow> int"
  d_object_str :: "pyval \<Rightarrow> pyval outcome"

definition NDN_CONTENT_DATA :: int where "NDN_CONTENT_DATA = 0x0C04C0"

subsection \<open>Decoding\<close>

definition read_type :: "'e datalib_scheme \<Rightarrow> decoder \<Rightarrow> pyval \<Rightarrow> (decoder \<times> pyval) outcome" where
  "read_type D d obj =
     c_assert D (0 \<le> dec_state d)
      (let (r, d) = l_optional_binary_number D d (l_dtag D NDN_DTAG_Type) 3 3 NDN_CONTENT_DATA in
       if dec_state d < 0 then Raise NDNSignedInfoError
       else bnd (py_setattr obj ''type'' (PyInt r)) (\<lambda>obj. Ret (d, obj)))"

definition read_freshness :: "'e datalib_scheme \<Rightarrow> decoder \<Rightarrow> pyval \<Rightarrow> (decoder \<times> pyval) outcome" where
  "read_freshness D d obj =
     (let (r, d) = l_optional_nonneg D d (l_dtag D NDN_DTAG_FreshnessSeconds) in
      if 0 \<le> r then bnd (py_setattr obj ''freshnessSeconds'' (PyInt r)) (\<lambda>obj. Ret (d, obj))
      else Ret (d, obj))"

text \<open>The size is a \<^verbatim>\<open>size_t\<close>: a token before the start would make it huge.\<close>

definition read_key_locator :: "'e datalib_scheme \<Rightarrow> decoder \<Rightarrow> pyval \<Rightarrow> (decoder \<times> pyval) outcome" where
  "read_key_locator D d obj =
     (if \<not> l_match_dtag D d (l_dtag D NDN_DTAG_KeyLocator) then Ret (d, obj)
      else (let start = dec_token_index d; (r, d) = l_advance_past_element D d; stop = dec_token_index d in
            if r < 0 then Raise NDNSignedInfoError
            else if stop < start then Undef
            else c_assert D (start < stop)
             (bnd (NDNObject_New_charbuf D KEY_LOCATOR) (\<lambda>c.
              bnd (mem_read (dec_buf d) start (stop - start)) (\<lambda>x.
              try_mem (l_append D [] x) (\<lambda>key_locator.
              bnd (KeyLocator_obj_from_ndn D (fill c key_locator)) (\<lambda>py_o.
              bnd (py_setattr obj ''keyLocator'' py_o) (\<lambda>obj. Ret (d, obj)))))))))"

text \<open>The elements that may be missing, and the close.\<close>

definition read_optional_part :: "'e datalib_scheme \<Rightarrow> decoder \<Rightarrow> pyval \<Rightarrow> pyval outcome" where
  "read_optional_part D d obj =
     bnd (read_type D d obj) (\<lambda>(d, obj).
     bnd (read_freshness D d obj) (\<lambda>(d, obj).
     bnd (optional_bytes D NDN_DTAG_FinalBlockID ''finalBlockID'' d obj) (\<lambda>(d, obj).
     bnd (read_key_locator D d obj) (\<lambda>(d, obj).
       if dec_state (l_check_close D d) < 0 then Raise NDNSignedInfoError else Ret obj))))"

definition read_signed_info :: "'e datalib_scheme \<Rightarrow> decoder \<Rightarrow> pyval \<Rightarrow> pyval outcome" where
  "read_signed_info D d obj =
     (if \<not> l_match_dtag D d (l_dtag D NDN_DTAG_SignedInfo) then Raise NDNSignedInfoError
      else bnd (required_bytes D NDNSignedInfoError NDN_DTAG_PublisherPublicKeyDigest 16 64
                  ''publisherPublicKeyDigest'' (l_advance D d) obj) (\<lambda>(d, obj).
           bnd (required_bytes D NDNSignedInfoError NDN_DTAG_Timestamp 1 (- 1) ''timeStamp'' d obj) (\<lambda>(d, obj).
             read_optional_part D d obj)))"

definition SignedInfo_obj_from_ndn :: "'e datalib_scheme \<Rightarrow> pyval \<Rightarrow> pyval outcome" where
  "SignedInfo_obj_from_ndn D py_signed_info =
     bnd (get_charbuf D SIGNED_INFO py_signed_info) (\<lambda>signed_info.
       bnd (py_setattr new_SignedInfo ''ndn_data'' py_signed_info)
         (read_signed_info D (l_decoder_start D signed_info)))"

definition cmd_SignedInfo_obj_from_ndn :: "'e datalib_scheme \<Rightarrow> pyval \<Rightarrow> pyval outcome" where
  "cmd_SignedInfo_obj_from_ndn D py_signed_info =
     bnd (NDNObject_IsValid D SIGNED_INFO py_signed_info) (\<lambda>valid.
       if \<not> valid then Raise TypeError else SignedInfo_obj_from_ndn D py_signed_info)"

subsection \<open>Encoding\<close>

text \<open>The final block id is handed to the library as a BLOB.\<close>

definition final_block_arg :: "'e datalib_scheme \<Rightarrow> pyval \<Rightarrow> bytes option outcome" where
  "final_block_arg D py_final_block =
     (if py_final_block = PyNone then Ret None
      else case py_final_block of
             PyBytes s \<Rightarrow>
               jump_if_null_mem (mem D A_charbuf)
                (try_mem (l_append_tt D [] (length s) NDN_BLOB) (\<lambda>b.
                 try_mem (l_append D b s) (\<lambda>b. Ret (Some b))))
           | _ \<Rightarrow> Raise TypeError)"

definition key_locator_arg :: "'e datalib_scheme \<Rightarrow> pyval \<Rightarrow> bytes option outcome" where
  "key_locator_arg D py_key_locator =
     (if py_key_locator = PyNone then Ret None
      else bnd (NDNObject_IsValid D KEY_LOCATOR py_key_locator) (\<lambda>valid.
             if valid then bnd (get_charbuf D KEY_LOCATOR py_key_locator) (\<lambda>b. Ret (Some b))
             else Raise TypeError))"

text \<open>
  \<^verbatim>\<open>_pyndn_cmd_SignedInfo_to_ndn\<close>, its arguments bound: the optional ones default to
  \<^verbatim>\<open>None\<close>, the freshness to -1.
\<close>

definition cmd_SignedInfo_to_ndn ::
    "'e datalib_scheme \<Rightarrow> pyval \<Rightarrow> pyval \<Rightarrow> pyval \<Rightarrow> pyval \<Rightarrow> pyval \<Rightarrow> pyval \<Rightarrow> pyval outcome" where
  "cmd_SignedInfo_to_ndn D py_pubkey_digest py_type py_timestamp py_freshness py_final_block py_key_locator =
     bnd (arg_int py_type) (\<lambda>ty.
     bnd (arg_int py_freshness) (\<lambda>freshness.
       case py_pubkey_digest of
         PyBytes publisher_key_id \<Rightarrow>
           if py_timestamp \<noteq> PyNone then Raise NotImplementedError
           else bnd (final_block_arg D py_final_block) (\<lambda>finalblockid.
                bnd (key_locator_arg D py_key_locator) (\<lambda>key_locator.
                bnd (NDNObject_New_charbuf D SIGNED_INFO) (\<lambda>c.
                  let (r, si) = d_signed_info_create D [] publisher_key_id ty freshness finalblockid key_locator in
                  if r < 0 then Raise NDNError else Ret (fill c si))))
       | _ \<Rightarrow> Raise TypeError))"

subsection \<open>Reading ndn\_data in Python\<close>

text \<open>
  \<^verbatim>\<open>KeyLocator.__getattribute__\<close> and \<^verbatim>\<open>SignedInfo.__getattribute__\<close>: the buffer is
  made on demand. A freshness that Python takes for false, none or zero, is handed over as -1.
\<close>

definition keylocator_ndn_data :: "'e datalib_scheme \<Rightarrow> pyval \<Rightarrow> pyval outcome" where
  "keylocator_ndn_data D obj =
     bnd (py_getattr obj ''ndn_data'') (\<lambda>d.
       if d \<noteq> PyNone then Ret d
       else bnd (py_getattr obj ''keyName'') (\<lambda>n.
            bnd (name_ndn_data D n) (\<lambda>name. cmd_KeyLocator_to_ndn D name PyNone PyNone PyNone)))"

definition or_minus_one :: "pyval \<Rightarrow> pyval" where
  "or_minus_one v = (if v = PyNone \<or> v = PyInt 0 then PyInt (- 1) else v)"

definition signed_info_ndn_data :: "'e datalib_scheme \<Rightarrow> pyval \<Rightarrow> pyval outcome" where
  "signed_info_ndn_data D obj =
     bnd (py_getattr obj ''ndn_data'') (\<lambda>d.
       if d \<noteq> PyNone then Ret d
       else bnd (py_getattr obj ''keyLocator'') (\<lambda>kl.
            bnd (if kl = PyNone then Ret PyNone else keylocator_ndn_data D kl) (\<lambda>key_locator.
            bnd (py_getattr obj ''publisherPublicKeyDigest'') (\<lambda>dgst.
            bnd (py_getattr obj ''type'') (\<lambda>ty.
            bnd (py_getattr obj ''timeStamp'') (\<lambda>ts.
            bnd (py_getattr obj ''freshnessSeconds'') (\<lambda>fr.
            bnd (py_getattr obj ''finalBlockID'') (\<lambda>fb.
              cmd_SignedInfo_to_ndn D dgst ty ts (or_minus_one fr) fb key_locator))))))))"

subsection \<open>The wire form of signed information\<close>

text \<open>
  The fields of a \<^verbatim>\<open>SignedInfo\<close>; a key locator is a name. The library takes the time
  itself, so the field is what decoding finds.
\<close>

record signed_info_fields =
  s_digest :: bytes
  s_time :: "bytes option"
  s_type :: int
  s_fresh :: "int option"
  s_final :: "bytes option"
  s_locator :: "bytes list option"

definition signed_info_obj :: "signed_info_fields \<Rightarrow> pyval" where
  "signed_info_obj f =
     PyInst ''SignedInfo''
       [(''type'', PyInt (s_type f)),
        (''publisherPublicKeyDigest'', PyBytes (s_digest f)),
        (''timeStamp'', opt_bytes (s_time f)),
        (''freshnessSeconds'', case s_fresh f of None \<Rightarrow> PyNone | Some n \<Rightarrow> PyInt n),
        (''finalBlockID'', opt_bytes (s_final f)),
        (''keyLocator'', case s_locator f of None \<Rightarrow> PyNone | Some cs \<Rightarrow> keylocator_obj (name_obj cs) PyNone),
        (''ndn_data'', PyNone)]"

definition type_code :: "int \<Rightarrow> bytes" where
  "type_code ty = [word_of_int (ty div 65536), word_of_int (ty div 256), word_of_int ty]"

definition type_wire :: "'e codec_scheme \<Rightarrow> int \<Rightarrow> bytes" where
  "type_wire L ty =
     (if ty = NDN_CONTENT_DATA then [] else tagged_blob_wire (l_dtag L NDN_DTAG_Type) (type_code ty))"

definition fresh_wire :: "'e codec_scheme \<Rightarrow> int \<Rightarrow> bytes" where
  "fresh_wire L fr =
     (if fr < 0 then [] else ndnb_dtag (l_dtag L NDN_DTAG_FreshnessSeconds) (number_wire L fr))"

definition locator_part :: "'e codec_scheme \<Rightarrow> bytes list option \<Rightarrow> bytes" where
  "locator_part L cs =
     (case cs of None \<Rightarrow> [] | Some cs \<Rightarrow> locator_wire L NDN_DTAG_KeyName (name_wire cs))"

definition signed_info_wire ::
    "'e codec_scheme \<Rightarrow> bytes \<Rightarrow> bytes \<Rightarrow> int \<Rightarrow> int \<Rightarrow> bytes option \<Rightarrow> bytes option \<Rightarrow> bytes" where
  "signed_info_wire L dig ts ty fr fb kl =
     ndnb_dtag (l_dtag L NDN_DTAG_SignedInfo)
       (tagged_blob_wire (l_dtag L NDN_DTAG_PublisherPublicKeyDigest) dig
        @ tagged_blob_wire (l_dtag L NDN_DTAG_Timestamp) ts
        @ type_wire L ty @ fresh_wire L fr
        @ (case fb of None \<Rightarrow> [] | Some b \<Rightarrow> ndnb_dtag (l_dtag L NDN_DTAG_FinalBlockID) b)
        @ (case kl of None \<Rightarrow> [] | Some b \<Rightarrow> b))"

text \<open>
  What the library promises of \<^verbatim>\<open>ndn_signed_info_create\<close>: the elements in this order, the
  default type and a negative freshness left out, the time its own.
\<close>

definition creates_signed_info :: "'e datalib_scheme \<Rightarrow> bytes \<Rightarrow> bool" where
  "creates_signed_info D ts \<longleftrightarrow>
     ts \<noteq> [] \<and>
     (\<forall>dig ty fr fb kl. length dig = 32 \<longrightarrow>
        d_signed_info_create D [] dig ty fr fb kl = (0, signed_info_wire D dig ts ty fr fb kl))"

definition signed_info_ok :: "signed_info_fields \<Rightarrow> bool" where
  "signed_info_ok f \<longleftrightarrow>
     length (s_digest f) = 32 \<and> 0 \<le> s_type f \<and> s_type f < 2 ^ 24
     \<and> (case s_fresh f of None \<Rightarrow> True | Some n \<Rightarrow> 0 \<le> n \<and> n < 2 ^ 31)
     \<and> s_final f \<noteq> Some []
     \<and> (case s_locator f of None \<Rightarrow> True | Some cs \<Rightarrow> \<forall>c \<in> set cs. length (component_wire c) < 2 ^ 31)"

definition signed_info_tags :: "'e codec_scheme \<Rightarrow> bool" where
  "signed_info_tags L \<longleftrightarrow>
     distinct (map (l_dtag L) [NDN_DTAG_Type, NDN_DTAG_FreshnessSeconds, NDN_DTAG_FinalBlockID, NDN_DTAG_KeyLocator])"

lemma big_endian_type: "0 \<le> ty \<Longrightarrow> ty < 2 ^ 24 \<Longrightarrow> big_endian (type_code ty) = ty"
proof -
  assume ty: "0 \<le> ty" "ty < 2 ^ 24"
  have u: "uint (word_of_int x :: byte) = x mod 256" for x
    by (simp add: unsigned_of_int take_bit_eq_mod)
  have "ty div 65536 mod 256 = ty div 65536"
    using ty by (intro mod_pos_pos_trivial) auto
  moreover have "ty div 256 = ty div 65536 * 256 + ty div 256 mod 256"
    using div_mult_mod_eq [of "ty div 256" 256] by (simp add: div_mult2_eq [symmetric] zdiv_zmult2_eq [symmetric])
  moreover have "ty = ty div 256 * 256 + ty mod 256"
    by simp
  ultimately show ?thesis
    by (simp add: big_endian_def type_code_def u)
qed

subsection \<open>Encoding\<close>

lemma name_data_of_obj:
  assumes "name_library L" "allocs_ok L"
  shows "name_ndn_data L (name_obj cs) = Ret (box NAME (name_wire cs))"
  using name_library.comps_to_ndn [OF assms, of "map PyBytes cs"]
    traverse_Ret [of "map PyBytes cs" "item_component L" "\<lambda>v. case v of PyBytes b \<Rightarrow> b | _ \<Rightarrow> []"]
  by (auto simp: name_obj_def item_component_def comp_def)

lemma keylocator_data_of_obj:
  assumes "name_library D" "buffer_writer D" "allocs_ok D"
  shows "keylocator_ndn_data D (keylocator_obj (name_obj cs) PyNone)
    = Ret (box KEY_LOCATOR (locator_wire D NDN_DTAG_KeyName (name_wire cs)))"
  using name_data_of_obj [OF assms(1,3)] locator_encodes_name [OF assms(2,3)]
  by (simp add: keylocator_ndn_data_def keylocator_obj_def)

lemma final_block_field:
  assumes "buffer_writer D" "allocs_ok D"
  shows "final_block_arg D (opt_bytes v) = Ret (map_option ndnb_blob v)"
  using assms(2)
  by (cases v) (simp_all add: final_block_arg_def jump_if_null_mem_def buffer_writer.append_tt [OF assms(1)]
      buffer_writer.append [OF assms(1)] ndnb_blob_def)

definition fresh_arg :: "int option \<Rightarrow> int" where
  "fresh_arg v = (case v of None \<Rightarrow> - 1 | Some n \<Rightarrow> if n = 0 then - 1 else n)"

lemma signed_info_encodes:
  assumes "name_library D" "buffer_writer D" "allocs_ok D" "creates_signed_info D ts"
    and "signed_info_ok f" "s_time f = None"
  shows "signed_info_ndn_data D (signed_info_obj f)
    = Ret (box SIGNED_INFO (signed_info_wire D (s_digest f) ts (s_type f) (fresh_arg (s_fresh f))
        (map_option ndnb_blob (s_final f))
        (map_option (\<lambda>cs. locator_wire D NDN_DTAG_KeyName (name_wire cs)) (s_locator f))))"
proof -
  have attrs: "py_getattr (signed_info_obj f) ''ndn_data'' = Ret PyNone"
    "py_getattr (signed_info_obj f) ''keyLocator''
      = Ret (case s_locator f of None \<Rightarrow> PyNone | Some cs \<Rightarrow> keylocator_obj (name_obj cs) PyNone)"
    "py_getattr (signed_info_obj f) ''publisherPublicKeyDigest'' = Ret (PyBytes (s_digest f))"
    "py_getattr (signed_info_obj f) ''type'' = Ret (PyInt (s_type f))"
    "py_getattr (signed_info_obj f) ''timeStamp'' = Ret PyNone"
    "py_getattr (signed_info_obj f) ''freshnessSeconds'' = Ret (case s_fresh f of None \<Rightarrow> PyNone | Some n \<Rightarrow> PyInt n)"
    "py_getattr (signed_info_obj f) ''finalBlockID'' = Ret (opt_bytes (s_final f))"
    using assms(6) by (simp_all add: signed_info_obj_def)
  define kl where "kl = (case s_locator f of None \<Rightarrow> PyNone | Some cs \<Rightarrow> keylocator_obj (name_obj cs) PyNone)"
  obtain klv where klv: "(if kl = PyNone then Ret PyNone else keylocator_ndn_data D kl) = Ret klv"
    "key_locator_arg D klv = Ret (map_option (\<lambda>cs. locator_wire D NDN_DTAG_KeyName (name_wire cs)) (s_locator f))"
  proof (cases "s_locator f")
    case None
    then show thesis
      using that [of PyNone] by (simp add: kl_def key_locator_arg_def)
  next
    case (Some cs)
    have "keylocator_obj (name_obj cs) PyNone \<noteq> PyNone" "box KEY_LOCATOR w \<noteq> PyNone" for w
      by (simp_all add: keylocator_obj_def box_def)
    then show thesis
      using that Some keylocator_data_of_obj [OF assms(1-3), of cs] by (simp add: kl_def key_locator_arg_def)
  qed
  have ty: "arg_int (PyInt (s_type f)) = Ret (s_type f)"
    using assms(5) by (simp add: signed_info_ok_def arg_int_def long_range_def)
  have fr: "arg_int (or_minus_one (case s_fresh f of None \<Rightarrow> PyNone | Some n \<Rightarrow> PyInt n)) = Ret (fresh_arg (s_fresh f))"
    using assms(5)
    by (cases "s_fresh f") (auto simp: signed_info_ok_def arg_int_def long_range_def or_minus_one_def fresh_arg_def)
  have "cmd_SignedInfo_to_ndn D (PyBytes (s_digest f)) (PyInt (s_type f)) PyNone
      (or_minus_one (case s_fresh f of None \<Rightarrow> PyNone | Some n \<Rightarrow> PyInt n)) (opt_bytes (s_final f)) klv
    = Ret (box SIGNED_INFO (signed_info_wire D (s_digest f) ts (s_type f) (fresh_arg (s_fresh f))
        (map_option ndnb_blob (s_final f))
        (map_option (\<lambda>cs. locator_wire D NDN_DTAG_KeyName (name_wire cs)) (s_locator f))))"
    using ty fr klv(2) final_block_field [OF assms(2,3)] assms(3-5)
      New_charbuf_ok [of SIGNED_INFO D Ret, unfolded charbuf_types_def, simplified]
    by (simp add: cmd_SignedInfo_to_ndn_def creates_signed_info_def signed_info_ok_def)
  then show ?thesis
    using attrs klv(1) by (simp add: signed_info_ndn_data_def flip: kl_def)
qed

subsection \<open>Decoding\<close>

definition si_obj :: "pyval \<Rightarrow> pyval \<Rightarrow> pyval \<Rightarrow> pyval \<Rightarrow> pyval \<Rightarrow> pyval \<Rightarrow> pyval \<Rightarrow> pyval" where
  "si_obj ty dg ts fr fb kl data =
     PyInst ''SignedInfo''
       [(''type'', ty), (''publisherPublicKeyDigest'', dg), (''timeStamp'', ts), (''freshnessSeconds'', fr),
        (''finalBlockID'', fb), (''keyLocator'', kl), (''ndn_data'', data)]"

lemma si_obj_set:
  "py_setattr new_SignedInfo ''ndn_data'' v
     = Ret (si_obj (PyInt 0x0c04c0) PyNone PyNone PyNone PyNone PyNone v)"
  "py_setattr (si_obj ty dg ts fr fb kl data) ''type'' v = Ret (si_obj v dg ts fr fb kl PyNone)"
  "py_setattr (si_obj ty dg ts fr fb kl data) ''publisherPublicKeyDigest'' v = Ret (si_obj ty v ts fr fb kl PyNone)"
  "py_setattr (si_obj ty dg ts fr fb kl data) ''timeStamp'' v = Ret (si_obj ty dg v fr fb kl PyNone)"
  "py_setattr (si_obj ty dg ts fr fb kl data) ''freshnessSeconds'' v = Ret (si_obj ty dg ts v fb kl PyNone)"
  "py_setattr (si_obj ty dg ts fr fb kl data) ''finalBlockID'' v = Ret (si_obj ty dg ts fr v kl PyNone)"
  "py_setattr (si_obj ty dg ts fr fb kl data) ''keyLocator'' v = Ret (si_obj ty dg ts fr fb v PyNone)"
  by (simp_all add: si_obj_def new_SignedInfo_def nones_def caches_wire_def)

lemma type_step:
  assumes "element_decoder D at_rest" "at_rest buf d (type_wire D ty @ rest)"
    and "\<not> next_is (l_dtag D NDN_DTAG_Type) rest" "0 \<le> ty" "ty < 2 ^ 24"
  shows "\<exists>d'. read_type D d obj = bnd (py_setattr obj ''type'' (PyInt ty)) (\<lambda>obj. Ret (d', obj)) \<and> at_rest buf d' rest"
proof (cases "ty = NDN_CONTENT_DATA")
  case True
  then have at: "at_rest buf d rest"
    using assms(2) by (simp add: type_wire_def)
  then show ?thesis
    using element_decoder.number_miss [OF assms(1) at assms(3)] element_decoder.position [OF assms(1) at] True
    by (auto simp: read_type_def)
next
  case False
  let ?n = "l_optional_binary_number D d (l_dtag D NDN_DTAG_Type) 3 3 NDN_CONTENT_DATA"
  have n: "fst ?n = ty" and at: "at_rest buf (snd ?n) rest"
    using element_decoder.number_hit [OF assms(1), of buf d "l_dtag D NDN_DTAG_Type" "type_code ty" rest 3 3]
      assms(2) False big_endian_type [OF assms(4,5)]
    by (auto simp: type_wire_def in_bounds_def type_code_def [THEN arg_cong [where f = length]])
  have "0 \<le> dec_state d" "0 \<le> dec_state (snd ?n)"
    using element_decoder.position [OF assms(1) assms(2)] element_decoder.position [OF assms(1) at] by auto
  then show ?thesis
    using n at by (intro exI [of _ "snd ?n"]) (simp add: read_type_def case_prod_beta Let_def)
qed

lemma freshness_step:
  assumes "element_decoder D at_rest" "at_rest buf d (fresh_wire D fr @ rest)"
    and "\<not> next_is (l_dtag D NDN_DTAG_FreshnessSeconds) rest" "fr < 2 ^ 31"
  shows "\<exists>d'. read_freshness D d obj
      = (if fr < 0 then Ret (d', obj) else bnd (py_setattr obj ''freshnessSeconds'' (PyInt fr)) (\<lambda>obj. Ret (d', obj)))
    \<and> at_rest buf d' rest"
proof (cases "fr < 0")
  case True
  then have at: "at_rest buf d rest"
    using assms(2) by (simp add: fresh_wire_def)
  then show ?thesis
    using element_decoder.nonneg_miss [OF assms(1) at assms(3)] True by (auto simp: read_freshness_def)
next
  case False
  let ?n = "l_optional_nonneg D d (l_dtag D NDN_DTAG_FreshnessSeconds)"
  have n: "fst ?n = fr" and at: "at_rest buf (snd ?n) rest"
    using element_decoder.nonneg_hit [OF assms(1), of buf d "l_dtag D NDN_DTAG_FreshnessSeconds" fr rest]
      assms(2,4) False by (auto simp: fresh_wire_def)
  then show ?thesis
    using False by (intro exI [of _ "snd ?n"]) (simp add: read_freshness_def case_prod_beta Let_def)
qed

lemma wf_name_wire: "wf_item udata (name_wire cs)"
proof -
  have "wf_item udata (component_wire c)" for c
    using wf_item.tagged [of udata "[ndnb_blob c]"] wf_item.blob by (simp add: component_wire_def)
  then have "list_all (wf_item udata) (map component_wire cs)"
    by (simp add: list_all_iff)
  then show ?thesis
    unfolding name_wire_def by (rule wf_item.tagged)
qed

lemma key_locator_step:
  assumes "name_library D" "buffer_writer D" "element_decoder D at_rest" "allocs_ok D"
    and "at_rest buf d (locator_part D v @ rest)" "v = None \<Longrightarrow> \<not> next_is (l_dtag D NDN_DTAG_KeyLocator) rest"
    and "case v of None \<Rightarrow> True | Some cs \<Rightarrow> \<forall>c \<in> set cs. length (component_wire c) < 2 ^ 31"
  shows "\<exists>d'. read_key_locator D d obj
      = (case v of None \<Rightarrow> Ret (d', obj)
         | Some cs \<Rightarrow> bnd (py_setattr obj ''keyLocator'' (keylocator_obj (name_obj cs) PyNone)) (\<lambda>obj. Ret (d', obj)))
    \<and> at_rest buf d' rest"
proof (cases v)
  case None
  then show ?thesis
    using assms(5,6) element_decoder.match [OF assms(3), of buf d rest "l_dtag D NDN_DTAG_KeyLocator"]
    by (auto simp: locator_part_def read_key_locator_def)
next
  case (Some cs)
  let ?w = "locator_wire D NDN_DTAG_KeyName (name_wire cs)"
  let ?n = "l_advance_past_element D d"
  have w: "?w = ndnb_dtag (l_dtag D NDN_DTAG_KeyLocator) (concat [ndnb_dtag (l_dtag D NDN_DTAG_KeyName) (name_wire cs)])"
    by (simp add: locator_wire_def)
  have at: "at_rest buf d (?w @ rest)"
    using assms(5) Some by (simp add: locator_part_def)
  have "list_all (wf_item (l_udata D)) [ndnb_dtag (l_dtag D NDN_DTAG_KeyName) (name_wire cs)]"
    using wf_item.tagged [of _ "[name_wire cs]"] wf_name_wire by simp
  then have n: "0 \<le> fst ?n" and at': "at_rest buf (snd ?n) rest"
    using element_decoder.past_element [OF assms(3) at [unfolded w]] by auto
  have m: "l_match_dtag D d (l_dtag D NDN_DTAG_KeyLocator)"
    using element_decoder.match [OF assms(3) at] by (simp add: w)
  have "element_at buf (dec_token_index d) (dec_token_index (snd ?n)) ?w" "dec_buf (snd ?n) = buf"
    using element_decoder.element_between [OF assms(3) at at'] element_decoder.position [OF assms(3) at'] by auto
  moreover have "?w \<noteq> []"
    by (simp add: locator_wire_def ndnb_dtag_def)
  ultimately have read: "mem_read (dec_buf (snd ?n)) (dec_token_index d) (dec_token_index (snd ?n) - dec_token_index d) = Ret ?w"
    "dec_token_index d < dec_token_index (snd ?n)"
    by (auto simp: element_at_def mem_read_def le_less)
  have kl: "KeyLocator_obj_from_ndn D (box KEY_LOCATOR ?w) = Ret (keylocator_obj (name_obj cs) PyNone)"
    using keylocator_from_name_wire [OF assms(1-4)] assms(7) Some by simp
  show ?thesis
    using m n read kl at' Some assms(4) buffer_writer.append [OF assms(2)]
      New_charbuf_ok [of KEY_LOCATOR D "\<lambda>v. bnd (KeyLocator_obj_from_ndn D v) (\<lambda>py_o.
          bnd (py_setattr obj ''keyLocator'' py_o) (\<lambda>obj. Ret (snd ?n, obj)))" ?w]
    by (intro exI [of _ "snd ?n"]) (simp add: read_key_locator_def case_prod_beta Let_def charbuf_types_def)
qed

text \<open>What decoding the encoded fields finds: the library's time, and no freshness of zero.\<close>

definition recovered :: "bytes \<Rightarrow> signed_info_fields \<Rightarrow> signed_info_fields" where
  "recovered ts f =
     f\<lparr>s_time := Some ts, s_fresh := (if s_fresh f = Some 0 then None else s_fresh f)\<rparr>"

definition locator_value :: "bytes list option \<Rightarrow> pyval" where
  "locator_value v = (case v of None \<Rightarrow> PyNone | Some cs \<Rightarrow> keylocator_obj (name_obj cs) PyNone)"

lemma next_is_locator [simp]:
  "next_is tag (locator_part D v @ rest)
     \<longleftrightarrow> (if v = None then next_is tag rest else tag = l_dtag D NDN_DTAG_KeyLocator)"
  by (cases v) (auto simp: locator_part_def locator_wire_def)

lemma read_final_and_locator:
  assumes "name_library D" "buffer_writer D" "element_decoder D at_rest" "allocs_ok D" "signed_info_tags D"
    and "signed_info_ok f"
    and "at_rest w d (opt_blob_wire (l_dtag D NDN_DTAG_FinalBlockID) (s_final f) @ locator_part D (s_locator f) @ [0])"
  shows "bnd (optional_bytes D NDN_DTAG_FinalBlockID ''finalBlockID'' d (si_obj ty dg ts fr PyNone PyNone PyNone))
      (\<lambda>(d, obj). bnd (read_key_locator D d obj) (\<lambda>(d, obj).
         if dec_state (l_check_close D d) < 0 then Raise NDNSignedInfoError else Ret obj))
    = Ret (si_obj ty dg ts fr (opt_bytes (s_final f)) (locator_value (s_locator f)) PyNone)"
proof -
  let ?o = "si_obj ty dg ts fr PyNone PyNone PyNone"
    and ?o5 = "si_obj ty dg ts fr (opt_bytes (s_final f)) PyNone PyNone"
  note tags = assms(5) [unfolded signed_info_tags_def, simplified]
  have set: "case s_final f of None \<Rightarrow> ?o5 = ?o
      | Some x \<Rightarrow> py_setattr ?o ''finalBlockID'' (PyBytes x) = Ret ?o5"
    by (simp add: si_obj_set split: option.split)
  have fb: "s_final f \<noteq> Some []"
    and kl: "case s_locator f of None \<Rightarrow> True | Some cs \<Rightarrow> \<forall>c \<in> set cs. length (component_wire c) < 2 ^ 31"
    using assms(6) by (simp_all add: signed_info_ok_def)
  have n: "s_final f = None \<Longrightarrow> \<not> next_is (l_dtag D NDN_DTAG_FinalBlockID) (locator_part D (s_locator f) @ [0])"
    using tags by auto
  obtain d5 where d5: "optional_bytes D NDN_DTAG_FinalBlockID ''finalBlockID'' d ?o = Ret (d5, ?o5)"
    "at_rest w d5 (locator_part D (s_locator f) @ [0])"
    using element_decoder.optional_field [OF assms(3,7) fb n set] by blast
  obtain d6 where "read_key_locator D d5 ?o5
      = Ret (d6, si_obj ty dg ts fr (opt_bytes (s_final f)) (locator_value (s_locator f)) PyNone)" "at_rest w d6 [0]"
    using key_locator_step [OF assms(1-4) d5(2) _ kl, where obj = ?o5] by (cases "s_locator f") (auto simp: si_obj_set locator_value_def)
  then show ?thesis
    using d5(1) element_decoder.check_close [OF assms(3), of w d6 "[]"] by simp
qed

lemma read_optional_wire:
  assumes "name_library D" "buffer_writer D" "element_decoder D at_rest" "allocs_ok D" "signed_info_tags D"
    and "signed_info_ok f"
    and "at_rest w d (type_wire D (s_type f) @ fresh_wire D (fresh_arg (s_fresh f))
        @ opt_blob_wire (l_dtag D NDN_DTAG_FinalBlockID) (s_final f) @ locator_part D (s_locator f) @ [0])"
  shows "read_optional_part D d (si_obj ty (PyBytes (s_digest f)) (PyBytes ts) PyNone PyNone PyNone PyNone)
    = Ret (signed_info_obj (recovered ts f))"
proof -
  let ?ty = "PyInt (s_type f)" and ?dg = "PyBytes (s_digest f)" and ?ts = "PyBytes ts"
  let ?r4 = "opt_blob_wire (l_dtag D NDN_DTAG_FinalBlockID) (s_final f) @ locator_part D (s_locator f) @ [0]"
  let ?r3 = "fresh_wire D (fresh_arg (s_fresh f)) @ ?r4"
  define fr where "fr = (if fresh_arg (s_fresh f) < 0 then PyNone else PyInt (fresh_arg (s_fresh f)))"
  note ok = assms(6) [unfolded signed_info_ok_def] and tags = assms(5) [unfolded signed_info_tags_def, simplified]
  have n3: "\<not> next_is (l_dtag D NDN_DTAG_FreshnessSeconds) ?r4" and n4: "\<not> next_is (l_dtag D NDN_DTAG_Type) ?r4"
    using tags by auto
  have n2: "\<not> next_is (l_dtag D NDN_DTAG_Type) ?r3"
    using n4 tags by (auto simp: fresh_wire_def)
  obtain d3 where d3: "read_type D d (si_obj ty ?dg ?ts PyNone PyNone PyNone PyNone)
      = Ret (d3, si_obj ?ty ?dg ?ts PyNone PyNone PyNone PyNone)" "at_rest w d3 ?r3"
    using type_step [OF assms(3,7) n2, where obj = "si_obj ty ?dg ?ts PyNone PyNone PyNone PyNone"] ok by (auto simp: si_obj_set)
  have "fresh_arg (s_fresh f) < 2 ^ 31"
    using ok by (cases "s_fresh f") (simp_all add: fresh_arg_def)
  then obtain d4 where d4: "read_freshness D d3 (si_obj ?ty ?dg ?ts PyNone PyNone PyNone PyNone)
      = Ret (d4, si_obj ?ty ?dg ?ts fr PyNone PyNone PyNone)" "at_rest w d4 ?r4"
    using freshness_step [OF assms(3) d3(2) n3, where obj = "si_obj ?ty ?dg ?ts PyNone PyNone PyNone PyNone"] by (auto simp: si_obj_set fr_def)
  have "si_obj ?ty ?dg ?ts fr (opt_bytes (s_final f)) (locator_value (s_locator f)) PyNone
      = signed_info_obj (recovered ts f)"
    using ok by (cases "s_fresh f")
      (auto simp: si_obj_def signed_info_obj_def recovered_def fr_def locator_value_def fresh_arg_def)
  then show ?thesis
    using d3(1) d4(1) read_final_and_locator [OF assms(1-6) d4(2), of ?ty ?dg ?ts fr]
    by (simp add: read_optional_part_def)
qed

lemma read_signed_info_wire:
  assumes "name_library D" "buffer_writer D" "element_decoder D at_rest" "allocs_ok D" "signed_info_tags D"
    and "signed_info_ok f" "ts \<noteq> []"
    and "w = signed_info_wire D (s_digest f) ts (s_type f) (fresh_arg (s_fresh f))
        (map_option ndnb_blob (s_final f))
        (map_option (\<lambda>cs. locator_wire D NDN_DTAG_KeyName (name_wire cs)) (s_locator f))"
  shows "read_signed_info D (l_decoder_start D w)
      (si_obj ty PyNone PyNone PyNone PyNone PyNone data) = Ret (signed_info_obj (recovered ts f))"
proof -
  let ?r2 = "type_wire D (s_type f) @ fresh_wire D (fresh_arg (s_fresh f))
      @ opt_blob_wire (l_dtag D NDN_DTAG_FinalBlockID) (s_final f) @ locator_part D (s_locator f) @ [0]"
  let ?ts = "tagged_blob_wire (l_dtag D NDN_DTAG_Timestamp) ts"
  let ?dg = "tagged_blob_wire (l_dtag D NDN_DTAG_PublisherPublicKeyDigest) (s_digest f)"
  have w: "w = ndnb_encode (l_dtag D NDN_DTAG_SignedInfo) NDN_DTAG @ ?dg @ ?ts @ ?r2"
    by (cases "s_final f"; cases "s_locator f")
      (simp_all add: assms(8) signed_info_wire_def ndnb_dtag_def opt_blob_wire_def tagged_blob_wire_def locator_part_def)
  have start: "at_rest w (l_decoder_start D w) (ndnb_encode (l_dtag D NDN_DTAG_SignedInfo) NDN_DTAG @ ?dg @ ?ts @ ?r2)"
    using element_decoder.start [OF assms(3), of w] by (simp flip: w)
  have match: "l_match_dtag D (l_decoder_start D w) (l_dtag D NDN_DTAG_SignedInfo)"
    using element_decoder.match [OF assms(3) start] by simp
  note at = element_decoder.advance [OF assms(3) start]
  have b1: "in_bounds 16 64 (s_digest f)" and b2: "in_bounds 1 (- 1) ts"
    using assms(6,7) by (simp_all add: signed_info_ok_def in_bounds_def Suc_le_eq)
  obtain d1 where d1: "required_bytes D NDNSignedInfoError NDN_DTAG_PublisherPublicKeyDigest 16 64
      ''publisherPublicKeyDigest'' (l_advance D (l_decoder_start D w)) (si_obj ty PyNone PyNone PyNone PyNone PyNone data)
        = Ret (d1, si_obj ty (PyBytes (s_digest f)) PyNone PyNone PyNone PyNone PyNone)" "at_rest w d1 (?ts @ ?r2)"
    using element_decoder.required_present [OF assms(3) at b1 si_obj_set(3)] by blast
  obtain d2 where d2: "required_bytes D NDNSignedInfoError NDN_DTAG_Timestamp 1 (- 1) ''timeStamp'' d1
      (si_obj ty (PyBytes (s_digest f)) PyNone PyNone PyNone PyNone PyNone)
        = Ret (d2, si_obj ty (PyBytes (s_digest f)) (PyBytes ts) PyNone PyNone PyNone PyNone)" "at_rest w d2 ?r2"
    using element_decoder.required_present [OF assms(3) d1(2) b2 si_obj_set(4)] by blast
  show ?thesis
    using match d1(1) d2(1) read_optional_wire [OF assms(1-6) d2(2)] by (simp add: read_signed_info_def)
qed

lemma signed_info_decodes:
  assumes "name_library D" "buffer_writer D" "element_decoder D at_rest" "allocs_ok D" "signed_info_tags D"
    and "signed_info_ok f" "ts \<noteq> []"
  shows "SignedInfo_obj_from_ndn D (box SIGNED_INFO
      (signed_info_wire D (s_digest f) ts (s_type f) (fresh_arg (s_fresh f))
        (map_option ndnb_blob (s_final f))
        (map_option (\<lambda>cs. locator_wire D NDN_DTAG_KeyName (name_wire cs)) (s_locator f))))
    = Ret (signed_info_obj (recovered ts f))"
  using read_signed_info_wire [OF assms refl] by (simp add: SignedInfo_obj_from_ndn_def si_obj_set)

subsection \<open>Properties\<close>

text \<open>
  C22. Reading \<^verbatim>\<open>ndn_data\<close> of a \<^verbatim>\<open>SignedInfo\<close> and decoding the buffer gives its fields back,
  with the library's time, but a freshness of zero is lost. The decoded object has no wire form
  and cannot get one again: its time is an argument the encoder does not implement.
\<close>

theorem signed_info_roundtrip:
  assumes "name_library D" "buffer_writer D" "element_decoder D at_rest" "allocs_ok D" "signed_info_tags D"
    and "creates_signed_info D ts" "signed_info_ok f" "s_time f = None"
  shows "bnd (signed_info_ndn_data D (signed_info_obj f)) (cmd_SignedInfo_obj_from_ndn D)
      = Ret (signed_info_obj (recovered ts f))
    \<and> signed_info_ndn_data D (signed_info_obj (recovered ts f)) = Raise NotImplementedError"
proof
  have ts: "ts \<noteq> []"
    using assms(6) by (simp add: creates_signed_info_def)
  show "bnd (signed_info_ndn_data D (signed_info_obj f)) (cmd_SignedInfo_obj_from_ndn D)
      = Ret (signed_info_obj (recovered ts f))"
    using signed_info_encodes [OF assms(1,2,4,6-8)] signed_info_decodes [OF assms(1-5,7) ts]
    by (simp add: cmd_SignedInfo_obj_from_ndn_def)
  let ?g = "recovered ts f"
  have kl: "\<exists>v. (if locator_value (s_locator f) = PyNone then Ret PyNone else keylocator_ndn_data D (locator_value (s_locator f))) = Ret v"
    using keylocator_data_of_obj [OF assms(1,2,4)] by (cases "s_locator f") (auto simp: locator_value_def)
  have ty: "arg_int (PyInt (s_type f)) = Ret (s_type f)"
    using assms(7) by (simp add: signed_info_ok_def arg_int_def long_range_def)
  have fr: "\<exists>n. arg_int (or_minus_one (case s_fresh ?g of None \<Rightarrow> PyNone | Some n \<Rightarrow> PyInt n)) = Ret n"
    using assms(7)
    by (cases "s_fresh f") (auto simp: recovered_def signed_info_ok_def arg_int_def long_range_def or_minus_one_def)
  show "signed_info_ndn_data D (signed_info_obj ?g) = Raise NotImplementedError"
    using kl ty fr
    by (auto simp: signed_info_ndn_data_def signed_info_obj_def recovered_def cmd_SignedInfo_to_ndn_def
        locator_value_def [symmetric])
qed

definition demo_signed_info :: "bytes \<Rightarrow> bytes \<Rightarrow> int \<Rightarrow> int \<Rightarrow> bytes option \<Rightarrow> bytes option \<Rightarrow> int \<times> bytes" where
  "demo_signed_info b dig ty fr fb kl = (0, signed_info_wire demo_codec dig [9, 9] ty fr fb kl)"

definition demo_datalib :: datalib where
  "demo_datalib =
     keylib.extend demo_keylib
       (datalib.fields demo_signed_info (\<lambda>b p. (0, pco_offset p NDN_PCO_E_Name, 0))
         (\<lambda>name si content key. (0, si)) (\<lambda>b p. [of_nat (length b)]) (\<lambda>b p i q. (1, p)) (\<lambda>h b p. 0) (\<lambda>b p k. 1) (\<lambda>_. Raise TypeError))"

lemma demo_datalib_ndnb:
  "writes_ndnb demo_datalib" "names_ndnb demo_datalib" "decodes_ndnb demo_datalib" "allocs_ok demo_datalib"
  "signed_info_tags demo_datalib"
  by (simp_all add: demo_datalib_def keylib.defs datalib.defs demo_keylib_def codec.defs demo_codec_def
      ndnlib.defs ndnb_lib_def writes_ndnb_def names_ndnb_def decodes_ndnb_def allocs_ok_def signed_info_tags_def)

lemmas demo_datalib_laws =
  writes_ndnb_writer [OF demo_datalib_ndnb(1)] names_ndnb_library [OF demo_datalib_ndnb(2)]
  decodes_ndnb_decoder [OF demo_datalib_ndnb(3)] demo_datalib_ndnb(4)

lemma demo_creates: "creates_signed_info demo_datalib [9, 9]"
proof -
  have "l_dtag demo_datalib = l_dtag demo_codec" "l_udata demo_datalib = l_udata demo_codec"
    using demo_datalib_ndnb(1) demo_codec_ndnb(1) by (simp_all add: writes_ndnb_def)
  then have "signed_info_wire demo_datalib = signed_info_wire demo_codec"
    by (intro ext) (simp add: signed_info_wire_def type_wire_def fresh_wire_def number_wire_def split: option.split)
  then show ?thesis
    by (simp add: creates_signed_info_def demo_datalib_def keylib.defs datalib.defs demo_signed_info_def)
qed

definition sample_signed_info :: signed_info_fields where
  "sample_signed_info =
     \<lparr>s_digest = replicate 32 7, s_time = None, s_type = 0x28463F, s_fresh = Some 0, s_final = Some [1],
      s_locator = Some [[7]]\<rparr>"

theorem signed_info_roundtrip_witness:
  "bnd (signed_info_ndn_data demo_datalib (signed_info_obj sample_signed_info)) (cmd_SignedInfo_obj_from_ndn demo_datalib)
     = Ret (signed_info_obj (sample_signed_info\<lparr>s_time := Some [9, 9], s_fresh := None\<rparr>))"
  using signed_info_roundtrip [OF demo_datalib_laws(2,1,3,4) demo_datalib_ndnb(5) demo_creates, of sample_signed_info]
  by (simp add: sample_signed_info_def signed_info_ok_def recovered_def component_wire_eq ndnb_encode_def
      high_groups.simps NDN_BLOB_def)

end
