(* ===== verification/SigningM.thy ===== *)
theory SigningM
  imports SignedInfoM TypeTable
begin

section \<open>Signing parameters: csrc/methods.c\<close>

text \<open>
  \<^verbatim>\<open>obj_SigningParams_from_ndn\<close>, the reader of libndn's signing parameters. Nothing in the
  module calls it, and the model says why nothing could: neither the class nor the capsule type
  it works with has an entry in the tables of the module.
\<close>

text \<open>
  The class comes from \<^verbatim>\<open>_pyndn_get_type\<close>, once in an assertion and once to be called; \<open>new\<close> is
  what calling the class gives. A \<^verbatim>\<open>NULL\<close> class is called at the caller's peril.
\<close>

definition signing_class :: "'e env_scheme \<Rightarrow> 'c importer \<Rightarrow> 'c class_cache \<Rightarrow> 'c outcome" where
  "signing_class E imp cache =
     (case fst (get_type E imp SigningParams cache) of
        Ret t \<Rightarrow> Ret t
      | Raise e \<Rightarrow> c_assert E False Undef
      | r \<Rightarrow> r)"

definition get_signing_params :: "'e env_scheme \<Rightarrow> pyval \<Rightarrow> signing_params outcome" where
  "get_signing_params E v =
     bnd (NDNObject_Get E SIGNING_PARAMS v) (\<lambda>p.
       case p of Some (P_SigningParams s) \<Rightarrow> Ret s | _ \<Rightarrow> Undef)"

text \<open>The template: signed information in a capsule of its own, when there is any.\<close>

definition signing_template :: "'e datalib_scheme \<Rightarrow> signing_params \<Rightarrow> pyval outcome" where
  "signing_template D signing_params =
     (case sp_template_ndnb signing_params of
        None \<Rightarrow> Ret PyNone
      | Some template \<Rightarrow>
          if length template > 0
          then bnd (NDNObject_New_charbuf D SIGNED_INFO) (\<lambda>c.
               try_mem (l_append D [] template) (\<lambda>signed_object.
                 SignedInfo_obj_from_ndn D (fill c signed_object)))
          else Ret PyNone)"

text \<open>The status of setting the template is not looked at.\<close>

definition set_unchecked :: "pyval \<Rightarrow> string \<Rightarrow> pyval \<Rightarrow> pyval outcome" where
  "set_unchecked obj a v = (case py_setattr obj a v of Raise _ \<Rightarrow> Ret obj | r \<Rightarrow> r)"

definition obj_SigningParams_from_ndn ::
    "'e datalib_scheme \<Rightarrow> 'c importer \<Rightarrow> 'c class_cache \<Rightarrow> ('c \<Rightarrow> pyval outcome) \<Rightarrow> pyval \<Rightarrow> pyval outcome" where
  "obj_SigningParams_from_ndn D imp cache new py_signing_params =
     bnd (signing_class D imp cache) (\<lambda>cls.
     bnd (get_signing_params D py_signing_params) (\<lambda>signing_params.
     bnd (new cls) (\<lambda>obj.
     bnd (py_setattr obj ''ndn_data'' py_signing_params) (\<lambda>obj.
     bnd (py_setattr obj ''flags'' (PyInt (sp_flags signing_params))) (\<lambda>obj.
     bnd (py_setattr obj ''type'' (PyInt (sp_type signing_params))) (\<lambda>obj.
     bnd (py_setattr obj ''freshness'' (PyInt (sp_freshness signing_params))) (\<lambda>obj.
     bnd (py_setattr obj ''apiVersion'' (PyInt (sp_api_version signing_params))) (\<lambda>obj.
     bnd (signing_template D signing_params) (\<lambda>py_o.
     bnd (set_unchecked obj ''template'' py_o) (\<lambda>obj.
       py_setattr obj ''key'' (PyByteArray (sp_pubid signing_params))))))))))))"

subsection \<open>Properties\<close>

text \<open>The capsule of signing parameters as a build without assertions makes it.\<close>

definition params_box :: "signing_params \<Rightarrow> pyval" where
  "params_box s =
     PyCapsule \<lparr>cap_pointer = P_SigningParams s, cap_name = Some ''Namecrypto_state'',
                cap_context = NoContext, cap_owned = True\<rparr>"

lemma params_box_made:
  "ndebug E \<Longrightarrow> mem E A_capsule \<Longrightarrow>
   bnd (fst (NDNObject_New E SIGNING_PARAMS (P_SigningParams s))) (\<lambda>c. Ret (PyCapsule c)) = Ret (params_box s)"
  by (simp add: NDNObject_New_def type2name_unlisted_ndebug params_box_def)

lemma get_params_box: "ndebug E \<Longrightarrow> get_signing_params E (params_box s) = Ret s"
  by (simp add: get_signing_params_def NDNObject_Get_def NDNObject_IsValid_def type2name_unlisted_ndebug
      capsule_is_valid_def params_box_def)

text \<open>
  With assertions the reader stops, whatever it is given. Without them it gets the
  class in the next row of the table and returns an \<^verbatim>\<open>UpcallInfo\<close> with the parameters as additional
  attributes; and the destructor of the capsule, which has the name of another type, frees
  the parameters and leaks their template.
\<close>

theorem signing_params_unusable:
  "(\<not> ndebug D \<longrightarrow> obj_SigningParams_from_ndn D imp cache new v = Abort)
   \<and> (ndebug D \<and> allocs_ok D \<and> cache SigningParams = None
        \<and> import_class imp (Some (''ndn.Closure'', ''UpcallInfo'')) = Ret cls \<and> new cls = Ret new_UpcallInfo
        \<and> sp_template_ndnb s = None \<longrightarrow>
      (\<exists>obj. obj_SigningParams_from_ndn D imp cache new (params_box s) = Ret obj \<and> tp_name obj = ''UpcallInfo''
         \<and> attr obj ''flags'' = Some (PyInt (sp_flags s)) \<and> attr obj ''template'' = Some PyNone
         \<and> attr obj ''key'' = Some (PyByteArray (sp_pubid s))))
   \<and> (params_box s = PyCapsule c \<longrightarrow> capsule_destructor D c = Ret [R_free_params])"
proof (intro conjI impI)
  assume "\<not> ndebug D"
  then show "obj_SigningParams_from_ndn D imp cache new v = Abort"
    by (simp add: obj_SigningParams_from_ndn_def signing_class_def get_type_no_row)
next
  assume a: "ndebug D \<and> allocs_ok D \<and> cache SigningParams = None
    \<and> import_class imp (Some (''ndn.Closure'', ''UpcallInfo'')) = Ret cls \<and> new cls = Ret new_UpcallInfo
    \<and> sp_template_ndnb s = None"
  then have "signing_class D imp cache = Ret cls"
    by (simp add: signing_class_def get_type_def modules_def)
  then show "\<exists>obj. obj_SigningParams_from_ndn D imp cache new (params_box s) = Ret obj \<and> tp_name obj = ''UpcallInfo''
         \<and> attr obj ''flags'' = Some (PyInt (sp_flags s)) \<and> attr obj ''template'' = Some PyNone
         \<and> attr obj ''key'' = Some (PyByteArray (sp_pubid s))"
    using a by (simp add: obj_SigningParams_from_ndn_def get_params_box signing_template_def set_unchecked_def
        new_UpcallInfo_def nones_def caches_wire_def)
next
  assume "params_box s = PyCapsule c"
  then show "capsule_destructor D c = Ret [R_free_params]"
    by (auto simp: params_box_def capsule_destructor_def name2type_def g_types_to_names_def)
qed

lemma env_ndebug: "ndebug (E\<lparr>ndebug := True\<rparr>)" for E :: "'e env_scheme"
  by simp

lemma env_ndebug_allocs: "allocs_ok (E\<lparr>ndebug := b\<rparr>) \<longleftrightarrow> allocs_ok E" for E :: "'e env_scheme"
  unfolding allocs_ok_def by simp

theorem signing_params_unusable_witness:
  "\<exists>obj. obj_SigningParams_from_ndn (demo_datalib\<lparr>ndebug := True\<rparr>) some_importer (\<lambda>_. None) (\<lambda>_. Ret new_UpcallInfo)
      (params_box \<lparr>sp_flags = 3, sp_type = 0, sp_freshness = 9, sp_api_version = 1, sp_template_ndnb = None, sp_pubid = [7]\<rparr>)
    = Ret obj \<and> tp_name obj = ''UpcallInfo'' \<and> attr obj ''key'' = Some (PyByteArray [7])"
proof -
  let ?D = "demo_datalib\<lparr>ndebug := True\<rparr>"
  let ?s = "\<lparr>sp_flags = 3, sp_type = 0, sp_freshness = 9, sp_api_version = 1, sp_template_ndnb = None, sp_pubid = [7]\<rparr>"
  have D: "ndebug ?D" "allocs_ok ?D"
    using env_ndebug [of demo_datalib] env_ndebug_allocs [of True demo_datalib] demo_datalib_laws(4) by blast+
  have I: "import_class some_importer (Some (''ndn.Closure'', ''UpcallInfo'')) = Ret ''ndn.Closure.UpcallInfo''"
    by (simp add: import_class_def some_importer_def)
  have "sp_template_ndnb ?s = None" "sp_pubid ?s = [7]"
    by simp_all
  then show ?thesis
    using signing_params_unusable [of ?D some_importer "\<lambda>_. None" "\<lambda>_. Ret new_UpcallInfo" PyNone
        "''ndn.Closure.UpcallInfo''" ?s] D I
    by metis
qed

end
