(* ===== verification/ExclusionM.thy ===== *)
theory ExclusionM
  imports InterestM NameClass
begin

section \<open>Objects of an exclusion filter: csrc/methods\_interest.c\<close>

text \<open>
  The two functions that make the items of an exclusion filter from its wire form:
  \<^verbatim>\<open>Exclusion_Name_Obj\<close> a name of one component, \<^verbatim>\<open>Exclusion_Any_Obj\<close> the wildcard. Their
  caller, the decoder of exclusion filters, is commented out.
\<close>

definition NAME_TYPE_ANY :: int where "NAME_TYPE_ANY = 1"

definition Exclusion_Any_Obj :: "'e ndnlib_scheme \<Rightarrow> pyval outcome" where
  "Exclusion_Any_Obj L = call_Name_kwds L [(''name_type'', PyInt NAME_TYPE_ANY)]"

definition Exclusion_Name_Obj :: "'e ndnlib_scheme \<Rightarrow> bytes \<Rightarrow> nat \<Rightarrow> nat \<Rightarrow> pyval outcome" where
  "Exclusion_Name_Obj L buf start stop =
     bnd (NDNObject_New_charbuf L NAME) (\<lambda>c.
     try_mem (l_name_init L []) (\<lambda>name.
     try_mem (l_name_append_components L name buf start stop) (\<lambda>name.
       Name_obj_from_ndn L (fill c name))))"

text \<open>
  What the property needs of \<^verbatim>\<open>ndn_name_append_components\<close>: the components of a buffer between
  two offsets are appended as they are.
\<close>

locale component_names = name_library +
  assumes append_components:
    "element_at buf start stop (concat (map component_wire ds))
     \<Longrightarrow> l_name_append_components L (name_wire cs) buf start stop = (0, name_wire (cs @ ds))"
begin

lemma name_of_components:
  assumes "allocs_ok L" "element_at buf start stop (concat (map component_wire ds))"
    and "\<forall>c \<in> set ds. length (component_wire c) < 2 ^ 31"
  shows "Exclusion_Name_Obj L buf start stop = Ret (name_obj ds)"
  using New_charbuf_ok [of NAME L "Name_obj_from_ndn L" "name_wire ds"] assms(1) name_init [of "[]"]
    append_components [OF assms(2), of "[]"] name_from_box [OF _ assms(3)]
  by (simp add: Exclusion_Name_Obj_def charbuf_types_def)

end

interpretation ndnb_components: component_names ndnb_lib
  by unfold_locales
    (simp add: ndnb_lib_def element_at_def name_wire_eq butlast_append)

text \<open>
  The component at two offsets of a filter becomes the name of that component, which the
  encoder of exclusion filters would write back as the bytes it was read from; the wildcard
  cannot be made at all, since \<^verbatim>\<open>Name\<close> has no argument for it.
\<close>

theorem exclusion_objects:
  assumes "component_names L" "buffer_writer L" "allocs_ok L" "length (component_wire c) < 2 ^ 31"
    and "element_at buf start stop (component_wire c)"
  shows "Exclusion_Name_Obj L buf start stop = Ret (name_obj [c])
    \<and> bnd (name_ndn_data L (name_obj [c])) (\<lambda>d. bnd (get_charbuf L NAME d) (\<lambda>b. Ret (butlast (tl b))))
        = Ret (component_wire c)
    \<and> Exclusion_Any_Obj L = Raise TypeError"
proof -
  have lib: "name_library L"
    using assms(1) by (simp add: component_names_def)
  have "name_ndn_data L (name_obj [c]) = Ret (box NAME (name_wire [c]))"
    using name_library.ndn_data_of [OF lib assms(3), of "[PyBytes c]"]
    by (simp add: name_obj_of item_component_def)
  then show ?thesis
    using component_names.name_of_components [OF assms(1,3), of buf start stop "[c]"] assms(4,5)
    by (simp add: Exclusion_Any_Obj_def call_Name_kwds_def name_wire_eq butlast_append)
qed

theorem exclusion_objects_witness:
  "Exclusion_Name_Obj ndnb_lib (9 # component_wire [5] @ [0]) 1 5 = Ret (name_obj [[5]])"
  using exclusion_objects [OF ndnb_components.component_names_axioms ndnb_writer.buffer_writer_axioms, of "[5]"
      "9 # component_wire [5] @ [0]" 1 5]
  by (simp add: element_at_def component_wire_eq ndnb_encode_def high_groups.simps NDN_BLOB_def)

end
