(* ===== verification/KeyFilesM.thy ===== *)
theory KeyFilesM
  imports KeyM
begin

section \<open>Keys, files and the generator\<close>

text \<open>
  What holds of the commands of \<open>KeyM\<close> together with the system of \<open>SystemM\<close>: keys written as PEM
  are read back, from strings and from files; the files are closed; a key is generated only
  from a seeded generator. Also the functions at the end of \<^verbatim>\<open>key_utils.c\<close>.
\<close>

subsection \<open>The end of key\_utils.c\<close>

text \<open>
  \<^verbatim>\<open>release_key\<close> and \<^verbatim>\<open>release_keypair\<close>, as what they free: each argument is a pointer to a pointer
  (the outer \<open>None\<close> is \<^verbatim>\<open>NULL\<close>). \<^verbatim>\<open>struct keypair\<close> owns what \<^verbatim>\<open>release_keypair\<close> does not free.
\<close>

record keypair =
  kp_private_key :: "nat option"
  kp_public_key :: "nat option"
  kp_public_key_digest :: "bytes option"
  kp_public_key_digest_len :: nat

datatype key_release = EVP_PKEY_free nat | Free_digest | Free_keypair

definition release_key ::
    "nat option option \<Rightarrow> nat option option \<Rightarrow> bytes option option \<Rightarrow> int \<times> key_release list" where
  "release_key private_key_ndn public_key_ndn public_key_digest =
     (0, (case public_key_ndn of Some (Some k) \<Rightarrow> [EVP_PKEY_free k] | _ \<Rightarrow> []) @
         (case private_key_ndn of Some (Some k) \<Rightarrow> [EVP_PKEY_free k] | _ \<Rightarrow> []) @
         (case public_key_digest of Some (Some _) \<Rightarrow> [Free_digest] | _ \<Rightarrow> []))"

definition release_keypair :: "keypair option option \<Rightarrow> int \<times> key_release list" where
  "release_keypair KP = (0, case KP of Some (Some _) \<Rightarrow> [Free_keypair] | _ \<Rightarrow> [])"

text \<open>
  \<^verbatim>\<open>get_ASN_public_key\<close> asks for the length first and then for the bytes; the length of a
  failure is negative and goes into \<^verbatim>\<open>calloc\<close> and the result, so only a success has a meaning.
\<close>

definition get_ASN_public_key :: "'e keylib_scheme \<Rightarrow> nat \<Rightarrow> (int \<times> bytes \<times> int) outcome" where
  "get_ASN_public_key K private_key =
     (case k_i2d_PUBKEY K private_key of
        None \<Rightarrow> Undef
      | Some der \<Rightarrow> Ret (0, der, int (length der)))"

definition ndn_key_to_rsa :: "'e keylib_scheme \<Rightarrow> nat \<Rightarrow> nat outcome" where
  "ndn_key_to_rsa K key =
     (case k_get1_RSA K key of None \<Rightarrow> Raise NDNKeyError | Some rsa \<Rightarrow> Ret rsa)"

text \<open>\<^verbatim>\<open>release_key\<close> frees what there is of a pair, each once.\<close>

definition owned_by :: "keypair \<Rightarrow> key_release list" where
  "owned_by kp =
     (case kp_public_key kp of Some k \<Rightarrow> [EVP_PKEY_free k] | None \<Rightarrow> []) @
     (case kp_private_key kp of Some k \<Rightarrow> [EVP_PKEY_free k] | None \<Rightarrow> []) @
     (case kp_public_key_digest kp of Some _ \<Rightarrow> [Free_digest] | None \<Rightarrow> [])"

lemma release_key_owned:
  "snd (release_key (Some (kp_private_key kp)) (Some (kp_public_key kp)) (Some (kp_public_key_digest kp)))
     = owned_by kp"
  by (simp add: release_key_def owned_by_def split: option.splits)

subsection \<open>PEM\<close>

text \<open>
  What the properties need of OpenSSL's PEM functions: what is written, to a file or to memory,
  can be read with the same password, and the reader of private keys turns public keys away with the reason the code looks for.
\<close>

definition key_result :: "'e keylib_scheme \<Rightarrow> (nat \<Rightarrow> nat) \<Rightarrow> bool \<Rightarrow> nat \<Rightarrow> pyval" where
  "key_result K public_of priv k =
     PyTuple [if priv then key_box PKEY_PRIV k else PyNone, key_box PKEY_PUB (public_of k), PyBytes (key_id K k)]"

locale pem_keys = key_library +
  assumes pem_private:
      "rsa_key k \<Longrightarrow> is_private k \<Longrightarrow> pw \<noteq> Some [] \<Longrightarrow>
       \<exists>pem. k_write_PrivateKey K k pw = Some pem \<and> k_read_PrivateKey K pem pw = Some k"
    and pem_bio_private:
      "rsa_key k \<Longrightarrow> is_private k \<Longrightarrow> pw \<noteq> Some [] \<Longrightarrow>
       \<exists>pem. k_write_bio_PrivateKey K k pw = Some pem \<and> k_read_PrivateKey K pem pw = Some k"
    and pem_public:
      "rsa_key k \<Longrightarrow> \<exists>pem. k_write_PUBKEY K k = Some pem \<and> k_read_PUBKEY K pem = Some (public_of k)
         \<and> k_read_PrivateKey K pem pw = None \<and> k_err_reason K pem = 108"
    and bio: "k_bio K"
begin

lemma build_private:
  assumes "rsa_key k" "is_private k" "allocs_ok K"
  shows "bnd (key_triple K False (Some k)) (\<lambda>t. Ret (build_triple t)) = Ret (key_result K public_of True k)"
  using triple [OF assms(1,3), of False] assms(2) by (simp add: build_triple_def key_result_def)

lemma build_public:
  assumes "rsa_key k" "allocs_ok K"
  shows "bnd (key_triple K True (Some (public_of k))) (\<lambda>t. Ret (build_triple t)) = Ret (key_result K public_of False k)"
  using triple [OF public_rsa [OF assms(1)] assms(2), of True]
  by (simp add: build_triple_def key_result_def same_id public_idem)

end

text \<open>A password as the commands take it, and what they make of it.\<close>

definition is_password :: "pyval \<Rightarrow> bytes option \<Rightarrow> bool" where
  "is_password v pw \<longleftrightarrow>
     (v = PyNone \<and> pw = None) \<or> (\<exists>b. v = PyBytes b \<and> b \<noteq> [] \<and> 0 \<notin> set b \<and> pw = Some b)"

lemma password_arg_ok: "is_password v pw \<Longrightarrow> password_arg v = (pw, False) \<and> pw \<noteq> Some []"
  by (auto simp: is_password_def password_arg_def takeWhile_eq_all_conv)

lemma any_key_box:
  "ty = PKEY_PRIV \<or> ty = PKEY_PUB \<Longrightarrow> any_key K (key_box ty k) = Ret (ty = PKEY_PRIV, k)"
  by (auto simp: any_key_def)

lemma with_pending_False [simp]: "with_pending False m = m"
  by (simp add: with_pending_def)

lemma with_file_Ret: "fst (with_file S f mode work) = Ret r \<Longrightarrow> \<exists>c. work c = Ret r"
  by (auto simp: with_file_def Let_def split: prod.splits outcome.splits)

lemma with_file_open:
  "fst (open_file_handle S f mode) = Ret (fd, c) \<Longrightarrow> fst (with_file S f mode work) = work c"
  by (cases "open_file_handle S f mode") (simp add: with_file_def Let_def)

text \<open>
  The PEM form of the key in a capsule of type \<open>ty\<close>, as it is written to a file or to memory
  (\<open>to_bio\<close>).
\<close>

definition pem_of :: "'e keylib_scheme \<Rightarrow> bool \<Rightarrow> capsule_type \<Rightarrow> nat \<Rightarrow> bytes option \<Rightarrow> bytes option" where
  "pem_of K to_bio ty k p =
     (if ty = PKEY_PUB then k_write_PUBKEY K k
      else if to_bio then k_write_bio_PrivateKey K k p else k_write_PrivateKey K k p)"

context pem_keys
begin

lemma read_back:
  assumes "allocs_ok K" "rsa_key k" "ty = PKEY_PRIV \<and> is_private k \<or> ty = PKEY_PUB" "is_password pw p"
    and "pem_of K to_bio ty k p = Some pem"
  shows "fst (cmd_PEM_read_key K PyNone (if ty = PKEY_PRIV then PyBytes pem else PyNone) (PyBytes pem) pw)
         = Ret (key_result K public_of (ty = PKEY_PRIV) k)"
    and "k_seekable K f \<Longrightarrow> fst (open_file_handle (k_os K) f ''r'') = Ret (fd, pem) \<Longrightarrow> f \<noteq> PyNone
         \<Longrightarrow> fst (cmd_PEM_read_key K f PyNone PyNone pw) = Ret (key_result K public_of (ty = PKEY_PRIV) k)"
  using assms(3,5) password_arg_ok [OF assms(4)] build_private [OF assms(2) _ assms(1)]
    build_public [OF assms(2,1)] pem_private [OF assms(2), of p] pem_bio_private [OF assms(2), of p] pem_public [OF assms(2), of None]
    pem_public [OF assms(2), of p] bio
  by (cases to_bio; auto simp: cmd_PEM_read_key_def pem_of_def put_key_pem_def read_key_pem_def with_file_open Let_def case_prod_beta)+

lemma written:
  assumes "rsa_key k" "ty = PKEY_PRIV \<and> is_private k \<or> ty = PKEY_PUB" "is_password pw p"
  shows "\<exists>pem pem'. pem_of K True ty k p = Some pem \<and> pem_of K False ty k p = Some pem'
    \<and> fst (cmd_PEM_write_key K (key_box ty k) PyNone pw) = Ret (PyBytes pem, [])
    \<and> (\<forall>f x. fst (cmd_PEM_write_key K (key_box ty k) f pw) = Ret (PyNone, x) \<longrightarrow> x = pem')"
proof -
  obtain pem pem' where pem: "pem_of K True ty k p = Some pem" "pem_of K False ty k p = Some pem'"
    using assms(2) password_arg_ok [OF assms(3)] pem_private [OF assms(1), of p] pem_bio_private [OF assms(1), of p]
      pem_public [OF assms(1), of p]
    by (auto simp: pem_of_def)
  have "write_key_pem K (ty = PKEY_PRIV) k p = Ret pem'"
    "(if ty = PKEY_PRIV then get_key_pem_private K k p else get_key_pem_public K k) = Ret (PyBytes pem)"
    using pem bio assms(2)
    by (auto simp: write_key_pem_def get_key_pem_private_def get_key_pem_public_def pem_of_def)
  then show ?thesis
    using pem password_arg_ok [OF assms(3)] any_key_box [of ty K k] assms(2)
    by (auto simp: cmd_PEM_write_key_def Let_def case_prod_beta dest: with_file_Ret split: if_splits)
qed

end

lemma odd_demo_public [simp]: "odd (demo_public k)"
  by (simp add: demo_public_def)

interpretation demo_pem: pem_keys demo_keylib "\<lambda>k. k < 256" even demo_public
  by unfold_locales
    (simp_all add: demo_keylib_simps private_byte_def one_byte_of_nat demo_public_small)

subsection \<open>Properties\<close>

text \<open>
  C14. A key written as PEM, with or without a password, and read with the same password is that
  key with its public half and its digest; a public key comes back without a private half. This
  holds for strings and for files, where a public key is recognised by the error the reader of
  private keys leaves.
\<close>

theorem pem_roundtrip:
  assumes "pem_keys K rsa_key is_private public_of" "allocs_ok K" "rsa_key k" "is_password pw p"
    and "ty = PKEY_PRIV \<and> is_private k \<or> ty = PKEY_PUB"
  shows "bnd (fst (cmd_PEM_write_key K (key_box ty k) PyNone pw)) (\<lambda>(pem, _).
           fst (cmd_PEM_read_key K PyNone (if ty = PKEY_PRIV then pem else PyNone) pem pw))
         = Ret (key_result K public_of (ty = PKEY_PRIV) k)
    \<and> (fst (cmd_PEM_write_key K (key_box ty k) file pw) = Ret (PyNone, written)
         \<and> fst (open_file_handle (k_os K) file' ''r'') = Ret (fd, written) \<and> file' \<noteq> PyNone \<and> k_seekable K file'
       \<longrightarrow> fst (cmd_PEM_read_key K file' PyNone PyNone pw) = Ret (key_result K public_of (ty = PKEY_PRIV) k))"
proof -
  obtain pem pem' where pem: "pem_of K True ty k p = Some pem" "pem_of K False ty k p = Some pem'"
    "fst (cmd_PEM_write_key K (key_box ty k) PyNone pw) = Ret (PyBytes pem, [])"
    "fst (cmd_PEM_write_key K (key_box ty k) file pw) = Ret (PyNone, written) \<longrightarrow> written = pem'"
    using pem_keys.written [OF assms(1,3,5,4)] by blast
  show ?thesis
    using pem pem_keys.read_back [OF assms(1-3,5,4) pem(1)] pem_keys.read_back [OF assms(1-3,5,4) pem(2)] by auto
qed

theorem pem_roundtrip_witness:
  "bnd (fst (cmd_PEM_write_key demo_keylib (key_box PKEY_PRIV 4) PyNone (PyBytes [7]))) (\<lambda>(pem, _).
     fst (cmd_PEM_read_key demo_keylib PyNone pem pem (PyBytes [7])))
   = Ret (PyTuple [key_box PKEY_PRIV 4, key_box PKEY_PUB 5, PyBytes [5]])
   \<and> fst (cmd_PEM_read_key demo_keylib (PyInt 3) PyNone PyNone (PyBytes [7]))
     = Ret (PyTuple [key_box PKEY_PRIV 4, key_box PKEY_PUB 5, PyBytes [5]])"
  using pem_roundtrip [OF demo_pem.pem_keys_axioms demo_keylib_ndnb(4), of 4 "PyBytes [7]" "Some [7]" PKEY_PRIV
      "PyInt 3" "[4]" "PyInt 3" 7]
  by (simp add: is_password_def key_result_def key_id_def demo_public_def demo_keylib_simps
      cmd_PEM_write_key_def any_key_box password_arg_def write_key_pem_def with_file_def open_file_handle_def
      demo_os_def)

text \<open>
  C26. Whatever becomes of reading or writing a key file, short of a crash, the descriptor the
  module opened for it is closed again, once, and no other is touched.
\<close>

theorem key_files_closed:
  "(is_crash (fst (cmd_PEM_read_key K file priv pub pw)) \<or> closes_what_it_opens (snd (cmd_PEM_read_key K file priv pub pw)))
   \<and> (is_crash (fst (cmd_PEM_write_key K key file pw)) \<or> closes_what_it_opens (snd (cmd_PEM_write_key K key file pw)))"
proof
  have pend: "is_crash m \<Longrightarrow> is_crash (with_pending b (bnd m f))" "is_crash m \<Longrightarrow> is_crash (with_pending b m)"
    for m :: "'z outcome" and f :: "'z \<Rightarrow> pyval outcome" and b
    by (cases m; simp add: with_pending_def)+
  have nil: "closes_what_it_opens []"
    by (simp add: closes_what_it_opens_def)
  show "is_crash (fst (cmd_PEM_read_key K file priv pub pw)) \<or> closes_what_it_opens (snd (cmd_PEM_read_key K file priv pub pw))"
    using with_file_closes [where S = "k_os K" and f = "file" and mode = "''r''"
        and work = "\<lambda>c. read_key_pem K file c (fst (password_arg pw))"]
    by (auto simp: cmd_PEM_read_key_def Let_def case_prod_beta nil intro: pend)
  show "is_crash (fst (cmd_PEM_write_key K key file pw)) \<or> closes_what_it_opens (snd (cmd_PEM_write_key K key file pw))"
    using with_file_closes [where S = "k_os K" and f = "file" and mode = "''w''"]
    by (auto simp: cmd_PEM_write_key_def Let_def case_prod_beta nil intro: pend split: outcome.splits)
qed

text \<open>
  C25. A key is generated only from a generator the code takes to be seeded, and then the seed is
  saved; without entropy the process stops. But the code takes every result but zero for a seed: with an
  OpenSSL that reports an unreadable file as \<open>- 1\<close>, keys are generated from no seed at all.
\<close>

theorem keys_from_seeded_generator:
  assumes "cmd_generate_RSA_key K st [py_key, PyInt n] = (r, st', calls)" "tp_name py_key = ''Key''"
    and "- (2 ^ 63) \<le> n" "n < 2 ^ 63"
  shows "(r = Abort \<or> r = Undef \<or> g_seeded st' \<and> entropy (k_os K) (g_seed_file st'))
    \<and> (is_ret r \<longrightarrow> RAND_write_file (g_seed_file st') \<in> set calls)
    \<and> (g_seed_file st \<noteq> [] \<and> \<not> entropy (k_os K) (g_seed_file st) \<longrightarrow> r = Abort \<and> g_seeded st' = g_seeded st)
    \<and> (g_seed_file st \<noteq> [] \<and> (\<forall>f m. os_rand_load (k_os K) f m = - 1) \<longrightarrow> g_seeded st')"
proof -
  obtain seeded st1 calls1 where sp: "seed_prng (k_os K) st = (seeded, st1, calls1)"
    by (cases "seed_prng (k_os K) st") auto
  obtain res ws where g: "generate_key K st (to_int32 n) = (res, st1, calls1 @ ws)"
    "(\<forall>u. seeded \<noteq> Ret u) \<longrightarrow> \<not> is_ret res \<and> (seeded = Abort \<longrightarrow> res = Abort)"
    "is_ret res \<longrightarrow> save_seed K st1 = Ret ws"
    using sp by (cases seeded; cases "make_key K (to_int32 n)"; cases "save_seed K st1")
      (auto simp: generate_key_def)
  have arg: "arg_long (PyInt n) = Ret n"
    using assms(3,4) by (simp add: arg_long_def long_range_def)
  have r: "st' = st1" "calls = calls1 @ ws" "is_ret r \<longrightarrow> is_ret res" "res = Abort \<longrightarrow> r = Abort"
    using assms(1,2) arg g(1) by (auto simp: cmd_generate_RSA_key_def split: outcome.splits)
  have spec: "seeded = Ret () \<or> seeded = Abort"
    using seed_prng_spec [OF sp] by (cases seeded) auto
  have st: "g_seed_file st \<noteq> [] \<longrightarrow> g_seed_file st1 = g_seed_file st"
    "(\<forall>f m. os_rand_load (k_os K) f m = - 1) \<and> g_seed_file st \<noteq> [] \<longrightarrow> g_seeded st1"
    using sp by (auto simp: seed_prng_def Let_def split: if_splits)
  show ?thesis
    using spec
  proof
    assume s: "seeded = Ret ()"
    then have ok: "g_seeded st1" "entropy (k_os K) (g_seed_file st1)"
      using seed_prng_spec [OF sp] by auto
    then have "is_ret res \<longrightarrow> RAND_write_file (g_seed_file st1) \<in> set ws"
      using g(3) by (auto simp: save_seed_def c_assert_def split: if_splits)
    then show ?thesis using ok r st by auto
  next
    assume s: "seeded = Abort"
    then show ?thesis using g(2) r st seed_prng_spec [OF sp] by auto
  qed
qed

theorem keys_from_seeded_generator_witness:
  "\<exists>key st' calls. cmd_generate_RSA_key demo_keylib prng_boot [new_Key, PyInt 1024] = (Ret key, st', calls)
     \<and> g_seeded st' \<and> RAND_write_file ''.rnd'' \<in> set calls \<and> attr key ''publicKeyID'' = Some (PyBytes [3])"
proof -
  let ?c = "cmd_generate_RSA_key demo_keylib prng_boot [new_Key, PyInt 1024]"
  have t: "key_triple demo_keylib False (Some 2)
      = Ret (key_box PKEY_PRIV 2, key_box PKEY_PUB 3, PyBytes [3])"
    using key_library.triple [OF demo_keys.key_library_axioms, of 2 False] demo_keylib_ndnb(4)
    by (simp add: demo_public_def key_id_def demo_keylib_simps)
  obtain key where c: "?c = (Ret key, \<lparr>g_seed_file = ''.rnd'', g_seeded = True\<rparr>, snd (snd ?c))"
    "attr key ''publicKeyID'' = Some (PyBytes [3])"
    by (simp add: cmd_generate_RSA_key_def arg_long_def long_range_def new_Key_def nones_def generate_key_def
        seed_prng_def prng_boot_def make_key_def save_seed_def demo_keylib_simps demo_os_def t store_key_def
        caches_wire_def)
  have "RAND_write_file ''.rnd'' \<in> set (snd (snd ?c))"
    using keys_from_seeded_generator [OF c(1)] by (simp add: new_Key_def)
  then show ?thesis
    using c by (intro exI [of _ key] exI [of _ "\<lparr>g_seed_file = ''.rnd'', g_seeded = True\<rparr>"]
        exI [of _ "snd (snd ?c)"]) simp
qed

end
