(* ===== verification/DataM.thy ===== *)
theory DataM
  imports SignedInfoM InterestM RunState MethodsM
begin

section \<open>Data packets: csrc/methods\_contentobject.c\<close>

text \<open>
  The parsed form kept in the context of a content object's capsule, decoding a capsule or a
  buffer into a Python \<^verbatim>\<open>Data\<close>, encoding and signing, and the commands that ask the
  library about a packet. An operation that may parse returns the capsule as it leaves it.
\<close>

subsection \<open>The parsed form\<close>

definition with_data :: "capsule \<Rightarrow> parsed_data option \<Rightarrow> nat list option \<Rightarrow> capsule" where
  "with_data c p idx = c\<lparr>cap_context := DataContext \<lparr>pco = p, comps = idx\<rparr>\<rparr>"

text \<open>
  \<^verbatim>\<open>parse_Data\<close>: whatever was there is given up first, and a failure leaves nothing.
\<close>

definition parse_Data :: "'e ndnlib_scheme \<Rightarrow> capsule \<Rightarrow> unit outcome \<times> capsule" where
  "parse_Data L c =
     (if \<not> has_type CONTENT_OBJECT (PyCapsule c) then (c_assert L False Undef, c)
      else case cap_context c of
             DataContext _ \<Rightarrow>
               if \<not> mem L A_parsed \<or> \<not> mem L A_indexbuf then (Raise MemoryError, with_data c None None)
               else (case cap_pointer c of
                       P_Charbuf content_object \<Rightarrow>
                         (let (r, p, idx) = l_parse_data L content_object in
                          if r < 0 then (Raise NDNDataError, with_data c None None)
                          else (Ret (), with_data c (Some p) (Some idx)))
                     | _ \<Rightarrow> (Undef, c))
           | _ \<Rightarrow> (c_assert L False Undef, c))"

text \<open>
  The two lookups differ in the field they return. The last \<^verbatim>\<open>assert\<close> holds after
  a parse that succeeded.
\<close>

definition data_get :: "(content_object_data \<Rightarrow> 'a option) \<Rightarrow> 'e ndnlib_scheme \<Rightarrow> capsule \<Rightarrow> 'a outcome \<times> capsule" where
  "data_get field L c =
     (if \<not> has_type CONTENT_OBJECT (PyCapsule c) then (c_assert L False Undef, c)
      else case cap_context c of
             DataContext d \<Rightarrow>
               (case field d of
                  Some p \<Rightarrow> (Ret p, c)
                | None \<Rightarrow>
                    (let (r, c') = parse_Data L c in
                     (bnd r (\<lambda>_. case cap_context c' of
                                    DataContext d' \<Rightarrow>
                                      (case field d' of Some p \<Rightarrow> Ret p | None \<Rightarrow> c_assert L False Undef)
                                  | _ \<Rightarrow> Undef), c')))
           | _ \<Rightarrow> (c_assert L False Undef, c))"

definition content_object_get_pco :: "'e ndnlib_scheme \<Rightarrow> capsule \<Rightarrow> parsed_data outcome \<times> capsule" where
  "content_object_get_pco L = data_get pco L"

definition content_object_get_comps :: "'e ndnlib_scheme \<Rightarrow> capsule \<Rightarrow> nat list outcome \<times> capsule" where
  "content_object_get_comps L = data_get comps L"

definition content_object_set_pco :: "'e ndnlib_scheme \<Rightarrow> capsule \<Rightarrow> parsed_data option \<Rightarrow> capsule outcome" where
  "content_object_set_pco L c p =
     (if \<not> has_type CONTENT_OBJECT (PyCapsule c) then c_assert L False Undef
      else case cap_context c of
             DataContext d \<Rightarrow> Ret (c\<lparr>cap_context := DataContext (d\<lparr>pco := p\<rparr>)\<rparr>)
           | _ \<Rightarrow> c_assert L False Undef)"

definition content_object_set_comps :: "'e ndnlib_scheme \<Rightarrow> capsule \<Rightarrow> nat list option \<Rightarrow> capsule outcome" where
  "content_object_set_comps L c idx =
     (if \<not> has_type CONTENT_OBJECT (PyCapsule c) then c_assert L False Undef
      else case cap_context c of
             DataContext d \<Rightarrow> Ret (c\<lparr>cap_context := DataContext (d\<lparr>comps := idx\<rparr>)\<rparr>)
           | _ \<Rightarrow> c_assert L False Undef)"

subsection \<open>Decoding\<close>

text \<open>Bytes from one offset of the table to another, the size a \<^verbatim>\<open>size_t\<close>.\<close>

definition pco_slice :: "bytes \<Rightarrow> parsed_data \<Rightarrow> pco_idx \<Rightarrow> pco_idx \<Rightarrow> bytes outcome" where
  "pco_slice buf p b e =
     (if pco_offset p e < pco_offset p b then Undef
      else mem_read buf (pco_offset p b) (pco_offset p e - pco_offset p b))"

definition Content_from_ndn_parsed :: "'e datalib_scheme \<Rightarrow> bytes \<Rightarrow> parsed_data \<Rightarrow> pyval outcome" where
  "Content_from_ndn_parsed D content_object p =
     (let (r, value, n) = d_content_get_value D content_object p in
      if r < 0 then Raise NDNError
      else bnd (mem_read content_object value n) (\<lambda>x. Ret (PyBytes x)))"

text \<open>A copy of part of the packet in a capsule of its own.\<close>

definition copy_part ::
    "'e ndnlib_scheme \<Rightarrow> capsule_type \<Rightarrow> bytes \<Rightarrow> parsed_data \<Rightarrow> pco_idx \<Rightarrow> pco_idx \<Rightarrow> pyval outcome" where
  "copy_part L ty content_object p b e =
     bnd (NDNObject_New_charbuf L ty) (\<lambda>c.
     bnd (pco_slice content_object p b e) (\<lambda>x.
     try_mem (l_append L [] x) (\<lambda>cb. Ret (fill c cb))))"

definition Name_obj_from_ndn_parsed :: "'e ndnlib_scheme \<Rightarrow> capsule \<Rightarrow> pyval outcome \<times> capsule" where
  "Name_obj_from_ndn_parsed L c =
     (let (p, c') = content_object_get_pco L c in
      (bnd (get_charbuf L CONTENT_OBJECT (PyCapsule c)) (\<lambda>content_object.
       bnd p (\<lambda>p.
         if name_ncomps p \<le> 0 then Raise NDNNameError
         else bnd (copy_part L NAME content_object p NDN_PCO_B_Name NDN_PCO_E_Name) (Name_obj_from_ndn L))), c'))"

definition fill_data ::
    "'e datalib_scheme \<Rightarrow> bytes \<Rightarrow> parsed_data \<Rightarrow> pyval outcome \<Rightarrow> pyval \<Rightarrow> pyval outcome" where
  "fill_data D content_object p py_name py_content_object =
     bnd py_name (\<lambda>n.
     bnd (py_setattr new_Data ''name'' n) (\<lambda>obj.
     bnd (Content_from_ndn_parsed D content_object p) (\<lambda>content.
     bnd (py_setattr obj ''content'' content) (\<lambda>obj.
     bnd (copy_part D SIGNATURE content_object p NDN_PCO_B_Signature NDN_PCO_E_Signature) (\<lambda>py_signature.
     bnd (Signature_obj_from_ndn D py_signature) (\<lambda>py_o.
     bnd (py_setattr obj ''signature'' py_o) (\<lambda>obj.
     bnd (copy_part D SIGNED_INFO content_object p NDN_PCO_B_SignedInfo NDN_PCO_E_SignedInfo) (\<lambda>py_signed_info.
     bnd (SignedInfo_obj_from_ndn D py_signed_info) (\<lambda>py_o.
     bnd (py_setattr obj ''signedInfo'' py_o) (\<lambda>obj.
     bnd (py_setattr obj ''digestAlgorithm'' PyNone) (\<lambda>obj.
       py_setattr obj ''ndn_data'' py_content_object)))))))))))"

definition Data_obj_from_ndn :: "'e datalib_scheme \<Rightarrow> pyval \<Rightarrow> pyval outcome \<times> pyval" where
  "Data_obj_from_ndn D py_content_object =
     (case py_content_object of
        PyCapsule c \<Rightarrow>
          if \<not> has_type CONTENT_OBJECT (PyCapsule c) then (Raise TypeError, py_content_object)
          else (let (p, c1) = content_object_get_pco D c;
                    (n, c2) = Name_obj_from_ndn_parsed D c1 in
                case p of
                  Ret p \<Rightarrow>
                    (bnd (get_charbuf D CONTENT_OBJECT (PyCapsule c)) (\<lambda>content_object.
                       fill_data D content_object p n (PyCapsule c2)), PyCapsule c2)
                | Raise e \<Rightarrow> (Raise e, PyCapsule c1)
                | Abort \<Rightarrow> (Abort, PyCapsule c1)
                | Undef \<Rightarrow> (Undef, PyCapsule c1))
      | _ \<Rightarrow> (Raise TypeError, py_content_object))"

definition cmd_Data_obj_from_ndn :: "'e datalib_scheme \<Rightarrow> pyval \<Rightarrow> pyval outcome \<times> pyval" where
  "cmd_Data_obj_from_ndn D py_co = Data_obj_from_ndn D py_co"

definition Data_obj_from_ndn_buffer :: "'e datalib_scheme \<Rightarrow> pyval \<Rightarrow> pyval outcome" where
  "Data_obj_from_ndn_buffer D py_buffer =
     (case buffer_of py_buffer of
        None \<Rightarrow> Raise TypeError
      | Some buffer \<Rightarrow>
          bnd (NDNObject_New_charbuf D CONTENT_OBJECT) (\<lambda>c.
            try_mem (l_append D [] buffer) (\<lambda>data. fst (Data_obj_from_ndn D (fill c data)))))"

definition cmd_Data_obj_from_ndn_buffer :: "'e datalib_scheme \<Rightarrow> pyval \<Rightarrow> pyval outcome" where
  "cmd_Data_obj_from_ndn_buffer D py_buffer = Data_obj_from_ndn_buffer D py_buffer"

subsection \<open>Content as bytes\<close>

text \<open>
  \<^verbatim>\<open>PyByteArray_FromObject\<close>: strings of bytes as they are; of a sequence, each item a
  number below 256 or a string of one byte.
\<close>

definition byte_value :: "pyval \<Rightarrow> byte outcome" where
  "byte_value v =
     (case v of
        PyInt n \<Rightarrow> if 0 \<le> n \<and> n < 256 then Ret (word_of_int n) else Raise ValueError
      | PyBool b \<Rightarrow> Ret (if b then 1 else 0)
      | PyBytes [b] \<Rightarrow> Ret b
      | PyBytes _ \<Rightarrow> Raise ValueError
      | _ \<Rightarrow> Raise TypeError)"

text \<open>
  The items a \<^verbatim>\<open>bytearray\<close> takes from an object: those of a sequence, and of the two classes of
  the package with a \<^verbatim>\<open>__getitem__\<close>.
\<close>

fun seq_items :: "pyval \<Rightarrow> pyval list option" where
  "seq_items (PyList xs) = Some xs"
| "seq_items (PyTuple xs) = Some xs"
| "seq_items (PyBytes b) = Some (map (\<lambda>x. PyBytes [x]) b)"
| "seq_items (PyUnicode cs) = Some (map (\<lambda>c. PyUnicode [c]) cs)"
| "seq_items (PyByteArray b) = Some (map (\<lambda>x. PyInt (uint x)) b)"
| "seq_items _ = None"

fun object_items :: "pyval \<Rightarrow> pyval list option" where
  "object_items (PyInst cls attrs) =
     (if cls = ''Name'' then Option.bind (map_of attrs ''components'') seq_items else None)"
| "object_items (PyConst v) = object_items v"
| "object_items v = seq_items v"

definition bytearray_from :: "pyval \<Rightarrow> pyval outcome" where
  "bytearray_from v =
     (case v of
        PyBytes b \<Rightarrow> Ret (PyByteArray b)
      | PyByteArray b \<Rightarrow> Ret (PyByteArray b)
      | _ \<Rightarrow>
          (case object_items v of
             Some xs \<Rightarrow> bnd (traverse byte_value xs) (\<lambda>b. Ret (PyByteArray b))
           | None \<Rightarrow> Raise TypeError))"

definition cmd_content_to_bytearray :: "'e ndnlib_scheme \<Rightarrow> pyval \<Rightarrow> pyval outcome" where
  "cmd_content_to_bytearray L arg =
     (if arg = PyNone then Ret PyNone
      else if is_number arg then bytearray_from (PyBytes (number_str L arg))
      else case arg of
             PyUnicode cs \<Rightarrow> bytearray_from (PyBytes (utf8 cs))
           | _ \<Rightarrow> bytearray_from arg)"

text \<open>\<^verbatim>\<open>PyObject_Bytes\<close> is \<^verbatim>\<open>str()\<close> in Python 2.\<close>

definition cmd_content_to_bytes :: "'e datalib_scheme \<Rightarrow> pyval \<Rightarrow> pyval outcome" where
  "cmd_content_to_bytes D arg =
     (if arg = PyNone then Ret PyNone
      else if is_number arg then Ret (PyBytes (number_str D arg))
      else case arg of
             PyUnicode cs \<Rightarrow> Ret (PyBytes (utf8 cs))
           | PyBytes b \<Rightarrow> Ret (PyBytes b)
           | PyByteArray b \<Rightarrow> Ret (PyBytes b)
           | _ \<Rightarrow> d_object_str D arg)"

subsection \<open>Encoding\<close>

definition content_arg :: "pyval \<Rightarrow> bytes outcome" where
  "content_arg py_content =
     (case py_content of PyNone \<Rightarrow> Ret [] | PyBytes b \<Rightarrow> Ret b | _ \<Rightarrow> Raise TypeError)"

text \<open>A buffer argument that must be of the given type.\<close>

definition the_charbuf :: "'e env_scheme \<Rightarrow> capsule_type \<Rightarrow> pyval \<Rightarrow> bytes outcome" where
  "the_charbuf E ty v =
     bnd (NDNObject_IsValid E ty v) (\<lambda>ok. if \<not> ok then Raise TypeError else get_charbuf E ty v)"

text \<open>A key without a private half gives a null pointer, which is handed on.\<close>

definition cmd_encode_Data :: "'e datalib_scheme \<Rightarrow> pyval list \<Rightarrow> pyval outcome" where
  "cmd_encode_Data D args =
     (case args of
        [py_content_object, py_name, py_content, py_signed_info, py_key] \<Rightarrow>
          if tp_name py_content_object \<noteq> ''Data'' then Raise TypeError
          else
            bnd (the_charbuf D NAME py_name) (\<lambda>name.
            bnd (content_arg py_content) (\<lambda>content.
            bnd (the_charbuf D SIGNED_INFO py_signed_info) (\<lambda>signed_info.
              if tp_name py_key \<noteq> ''Key'' then Raise TypeError
              else bnd (Key_to_ndn_private D py_key) (\<lambda>private_key.
                jump_if_null_mem (mem D A_charbuf)
                 (let (r, b) = d_encode_content D name signed_info content private_key in
                  if r < 0 then Raise NDNError
                  else bnd (fst (NDNObject_New D CONTENT_OBJECT (P_Charbuf b))) (\<lambda>c. Ret (PyCapsule c)))))))
      | _ \<Rightarrow> Raise TypeError)"

subsection \<open>Questions about a packet\<close>

text \<open>
  Each command takes the packet's capsule, and gives it back with what parsing left in it;
  digesting writes the digest into the parsed form that is kept, and matching may.
\<close>

definition store_pco :: "capsule \<Rightarrow> parsed_data \<Rightarrow> capsule" where
  "store_pco c p =
     (case cap_context c of
        DataContext ctx \<Rightarrow> c\<lparr>cap_context := DataContext (ctx\<lparr>pco := Some p\<rparr>)\<rparr>
      | _ \<Rightarrow> c)"

definition with_capsule ::
    "'e env_scheme \<Rightarrow> capsule_type \<Rightarrow> pyval \<Rightarrow> (capsule \<Rightarrow> bytes \<Rightarrow> 'a outcome \<times> capsule) \<Rightarrow> 'a outcome \<times> pyval" where
  "with_capsule E ty v k =
     (case v of
        PyCapsule c \<Rightarrow>
          (case the_charbuf E ty v of
             Ret b \<Rightarrow> (let (r, c') = k c b in (r, PyCapsule c'))
           | Raise e \<Rightarrow> (Raise e, v)
           | Abort \<Rightarrow> (Abort, v)
           | Undef \<Rightarrow> (Undef, v))
      | _ \<Rightarrow> (Raise TypeError, v))"

definition cmd_digest_contentobject :: "'e datalib_scheme \<Rightarrow> pyval \<Rightarrow> pyval outcome \<times> pyval" where
  "cmd_digest_contentobject D py_content_object =
     with_capsule D CONTENT_OBJECT py_content_object (\<lambda>c content_object.
       let (r, c') = content_object_get_pco D c in
       case r of
         Ret p \<Rightarrow>
           if length content_object \<noteq> pco_offset p NDN_PCO_E then (Raise ValueError, c')
           else (let d = d_digest_content D content_object p in
                 (Ret (PyBytes d), store_pco c' (p\<lparr>digest := d\<rparr>)))
       | Raise e \<Rightarrow> (Raise e, c')
       | Abort \<Rightarrow> (Abort, c')
       | Undef \<Rightarrow> (Undef, c'))"

definition cmd_content_matches_interest ::
    "'e datalib_scheme \<Rightarrow> pyval \<Rightarrow> pyval \<Rightarrow> pyval outcome \<times> pyval \<times> pyval" where
  "cmd_content_matches_interest D py_content_object py_interest =
     (if \<not> has_type CONTENT_OBJECT py_content_object \<or> \<not> has_type INTEREST py_interest
      then (Raise TypeError, py_content_object, py_interest)
      else case (py_content_object, py_interest) of
        (PyCapsule c, PyCapsule i) \<Rightarrow>
          (let (r, c') = content_object_get_pco D c in
           case r of
             Ret q \<Rightarrow>
               (let (s, i') = interest_get_pi D i;
                    res = bnd s (\<lambda>p.
                      bnd (get_charbuf D CONTENT_OBJECT py_content_object) (\<lambda>content_object.
                      bnd (get_charbuf D INTEREST py_interest) (\<lambda>interest.
                        Ret (d_content_matches_interest D content_object q interest p)))) in
                (bnd res (\<lambda>(n, q'). Ret (PyBool (n \<noteq> 0))),
                 PyCapsule (case res of Ret (n, q') \<Rightarrow> store_pco c' q' | _ \<Rightarrow> c'), PyCapsule i'))
           | Raise e \<Rightarrow> (Raise e, PyCapsule c', py_interest)
           | Abort \<Rightarrow> (Abort, PyCapsule c', py_interest)
           | Undef \<Rightarrow> (Undef, PyCapsule c', py_interest))
      | _ \<Rightarrow> (Undef, py_content_object, py_interest))"

definition cmd_verify_content :: "'e datalib_scheme \<Rightarrow> pyval \<Rightarrow> pyval \<Rightarrow> pyval outcome \<times> pyval" where
  "cmd_verify_content D py_handle py_content_object =
     (case the_handle D py_handle of
        Ret handle \<Rightarrow>
          with_capsule D CONTENT_OBJECT py_content_object (\<lambda>c content_object.
            let (r, c') = content_object_get_pco D c in
            (bnd r (\<lambda>p.
               c_assert D (length content_object = pco_offset p NDN_PCO_E)
                (Ret (PyBool (d_verify_content D handle content_object p = 0)))), c'))
      | Raise e \<Rightarrow> (Raise e, py_content_object)
      | Abort \<Rightarrow> (Abort, py_content_object)
      | Undef \<Rightarrow> (Undef, py_content_object))"

definition cmd_verify_signature :: "'e datalib_scheme \<Rightarrow> pyval \<Rightarrow> pyval \<Rightarrow> pyval outcome \<times> pyval" where
  "cmd_verify_signature D py_content_object py_pub_key =
     with_capsule D CONTENT_OBJECT py_content_object (\<lambda>c content_object.
       if \<not> has_type PKEY_PUB py_pub_key then (Raise TypeError, c)
       else (let (r, c') = content_object_get_pco D c in
             (bnd r (\<lambda>p.
              bnd (get_pkey D PKEY_PUB py_pub_key) (\<lambda>pub_key.
                let r = d_verify_signature D content_object p pub_key in
                if r < 0 then Raise NDNSignatureError else Ret (PyBool (r \<noteq> 0)))), c')))"

subsection \<open>The Python class\<close>

text \<open>
  Assigning \<^verbatim>\<open>content\<close> converts the value and then stores the value itself all the same;
  \<^verbatim>\<open>sign\<close> and \<^verbatim>\<open>toWire\<close> as \<^verbatim>\<open>Data.py\<close> has them.
\<close>

definition data_set_content :: "'e datalib_scheme \<Rightarrow> pyval \<Rightarrow> pyval \<Rightarrow> pyval outcome" where
  "data_set_content D obj v = bnd (cmd_content_to_bytes D v) (\<lambda>_. py_setattr obj ''content'' v)"

definition data_sign :: "'e datalib_scheme \<Rightarrow> pyval \<Rightarrow> pyval \<Rightarrow> pyval outcome" where
  "data_sign D obj py_key =
     bnd (py_getattr obj ''name'') (\<lambda>n.
     bnd (name_ndn_data D n) (\<lambda>name.
     bnd (py_getattr obj ''content'') (\<lambda>content.
     bnd (py_getattr obj ''signedInfo'') (\<lambda>si.
     bnd (signed_info_ndn_data D si) (\<lambda>signed_info.
     bnd (cmd_encode_Data D [obj, name, content, signed_info, py_key]) (\<lambda>wire.
       py_setattr obj ''ndn_data'' wire))))))"

text \<open>\<^verbatim>\<open>Data.__getattribute__\<close>: the wire form of a packet that has not been signed raises.\<close>

definition data_ndn_data :: "pyval \<Rightarrow> pyval outcome" where
  "data_ndn_data obj =
     bnd (py_getattr obj ''ndn_data'') (\<lambda>d. if d = PyNone then Raise DataException else Ret d)"

definition data_toWire :: "'e env_scheme \<Rightarrow> pyval \<Rightarrow> pyval outcome" where
  "data_toWire E obj = bnd (data_ndn_data obj) (cmd_dump_charbuf E)"

subsection \<open>The parsed form is kept when there is one\<close>

definition data_cached :: "(content_object_data \<Rightarrow> 'a option) \<Rightarrow> capsule \<Rightarrow> 'a option" where
  "data_cached field c =
     (if has_type CONTENT_OBJECT (PyCapsule c)
      then (case cap_context c of DataContext d \<Rightarrow> field d | _ \<Rightarrow> None) else None)"

definition data_parse :: "(parsed_data \<Rightarrow> nat list \<Rightarrow> 'a) \<Rightarrow> 'e ndnlib_scheme \<Rightarrow> capsule \<Rightarrow> 'a outcome" where
  "data_parse sel L c =
     (if \<not> has_type CONTENT_OBJECT (PyCapsule c) then c_assert L False Undef
      else case cap_context c of
             DataContext _ \<Rightarrow>
               if \<not> mem L A_parsed \<or> \<not> mem L A_indexbuf then Raise MemoryError
               else (case cap_pointer c of
                       P_Charbuf b \<Rightarrow>
                         (let (r, p, idx) = l_parse_data L b in if r < 0 then Raise NDNDataError else Ret (sel p idx))
                     | _ \<Rightarrow> Undef)
           | _ \<Rightarrow> c_assert L False Undef)"

lemmas data_get_defs = data_get_def data_cached_def data_parse_def parse_Data_def with_data_def

lemma data_get_clean_memo:
  assumes "\<And>p idx. field \<lparr>pco = Some p, comps = Some idx\<rparr> = Some (sel p idx)"
    and "field \<lparr>pco = None, comps = None\<rparr> = None"
  shows "clean_memo (data_get field L) (data_cached field) (data_parse sel L)"
proof unfold_locales
  show "data_cached field s = Some r \<Longrightarrow> data_get field L s = (Ret r, s)" for s r
    by (auto simp: data_cached_def data_get_def split: if_splits capsule_context.splits)
  show "data_cached field s = None \<Longrightarrow> fst (data_get field L s) = data_parse sel L s" for s
    by (auto simp: data_get_defs assms split: if_splits capsule_context.splits payload.splits prod.splits)
  show "data_cached field s = None \<Longrightarrow> data_parse sel L s = Ret r
      \<Longrightarrow> data_cached field (snd (data_get field L s)) = Some r" for s r
    by (auto simp: data_get_defs assms split: if_splits capsule_context.splits payload.splits prod.splits)
  show "data_parse sel L (snd (data_get field L s)) = data_parse sel L s" for s
    by (auto simp: data_get_defs split: option.splits capsule_context.splits payload.splits prod.splits)
  show "data_cached field s = None \<Longrightarrow> (\<And>r. data_parse sel L s \<noteq> Ret r)
      \<Longrightarrow> data_cached field (snd (data_get field L s)) = None" for s
    by (auto simp: data_get_defs assms split: if_splits capsule_context.splits payload.splits prod.splits) blast
qed

interpretation data_pco: clean_memo "content_object_get_pco L" "data_cached pco" "data_parse (\<lambda>p idx. p) L"
  unfolding content_object_get_pco_def by (rule data_get_clean_memo) simp_all

interpretation data_comps: clean_memo "content_object_get_comps L" "data_cached comps" "data_parse (\<lambda>p idx. idx) L"
  unfolding content_object_get_comps_def by (rule data_get_clean_memo) simp_all

subsection \<open>A packet through many questions\<close>

text \<open>
  The capsule of a packet \<open>b\<close> in any state its commands can leave it in: nothing parsed, or
  everything parsed, as the parser left it or with the digest the library computes for it.
\<close>

definition data_capsule :: "bytes \<Rightarrow> content_object_data \<Rightarrow> capsule" where
  "data_capsule b d =
     \<lparr>cap_pointer = P_Charbuf b, cap_name = Some (capsule_name CONTENT_OBJECT),
      cap_context = DataContext d, cap_owned = True\<rparr>"

definition parse_result :: "'e ndnlib_scheme \<Rightarrow> bytes \<Rightarrow> (parsed_data \<times> nat list) outcome" where
  "parse_result L b =
     (if \<not> mem L A_parsed \<or> \<not> mem L A_indexbuf then Raise MemoryError
      else (let (r, p, idx) = l_parse_data L b in if r < 0 then Raise NDNDataError else Ret (p, idx)))"

definition kept_forms :: "'e datalib_scheme \<Rightarrow> bytes \<Rightarrow> parsed_data \<Rightarrow> parsed_data set" where
  "kept_forms D b p = {p, p\<lparr>digest := d_digest_content D b p\<rparr>}"

definition data_state :: "'e datalib_scheme \<Rightarrow> bytes \<Rightarrow> content_object_data \<Rightarrow> bool" where
  "data_state D b d \<longleftrightarrow>
     d = \<lparr>pco = None, comps = None\<rparr>
     \<or> (case parse_result D b of
          Ret (p, idx) \<Rightarrow> comps d = Some idx \<and> pco d \<in> Some ` kept_forms D b p
        | _ \<Rightarrow> False)"

lemma box_data: "box CONTENT_OBJECT b = PyCapsule (data_capsule b \<lparr>pco = None, comps = None\<rparr>)"
  by (simp add: box_def data_capsule_def fresh_context_def)

lemma data_state_fresh [simp]: "data_state L b \<lparr>pco = None, comps = None\<rparr>"
  by (simp add: data_state_def)

lemma data_state_parsed:
  "parse_result D b = Ret (p, idx) \<Longrightarrow> q \<in> kept_forms D b p \<Longrightarrow> data_state D b \<lparr>pco = Some q, comps = Some idx\<rparr>"
  by (simp add: data_state_def)

lemma data_capsule_simps [simp]:
  "has_type ty (PyCapsule (data_capsule b d)) \<longleftrightarrow> ty = CONTENT_OBJECT"
  "get_charbuf L CONTENT_OBJECT (PyCapsule (data_capsule b d)) = Ret b"
  "cap_context (data_capsule b d) = DataContext d"
  "(data_capsule b d)\<lparr>cap_context := DataContext d'\<rparr> = data_capsule b d'"
  "cap_pointer (data_capsule b d) = P_Charbuf b"
  using capsule_name_inj [of CONTENT_OBJECT ty]
  by (auto simp: data_capsule_def has_type_def capsule_is_valid_def get_charbuf_def NDNObject_Get_def)

lemma data_state_cases:
  assumes "data_state D b d"
  obtains "d = \<lparr>pco = None, comps = None\<rparr>"
  | p idx q where "parse_result D b = Ret (p, idx)" "q \<in> kept_forms D b p" "d = \<lparr>pco = Some q, comps = Some idx\<rparr>"
  using assms by (cases d) (auto simp: data_state_def split: outcome.splits)

lemma get_pco_capsule:
  assumes "data_state D b d"
  shows "case parse_result D b of
      Ret (p, idx) \<Rightarrow>
        (\<exists>q \<in> kept_forms D b p. content_object_get_pco D (data_capsule b d)
          = (Ret q, data_capsule b \<lparr>pco = Some q, comps = Some idx\<rparr>))
    | Raise e \<Rightarrow> d = \<lparr>pco = None, comps = None\<rparr> \<and> content_object_get_pco D (data_capsule b d) = (Raise e, data_capsule b d)
    | _ \<Rightarrow> False"
  using assms
proof (cases rule: data_state_cases)
  case 1
  show ?thesis
  proof (cases "parse_result D b")
    case (Ret pi)
    obtain p idx where p: "pi = (p, idx)"
      by (cases pi)
    have "content_object_get_pco D (data_capsule b d) = (Ret p, data_capsule b \<lparr>pco = Some p, comps = Some idx\<rparr>)"
      using 1 Ret p
      by (auto simp: content_object_get_pco_def data_get_def parse_Data_def with_data_def parse_result_def
          split: prod.splits if_splits)
    then show ?thesis
      using Ret p by (simp add: kept_forms_def)
  qed (use 1 in \<open>auto simp: content_object_get_pco_def data_get_def parse_Data_def with_data_def parse_result_def
      split: prod.splits if_splits\<close>)
next
  case (2 p idx q)
  then show ?thesis
    by (auto simp: content_object_get_pco_def data_get_def)
qed

text \<open>
  What the library says of the digest in a parsed packet: a fresh parse has none; the digest is
  computed only when none is stored. Matching takes the packet's digest in the same way and may
  leave it in the parsed form; the verifications use where the parts are.
\<close>

locale digest_cache =
  fixes D :: "'e datalib_scheme"
  assumes parsed: "l_parse_data D b = (r, p, idx) \<Longrightarrow> 0 \<le> r \<Longrightarrow> digest p = []"
    and stored: "digest p \<noteq> [] \<Longrightarrow> d_digest_content D b p = digest p"
    and matching: "pco_offset p = pco_offset q \<Longrightarrow> name_ncomps p = name_ncomps q
      \<Longrightarrow> d_digest_content D b p = d_digest_content D b q
      \<Longrightarrow> fst (d_content_matches_interest D b p x i) = fst (d_content_matches_interest D b q x i)"
    and matching_leaves: "snd (d_content_matches_interest D b p x i) \<in> {p, p\<lparr>digest := d_digest_content D b p\<rparr>}"
    and verifying: "pco_offset p = pco_offset q \<Longrightarrow> name_ncomps p = name_ncomps q
      \<Longrightarrow> d_verify_content D h b p = d_verify_content D h b q"
    and verifying_signature: "pco_offset p = pco_offset q \<Longrightarrow> name_ncomps p = name_ncomps q
      \<Longrightarrow> d_verify_signature D b p k = d_verify_signature D b q k"
begin

text \<open>Over the forms a capsule may keep, every answer is that over the fresh parse.\<close>

lemma kept_parts: "q \<in> kept_forms D b p \<Longrightarrow> pco_offset q = pco_offset p \<and> name_ncomps q = name_ncomps p"
  by (auto simp: kept_forms_def)

lemma kept_digest:
  assumes "parse_result D b = Ret (p, idx)" "q \<in> kept_forms D b p"
  shows "d_digest_content D b q = d_digest_content D b p"
proof (cases "d_digest_content D b p = []")
  case True
  have "digest p = []"
    using assms(1) by (auto simp: parse_result_def split: if_splits prod.splits intro: parsed)
  with True have "p\<lparr>digest := d_digest_content D b p\<rparr> = p"
    by (cases p) simp
  then show ?thesis
    using assms(2) by (auto simp: kept_forms_def)
next
  case False
  then show ?thesis
    using assms(2) stored [of "p\<lparr>digest := d_digest_content D b p\<rparr>" b] by (auto simp: kept_forms_def)
qed

lemma kept_answers:
  assumes "parse_result D b = Ret (p, idx)" "q \<in> kept_forms D b p"
  shows "fst (d_content_matches_interest D b q x i) = fst (d_content_matches_interest D b p x i)"
    and "d_verify_content D h b q = d_verify_content D h b p"
    and "d_verify_signature D b q k = d_verify_signature D b p k"
  using kept_parts [OF assms(2)] kept_digest [OF assms] matching verifying verifying_signature by blast+

lemma kept_stays:
  assumes "parse_result D b = Ret (p, idx)" "q \<in> kept_forms D b p"
  shows "q\<lparr>digest := d_digest_content D b q\<rparr> \<in> kept_forms D b p"
    and "snd (d_content_matches_interest D b q x i) \<in> kept_forms D b p"
proof -
  show "q\<lparr>digest := d_digest_content D b q\<rparr> \<in> kept_forms D b p"
    using assms(2) kept_digest [OF assms] by (auto simp: kept_forms_def)
  then show "snd (d_content_matches_interest D b q x i) \<in> kept_forms D b p"
    using matching_leaves [of b q x i] assms(2) by auto
qed

end

datatype question = Digest | Matches pyval | Verify_content pyval | Verify_signature pyval

fun ask :: "'e datalib_scheme \<Rightarrow> question \<Rightarrow> pyval \<Rightarrow> pyval outcome \<times> pyval" where
  "ask D Digest v = cmd_digest_contentobject D v"
| "ask D (Matches i) v = (let (r, v', i') = cmd_content_matches_interest D v i in (r, v'))"
| "ask D (Verify_content h) v = cmd_verify_content D h v"
| "ask D (Verify_signature k) v = cmd_verify_signature D v k"

fun asks :: "'e datalib_scheme \<Rightarrow> question list \<Rightarrow> pyval \<Rightarrow> pyval outcome list" where
  "asks D [] v = []"
| "asks D (q # qs) v = (let (r, v') = ask D q v in r # asks D qs v')"

lemmas question_defs = cmd_digest_contentobject_def cmd_content_matches_interest_def cmd_verify_content_def
  cmd_verify_signature_def with_capsule_def the_charbuf_def

text \<open>The answer over a packet whose parsed form, or the failure to parse, is given.\<close>

fun verdict :: "'e datalib_scheme \<Rightarrow> bytes \<Rightarrow> parsed_data outcome \<Rightarrow> question \<Rightarrow> pyval outcome" where
  "verdict D b r Digest =
     bnd r (\<lambda>p. if length b \<noteq> pco_offset p NDN_PCO_E then Raise ValueError else Ret (PyBytes (d_digest_content D b p)))"
| "verdict D b r (Matches i) =
     (case i of
        PyCapsule c \<Rightarrow>
          if \<not> has_type INTEREST i then Raise TypeError
          else bnd r (\<lambda>p. bnd (fst (interest_get_pi D c)) (\<lambda>q. bnd (get_charbuf D INTEREST i) (\<lambda>x.
                 Ret (PyBool (fst (d_content_matches_interest D b p x q) \<noteq> 0)))))
      | _ \<Rightarrow> Raise TypeError)"
| "verdict D b r (Verify_content h) =
     bnd (the_handle D h) (\<lambda>handle. bnd r (\<lambda>p.
       c_assert D (length b = pco_offset p NDN_PCO_E) (Ret (PyBool (d_verify_content D handle b p = 0)))))"
| "verdict D b r (Verify_signature k) =
     (if \<not> has_type PKEY_PUB k then Raise TypeError
      else bnd r (\<lambda>p. bnd (get_pkey D PKEY_PUB k) (\<lambda>key.
             let s = d_verify_signature D b p key in
             if s < 0 then Raise NDNSignatureError else Ret (PyBool (s \<noteq> 0)))))"

lemma has_type_capsule: "has_type ty v \<Longrightarrow> \<exists>c. v = PyCapsule c"
  by (cases v) (simp_all add: has_type_def capsule_is_valid_def)

lemma store_pco_capsule [simp]:
  "store_pco (data_capsule b d) p = data_capsule b (d\<lparr>pco := Some p\<rparr>)"
  by (simp add: store_pco_def)

lemma ask_step:
  assumes "digest_cache D" "data_state D b d"
  shows "\<exists>d'. ask D q (PyCapsule (data_capsule b d))
      = (verdict D b (bnd (parse_result D b) (\<lambda>(p, idx). Ret p)) q, PyCapsule (data_capsule b d')) \<and> data_state D b d'"
proof (cases "parse_result D b")
  case (Ret pi)
  obtain p idx where p: "pi = (p, idx)"
    by (cases pi)
  with get_pco_capsule [OF assms(2)] Ret obtain s where s: "s \<in> kept_forms D b p" and
    get: "content_object_get_pco D (data_capsule b d) = (Ret s, data_capsule b \<lparr>pco = Some s, comps = Some idx\<rparr>)"
    by auto
  note pr = Ret [unfolded p]
  note parts = digest_cache.kept_parts [OF assms(1) s]
  note same = parts digest_cache.kept_digest [OF assms(1) pr s] digest_cache.kept_answers [OF assms(1) pr s]
  note kept = data_state_parsed [OF pr]
  note stays = s digest_cache.kept_stays [OF assms(1) pr s]
  show ?thesis
  proof (cases q)
    case Digest
    then show ?thesis
      using get kept stays(1,2) pr same by (auto simp: question_defs Let_def)
  next
    case (Matches i)
    show ?thesis
    proof (cases "has_type INTEREST i")
      case True
      then obtain c where c: "i = PyCapsule c"
        by (auto dest: has_type_capsule)
      define m where "m = bnd (fst (interest_get_pi D c)) (\<lambda>y. bnd (get_charbuf D INTEREST i) (\<lambda>x.
        Ret (d_content_matches_interest D b s x y)))"
      have "data_state D b (case m of Ret (n, q') \<Rightarrow> \<lparr>pco = Some q', comps = Some idx\<rparr> | _ \<Rightarrow> \<lparr>pco = Some s, comps = Some idx\<rparr>)"
        using kept stays(1,3) by (auto simp: m_def bnd_eq_Ret split: outcome.splits)
          (metis snd_conv)
      moreover have "ask D q (PyCapsule (data_capsule b d))
          = (verdict D b (bnd (parse_result D b) (\<lambda>(p, idx). Ret p)) q,
             PyCapsule (data_capsule b (case m of Ret (n, q') \<Rightarrow> \<lparr>pco = Some q', comps = Some idx\<rparr> | _ \<Rightarrow> \<lparr>pco = Some s, comps = Some idx\<rparr>)))"
        using get pr same True Matches c
        by (cases "interest_get_pi D c"; cases "fst (interest_get_pi D c)"; cases "get_charbuf D INTEREST i")
          (simp_all add: question_defs m_def Let_def case_prod_beta)
      ultimately show ?thesis
        by blast
    next
      case False
      then show ?thesis
        using assms(2) Matches by (cases i) (auto simp: question_defs)
    qed
  next
    case (Verify_content h)
    then show ?thesis
      using get kept stays(1) pr same assms(2) by (cases "the_handle D h") (auto simp: question_defs Let_def)
  next
    case (Verify_signature k)
    then show ?thesis
      using get kept stays(1) pr same assms(2) by (cases "get_pkey D PKEY_PUB k") (auto simp: question_defs Let_def)
  qed
next
  case (Raise e)
  have "d = \<lparr>pco = None, comps = None\<rparr> \<and> content_object_get_pco D (data_capsule b d) = (Raise e, data_capsule b d)"
    using get_pco_capsule [OF assms(2)] unfolding Raise outcome.case .
  then have "content_object_get_pco D (data_capsule b d) = (Raise e, data_capsule b d)" ..
  then show ?thesis
    using Raise assms
    by (cases q) (auto simp: question_defs Let_def dest: has_type_capsule split: pyval.splits prod.splits outcome.splits)
qed (use get_pco_capsule [OF assms(2)] in simp_all)

lemma asks_state:
  "digest_cache D \<Longrightarrow> data_state D b d
   \<Longrightarrow> asks D qs (PyCapsule (data_capsule b d)) = map (verdict D b (bnd (parse_result D b) (\<lambda>(p, idx). Ret p))) qs"
proof (induction qs arbitrary: d)
  case (Cons q qs)
  obtain d' where "ask D q (PyCapsule (data_capsule b d))
      = (verdict D b (bnd (parse_result D b) (\<lambda>(p, idx). Ret p)) q, PyCapsule (data_capsule b d'))" "data_state D b d'"
    using ask_step [OF Cons.prems] by blast
  then show ?case
    using Cons.IH [OF Cons.prems(1)] by simp
qed simp

subsection \<open>The parts of a packet\<close>

text \<open>
  \<open>packet_of\<close>: the library finds these parts in a packet \<open>b\<close>, where its parse \<open>p\<close> says they are.
\<close>

definition packet_of ::
    "'e datalib_scheme \<Rightarrow> bytes \<Rightarrow> parsed_data \<Rightarrow> bytes \<Rightarrow> bytes \<Rightarrow> bytes \<Rightarrow> bytes \<Rightarrow> bool" where
  "packet_of D b p name content sg si \<longleftrightarrow>
     0 < name_ncomps p
     \<and> pco_slice b p NDN_PCO_B_Name NDN_PCO_E_Name = Ret name
     \<and> pco_slice b p NDN_PCO_B_Signature NDN_PCO_E_Signature = Ret sg
     \<and> pco_slice b p NDN_PCO_B_SignedInfo NDN_PCO_E_SignedInfo = Ret si
     \<and> Content_from_ndn_parsed D b p = Ret (PyBytes content)"

definition data_obj :: "bytes list \<Rightarrow> bytes \<Rightarrow> signed_info_fields \<Rightarrow> signature_fields \<Rightarrow> pyval \<Rightarrow> pyval" where
  "data_obj cs content f g wire =
     PyInst ''Data''
       [(''name'', name_obj cs), (''content'', PyBytes content), (''signedInfo'', signed_info_obj f),
        (''signature'', signature_obj g), (''ndn_data'', wire), (''digestAlgorithm'', PyNone)]"

lemma copy_part_box:
  assumes "buffer_writer L" "allocs_ok L" "ty \<in> set charbuf_types" "pco_slice b p i j = Ret x"
  shows "bnd (copy_part L ty b p i j) k = k (box ty x)"
  using New_charbuf_ok [OF assms(3,2), of k x] assms(4) buffer_writer.append [OF assms(1)]
  by (simp add: copy_part_def outcome_simps)

lemma signature_decodes:
  assumes "element_decoder L at_rest" "signature_tags L" "signature_ok g" "g_bits g \<noteq> None"
  shows "Signature_obj_from_ndn L (box SIGNATURE (signature_wire L g)) = Ret (signature_obj g)"
  using element_decoder.read_signature_wire [OF assms(1) element_decoder.start [OF assms(1)] assms(3,2)] assms(4)
  by (simp add: Signature_obj_from_ndn_def partial_signature_set)

text \<open>Signed information in a packet: its fields, the time among them.\<close>

definition stamped_wire :: "'e codec_scheme \<Rightarrow> bytes \<Rightarrow> signed_info_fields \<Rightarrow> bytes" where
  "stamped_wire L ts f =
     signed_info_wire L (s_digest f) ts (s_type f) (fresh_arg (s_fresh f)) (map_option ndnb_blob (s_final f))
       (map_option (\<lambda>cs. locator_wire L NDN_DTAG_KeyName (name_wire cs)) (s_locator f))"

lemma data_decodes:
  assumes "name_library D" "buffer_writer D" "element_decoder D at_rest" "allocs_ok D"
    and "signature_tags D" "signed_info_tags D"
    and "\<forall>c \<in> set cs. length (component_wire c) < 2 ^ 31" "signature_ok g" "g_bits g \<noteq> None"
    and "signed_info_ok f" "ts \<noteq> []"
    and "parse_result D b = Ret (p, idx)"
    and "packet_of D b p (name_wire cs) content (signature_wire D g) (stamped_wire D ts f)"
  shows "Data_obj_from_ndn D (box CONTENT_OBJECT b)
    = (Ret (data_obj cs content (recovered ts f) g (PyCapsule (data_capsule b \<lparr>pco = Some p, comps = Some idx\<rparr>))),
       PyCapsule (data_capsule b \<lparr>pco = Some p, comps = Some idx\<rparr>))"
proof -
  let ?c = "data_capsule b \<lparr>pco = Some p, comps = Some idx\<rparr>"
  have get: "content_object_get_pco D (data_capsule b \<lparr>pco = None, comps = None\<rparr>) = (Ret p, ?c)"
    "content_object_get_pco D ?c = (Ret p, ?c)"
    using assms(12)
    by (auto simp: content_object_get_pco_def data_get_def parse_Data_def with_data_def parse_result_def
        split: prod.splits if_splits)
  note parts = assms(13) [unfolded packet_of_def] and
    copy = copy_part_box [OF assms(2,4), unfolded charbuf_types_def]
  have name: "Name_obj_from_ndn_parsed D ?c = (Ret (name_obj cs), ?c)"
    using get(2) parts name_library.name_from_box [OF assms(1) _ assms(7)] assms(4)
    by (simp add: Name_obj_from_ndn_parsed_def copy)
  show ?thesis
    using get(1) name parts signature_decodes [OF assms(3,5,8,9)]
      signed_info_decodes [OF assms(1-4,6,10,11), folded stamped_wire_def]
    by (simp add: Data_obj_from_ndn_def box_data fill_data_def copy new_Data_def data_obj_def caches_wire_def)
qed

subsection \<open>Signing\<close>

definition unsigned_data :: "bytes list \<Rightarrow> pyval \<Rightarrow> signed_info_fields \<Rightarrow> pyval" where
  "unsigned_data cs content f =
     PyInst ''Data''
       [(''name'', name_obj cs), (''content'', content), (''signedInfo'', signed_info_obj f),
        (''signature'', PyNone), (''ndn_data'', PyNone)]"

lemma signed_info_of_const: "signed_info_ndn_data D (PyConst v) = signed_info_ndn_data D v"
  by (simp add: signed_info_ndn_data_def cong: if_cong)

text \<open>Signing hands the wire forms of name and signed information and the content to the encoder.\<close>

lemma data_sign_args:
  assumes "name_library D" "buffer_writer D" "allocs_ok D" "creates_signed_info D ts"
    and "signed_info_ok f" "s_time f = None"
  shows "data_sign D (unsigned_data cs v f) py_key
    = bnd (cmd_encode_Data D [unsigned_data cs v f, box NAME (name_wire cs), v, box SIGNED_INFO (stamped_wire D ts f), py_key])
        (\<lambda>wire. py_setattr (unsigned_data cs v f) ''ndn_data'' wire)"
  using name_data_of_obj [OF assms(1,3)] signed_info_encodes [OF assms]
  by (simp add: data_sign_def unsigned_data_def signed_info_of_const stamped_wire_def)

lemma encode_ok:
  assumes "allocs_ok D" "tp_name py_key = ''Key''" "Key_to_ndn_private D py_key = Ret key"
    and "d_encode_content D name si content key = (0, b)"
  shows "cmd_encode_Data D [unsigned_data cs v f, box NAME name, PyBytes content, box SIGNED_INFO si, py_key]
    = Ret (box CONTENT_OBJECT b)"
proof -
  have "fst (NDNObject_New D CONTENT_OBJECT (P_Charbuf b)) = Ret (data_capsule b \<lparr>pco = None, comps = None\<rparr>)"
    using assms(1) by (simp add: NDNObject_New_def data_capsule_def)
  then show ?thesis
    using assms
    by (simp add: cmd_encode_Data_def the_charbuf_def content_arg_def unsigned_data_def jump_if_null_mem_def
        flip: box_data)
qed

lemma dump_packet:
  "cmd_dump_charbuf D (box CONTENT_OBJECT b) = Ret (PyBytes b)"
  "cmd_dump_charbuf D (PyCapsule (data_capsule b d)) = Ret (PyBytes b)"
  using dump_box [of CONTENT_OBJECT D b]
  by (simp_all add: charbuf_types_def cmd_dump_charbuf_def first_valid_spec dump_types_def)

text \<open>What the sender's side of a packet gives, and what the receiver makes of the bytes.\<close>

lemma data_sent:
  assumes "name_library D" "buffer_writer D" "allocs_ok D"
    and "creates_signed_info D ts" "signed_info_ok f" "s_time f = None"
    and "tp_name py_key = ''Key''" "Key_to_ndn_private D py_key = Ret key"
    and "d_encode_content D (name_wire cs) (stamped_wire D ts f) content key = (0, b)"
  shows "\<exists>obj. data_sign D (unsigned_data cs (PyBytes content) f) py_key = Ret obj
    \<and> data_toWire D obj = Ret (PyBytes b)"
  using data_sign_args [OF assms(1-6), of cs "PyBytes content"] encode_ok [OF assms(3,7-9), of cs "PyBytes content" f]
    dump_packet(1) [of D b]
  by (simp add: data_toWire_def data_ndn_data_def unsigned_data_def box_data)

lemma data_received:
  assumes "name_library D" "buffer_writer D" "element_decoder D at_rest" "allocs_ok D"
    and "signature_tags D" "signed_info_tags D"
    and "\<forall>c \<in> set cs. length (component_wire c) < 2 ^ 31" "signature_ok g" "g_bits g \<noteq> None"
    and "signed_info_ok f" "ts \<noteq> []"
    and "parse_result D b = Ret (p, idx)"
    and "packet_of D b p (name_wire cs) content (signature_wire D g) (stamped_wire D ts f)"
  shows "\<exists>wire. cmd_Data_obj_from_ndn_buffer D (PyBytes b) = Ret (data_obj cs content (recovered ts f) g wire)
    \<and> data_toWire D (data_obj cs content (recovered ts f) g wire) = Ret (PyBytes b)"
proof -
  have "cmd_Data_obj_from_ndn_buffer D (PyBytes b) = fst (Data_obj_from_ndn D (box CONTENT_OBJECT b))"
    using New_charbuf_ok [of CONTENT_OBJECT D "\<lambda>v. fst (Data_obj_from_ndn D v)" b] assms(4)
      buffer_writer.append [OF assms(2)]
    by (simp add: cmd_Data_obj_from_ndn_buffer_def Data_obj_from_ndn_buffer_def charbuf_types_def)
  then show ?thesis
    using data_decodes [OF assms] dump_packet(2)
    by (simp add: data_toWire_def data_ndn_data_def data_obj_def box_data)
qed

subsection \<open>A library with packets\<close>

text \<open>
  An instance of the packet functions: three length bytes, then name, signature, signed
  information and content.
\<close>

definition demo_signature :: signature_fields where
  "demo_signature = \<lparr>g_algorithm = None, g_witness = None, g_bits = Some [1]\<rparr>"

definition demo_encode :: "bytes \<Rightarrow> bytes \<Rightarrow> bytes \<Rightarrow> nat option \<Rightarrow> int \<times> bytes" where
  "demo_encode name si content key =
     (let sg = signature_wire demo_codec demo_signature in
      (0, [of_nat (length name), of_nat (length sg), of_nat (length si)] @ name @ sg @ si @ content))"

definition demo_parse :: "bytes \<Rightarrow> int \<times> parsed_data \<times> nat list" where
  "demo_parse b =
     (case b of
        x # y # z # _ \<Rightarrow>
          (let n = 3 + unat x; s = n + unat y; i = s + unat z in
           (if i \<le> length b then 0 else - 1,
            \<lparr>pco_offset = (\<lambda>k. case k of
                 NDN_PCO_B_Name \<Rightarrow> 3 | NDN_PCO_E_Name \<Rightarrow> n
               | NDN_PCO_B_Signature \<Rightarrow> n | NDN_PCO_E_Signature \<Rightarrow> s
               | NDN_PCO_B_SignedInfo \<Rightarrow> s | NDN_PCO_E_SignedInfo \<Rightarrow> i
               | NDN_PCO_E \<Rightarrow> length b),
             name_ncomps = 1, digest = []\<rparr>, [3, n]))
      | _ \<Rightarrow> (- 1, zero_pco, []))"

definition demo_digest :: "bytes \<Rightarrow> parsed_data \<Rightarrow> bytes" where
  "demo_digest b p = (if digest p = [] then [of_nat (length b)] else digest p)"

definition demo_packets :: datalib where
  "demo_packets =
     demo_datalib
       \<lparr>l_parse_data := demo_parse, d_encode_content := demo_encode,
        d_content_get_value := (\<lambda>b p. (0, pco_offset p NDN_PCO_E_SignedInfo,
          pco_offset p NDN_PCO_E - pco_offset p NDN_PCO_E_SignedInfo)),
        d_digest_content := demo_digest,
        d_content_matches_interest := (\<lambda>b p x i.
          (if demo_digest b p = x then 1 else 0, p\<lparr>digest := demo_digest b p\<rparr>))\<rparr>"

lemma demo_packets_ndnb:
  "writes_ndnb demo_packets" "names_ndnb demo_packets" "decodes_ndnb demo_packets" "allocs_ok demo_packets"
  "signed_info_tags demo_packets" "signature_tags demo_packets"
  by (simp_all add: demo_packets_def demo_datalib_def keylib.defs datalib.defs demo_keylib_def codec.defs demo_codec_def
      ndnlib.defs ndnb_lib_def writes_ndnb_def names_ndnb_def decodes_ndnb_def allocs_ok_def signed_info_tags_def
      signature_tags_def)

interpretation demo_packets: digest_cache demo_packets
  by unfold_locales
    (auto simp: demo_packets_def demo_datalib_def keylib.defs datalib.defs demo_digest_def demo_parse_def
      Let_def zero_pco_def split: list.splits if_splits)

lemmas demo_packets_laws =
  writes_ndnb_writer [OF demo_packets_ndnb(1)] names_ndnb_library [OF demo_packets_ndnb(2)]
  decodes_ndnb_decoder [OF demo_packets_ndnb(3)] demo_packets_ndnb(4)

lemma demo_packets_wires:
  "signed_info_wire demo_packets = signed_info_wire demo_codec" "signature_wire demo_packets = signature_wire demo_codec"
proof -
  have "l_dtag demo_packets = l_dtag demo_codec" "l_udata demo_packets = l_udata demo_codec"
    using demo_packets_ndnb(1) demo_codec_ndnb(1) by (simp_all add: writes_ndnb_def)
  then show "signed_info_wire demo_packets = signed_info_wire demo_codec"
    "signature_wire demo_packets = signature_wire demo_codec"
    by (intro ext; simp add: signed_info_wire_def type_wire_def fresh_wire_def number_wire_def signature_wire_def
        signature_body_def split: option.split)+
qed

lemma demo_packets_creates: "creates_signed_info demo_packets [9, 9]"
  using demo_packets_wires(1)
  by (simp add: creates_signed_info_def demo_packets_def demo_datalib_def keylib.defs datalib.defs demo_signed_info_def)

lemma demo_packet:
  assumes "length name < 256" "length si < 256" "demo_encode name si content key = (r, b)"
  shows "\<exists>p. parse_result demo_packets b = Ret (p, [3, 3 + length name])
    \<and> packet_of demo_packets b p name content (signature_wire demo_packets demo_signature) si"
proof -
  let ?sg = "signature_wire demo_codec demo_signature"
  have sg: "length ?sg < 256"
    by (simp add: signature_wire_def signature_body_def demo_signature_def ndnb_dtag_def opt_blob_wire_def
        ndnb_encode_def high_groups.simps demo_codec_def codec.defs ndnb_lib_def ndnlib.defs
        tagged_blob_wire_def ndnb_blob_def NDN_DTAG_def NDN_BLOB_def)
  have u: "unat (of_nat (length name) :: byte) = length name" "unat (of_nat (length ?sg) :: byte) = length ?sg"
    "unat (of_nat (length si) :: byte) = length si"
    using assms(1,2) sg by (simp_all add: unat_of_nat_small)
  obtain p where p: "demo_parse b = (0, p, [3, 3 + length name])"
    "pco_offset p = (\<lambda>k. case k of
                 NDN_PCO_B_Name \<Rightarrow> 3 | NDN_PCO_E_Name \<Rightarrow> 3 + length name
               | NDN_PCO_B_Signature \<Rightarrow> 3 + length name | NDN_PCO_E_Signature \<Rightarrow> 3 + length name + length ?sg
               | NDN_PCO_B_SignedInfo \<Rightarrow> 3 + length name + length ?sg
               | NDN_PCO_E_SignedInfo \<Rightarrow> 3 + length name + length ?sg + length si
               | NDN_PCO_E \<Rightarrow> length b)" "name_ncomps p = 1"
    using assms(3) u by (auto simp: demo_encode_def demo_parse_def Let_def)
  have lib: "l_parse_data demo_packets = demo_parse" "mem demo_packets a"
    "d_content_get_value demo_packets b p = (0, pco_offset p NDN_PCO_E_SignedInfo,
       pco_offset p NDN_PCO_E - pco_offset p NDN_PCO_E_SignedInfo)" for a
    using allocs_okD [OF demo_packets_ndnb(4)] by (simp_all add: demo_packets_def del: allocs_okD)
  define h :: bytes where "h = [of_nat (length name), of_nat (length ?sg), of_nat (length si)]"
  have b: "b = h @ name @ ?sg @ si @ content" and h: "length h = 3"
    using assms(3) by (simp_all add: demo_encode_def Let_def h_def)
  have read: "mem_read b 3 (length name) = Ret name"
    "mem_read b (3 + length name) (length ?sg) = Ret ?sg"
    "mem_read b (3 + length name + length ?sg) (length si) = Ret si"
    "mem_read b (3 + length name + length ?sg + length si)
       (length b - (3 + length name + length ?sg + length si)) = Ret content"
    using mem_read_mid [of h 3 name _ "?sg @ si @ content"] mem_read_mid [of "h @ name" _ ?sg _ "si @ content"]
      mem_read_mid [of "h @ name @ ?sg" _ si _ content] mem_read_mid [of "h @ name @ ?sg @ si" _ content _ "[]"] h
    by (simp_all add: b add.assoc)
  show ?thesis
    using p lib read demo_packets_wires(2)
    by (auto simp: parse_result_def packet_of_def pco_slice_def Content_from_ndn_parsed_def)
qed

subsection \<open>Properties\<close>

text \<open>
  C5. A packet goes over the wire: a \<^verbatim>\<open>Data\<close> that is signed, turned into bytes and decoded gives
  its name and content, its signed information with the time and without a freshness of zero, and
  the signature the library made; the decoded object keeps the bytes it was decoded from.
\<close>

theorem data_roundtrip:
  assumes "name_library D" "buffer_writer D" "element_decoder D at_rest" "allocs_ok D"
    and "signature_tags D" "signed_info_tags D" "creates_signed_info D ts"
    and "\<forall>c \<in> set cs. length (component_wire c) < 2 ^ 31" "signed_info_ok f" "s_time f = None"
    and "signature_ok g" "g_bits g \<noteq> None"
    and "tp_name py_key = ''Key''" "Key_to_ndn_private D py_key = Ret key"
    and "d_encode_content D (name_wire cs) (stamped_wire D ts f) content key = (0, b)"
    and "parse_result D b = Ret (p, idx)"
    and "packet_of D b p (name_wire cs) content (signature_wire D g) (stamped_wire D ts f)"
  shows "\<exists>wire. bnd (data_sign D (unsigned_data cs (PyBytes content) f) py_key)
        (\<lambda>obj. bnd (data_toWire D obj) (cmd_Data_obj_from_ndn_buffer D))
      = Ret (data_obj cs content (recovered ts f) g wire)
    \<and> data_toWire D (data_obj cs content (recovered ts f) g wire) = Ret (PyBytes b)"
  using data_sent [OF assms(1,2,4,7,9,10,13-15)] data_received [OF assms(1-6,8,11,12,9) _ assms(16,17)] assms(7)
  by (auto simp: creates_signed_info_def)

text \<open>
  C9. The parsed form a capsule keeps is never noticed, although digesting and matching store a digest in it
  that the library reuses: what is kept is always the parse of the packet's bytes, without a
  digest or with the one the library computes for them, so that, however many questions were asked before,
  each is answered as over a fresh parse. A packet that cannot be parsed fails every
  question about it. A packet shorter or longer than its parse says is refused with
  \<^verbatim>\<open>ValueError\<close> when digested, stops a build with assertions when its content is verified, and
  passes unnoticed in the other two questions.
\<close>

theorem packet_questions:
  assumes "digest_cache D"
  shows "asks D qs (box CONTENT_OBJECT b)
    = map (verdict D b (bnd (parse_result D b) (\<lambda>(p, idx). Ret p))) qs"
  using asks_state [OF assms data_state_fresh] by (simp add: box_data)

text \<open>
  The two conversions of content agree on everything that is not a container or an object:
  \<^verbatim>\<open>content_to_bytearray\<close> is \<^verbatim>\<open>content_to_bytes\<close> as a \<^verbatim>\<open>bytearray\<close>. On a list or a tuple
  they do not: one takes the items, the other what \<^verbatim>\<open>str()\<close> prints.
\<close>

theorem content_conversions:
  "cmd_content_to_bytearray D arg =
     (case arg of
        PyList xs \<Rightarrow> bnd (traverse byte_value xs) (\<lambda>b. Ret (PyByteArray b))
      | PyTuple xs \<Rightarrow> bnd (traverse byte_value xs) (\<lambda>b. Ret (PyByteArray b))
      | PyCapsule c \<Rightarrow> Raise TypeError
      | PyInst cls attrs \<Rightarrow> bytearray_from arg
      | PyConst v \<Rightarrow> bytearray_from arg
      | _ \<Rightarrow> bnd (cmd_content_to_bytes D arg) (\<lambda>v. case v of PyBytes b \<Rightarrow> Ret (PyByteArray b) | _ \<Rightarrow> Ret v))
   \<and> cmd_content_to_bytes D (PyList xs) = d_object_str D (PyList xs)"
  by (cases arg) (simp_all add: cmd_content_to_bytearray_def cmd_content_to_bytes_def bytearray_from_def)

text \<open>
  Content other than a byte string is accepted when it is assigned, kept as it is, and makes
  signing fail: what assigning converts it to is overwritten by the value itself.
\<close>

theorem content_must_be_bytes:
  assumes "name_library D" "buffer_writer D" "allocs_ok D" "creates_signed_info D ts"
    and "signed_info_ok f" "s_time f = None" "is_number v"
  shows "data_set_content D (unsigned_data cs (PyBytes x) f) v = Ret (unsigned_data cs v f)
    \<and> data_sign D (unsigned_data cs v f) py_key = Raise TypeError"
proof
  show "data_set_content D (unsigned_data cs (PyBytes x) f) v = Ret (unsigned_data cs v f)"
    using assms(7) by (cases v) (simp_all add: data_set_content_def cmd_content_to_bytes_def unsigned_data_def caches_wire_def)
  have "content_arg v = Raise TypeError"
    using assms(7) by (cases v) (simp_all add: content_arg_def)
  then show "data_sign D (unsigned_data cs v f) py_key = Raise TypeError"
    using data_sign_args [OF assms(1-6)]
    by (simp add: cmd_encode_Data_def the_charbuf_def)
qed

theorem content_must_be_bytes_witness:
  "data_set_content demo_packets (unsigned_data [[7]] (PyBytes [1]) sample_signed_info) (PyInt 5)
     = Ret (unsigned_data [[7]] (PyInt 5) sample_signed_info)
   \<and> data_sign demo_packets (unsigned_data [[7]] (PyInt 5) sample_signed_info) new_Key = Raise TypeError"
  by (rule content_must_be_bytes [OF demo_packets_laws(2,1,4) demo_packets_creates])
    (simp_all add: sample_signed_info_def signed_info_ok_def component_wire_eq ndnb_encode_def high_groups.simps NDN_BLOB_def)

text \<open>The interest names the packet by its digest, and was parsed before.\<close>

definition asked_interest :: pyval where
  "asked_interest =
     PyCapsule \<lparr>cap_pointer = P_Charbuf [3], cap_name = Some (capsule_name INTEREST),
       cap_context = InterestContext \<lparr>pi = Some zero_pi\<rparr>, cap_owned = True\<rparr>"

theorem packet_questions_witness:
  "asks demo_packets [Verify_content PyNone, Digest, Matches asked_interest, Digest] (box CONTENT_OBJECT [0, 0, 0])
   = [Raise TypeError, Ret (PyBytes [3]), Ret (PyBool True), Ret (PyBytes [3])]"
  using packet_questions [OF demo_packets.digest_cache_axioms,
      of "[Verify_content PyNone, Digest, Matches asked_interest, Digest]" "[0, 0, 0]"] demo_packets_ndnb(4)
  by (simp add: parse_result_def the_handle_def has_type_def capsule_is_valid_def asked_interest_def
      interest_get_pi_def get_charbuf_def NDNObject_Get_def)
    (simp add: demo_packets_def demo_parse_def demo_datalib_def demo_digest_def keylib.defs datalib.defs)

theorem data_roundtrip_witness:
  "\<exists>obj wire b. data_sign demo_packets (unsigned_data [[7]] (PyBytes [5]) sample_signed_info)
        (PyInst ''Key'' [(''ndn_data_private'', key_box PKEY_PRIV 4)]) = Ret obj
    \<and> bnd (data_toWire demo_packets obj) (cmd_Data_obj_from_ndn_buffer demo_packets)
      = Ret (data_obj [[7]] [5] (sample_signed_info\<lparr>s_time := Some [9, 9], s_fresh := None\<rparr>) demo_signature wire)
    \<and> data_toWire demo_packets (data_obj [[7]] [5] (sample_signed_info\<lparr>s_time := Some [9, 9], s_fresh := None\<rparr>) demo_signature wire)
      = Ret (PyBytes b)"
proof -
  let ?si = "stamped_wire demo_packets [9, 9] sample_signed_info"
  obtain b where b: "demo_encode (name_wire [[7]]) ?si [5] (Some 4) = (0, b)"
    by (simp add: demo_encode_def Let_def)
  have tags: "l_dtag demo_packets = nl_dtag" "l_dtag demo_codec = nl_dtag"
    using demo_packets_ndnb(1) demo_codec_ndnb(1) by (simp_all add: writes_ndnb_def ndnb_lib_def)
  have len: "length (name_wire [[7]]) < 256" "length ?si < 256"
    by (simp_all add: name_wire_eq component_wire_eq ndnb_encode_def high_groups.simps NDN_BLOB_def NDN_DTAG_def Let_def
        stamped_wire_def demo_packets_wires(1) sample_signed_info_def signed_info_wire_def ndnb_dtag_def tags
        tagged_blob_wire_def ndnb_blob_def type_wire_def type_code_def fresh_wire_def fresh_arg_def locator_wire_def
        NDN_CONTENT_DATA_def)
  obtain p where p: "parse_result demo_packets b = Ret (p, [3, 3 + length (name_wire [[7]])])"
    "packet_of demo_packets b p (name_wire [[7]]) [5] (signature_wire demo_packets demo_signature) ?si"
    using demo_packet [OF len b] by blast
  have enc: "d_encode_content demo_packets (name_wire [[7]]) ?si [5] (Some 4) = (0, b)"
    using b by (simp add: demo_packets_def)
  have key: "Key_to_ndn_private demo_packets (PyInst ''Key'' [(''ndn_data_private'', key_box PKEY_PRIV 4)]) = Ret (Some 4)"
    by (simp add: Key_to_ndn_private_def NDNObject_Get_def) (simp add: key_box_def)
  show ?thesis
    using data_roundtrip [OF demo_packets_laws(2,1,3,4) demo_packets_ndnb(6,5) demo_packets_creates _ _ _ _ _ _ key enc p]
    by (auto simp: sample_signed_info_def signed_info_ok_def component_wire_eq ndnb_encode_def high_groups.simps
        NDN_BLOB_def demo_signature_def signature_ok_def recovered_def bnd_eq_Ret)
qed

end
