(* ===== verification/HandleM.thy ===== *)
theory HandleM
  imports DataM TypeTable
begin

section \<open>Handles and callbacks: csrc/methods\_handle.c\<close>

text \<open>
  The commands on a handle, and the callbacks libndn makes into Python: what a callback is
  handed, its result, and how long the capsule behind it and the Python closure live. The list
  of handles inside \<^verbatim>\<open>ndn_run\<close> is in theory \<open>RunState\<close>.
\<close>

text \<open>
  The functions of libndn on handles. \<open>h_keystore\<close> is the status of opening the keystore and
  its private key, \<open>h_default_name\<close> the status and the name
  \<^verbatim>\<open>ndn_get_public_key_and_name\<close> gives, \<open>h_is_closure\<close> the interpreter's \<^verbatim>\<open>isinstance\<close>
  for the class \<^verbatim>\<open>Closure\<close>.
\<close>

record handlelib = datalib +
  h_create :: "nat option"
  h_connect :: "nat \<Rightarrow> int"
  h_disconnect :: "nat \<Rightarrow> int"
  h_defer :: "nat \<Rightarrow> int \<Rightarrow> int"
  h_connection_fd :: "nat \<Rightarrow> int"
  h_process_scheduled :: "nat \<Rightarrow> int"
  h_output_pending :: "nat \<Rightarrow> int"
  h_set_run_timeout :: "nat \<Rightarrow> int \<Rightarrow> int"
  h_express_interest :: "nat \<Rightarrow> bytes \<Rightarrow> bytes option \<Rightarrow> int"
  h_set_filter :: "nat \<Rightarrow> bytes \<Rightarrow> int \<Rightarrow> int"
  h_clear_filter :: "nat \<Rightarrow> bytes \<Rightarrow> int"
  h_forw_flags :: int
  h_get :: "nat \<Rightarrow> bytes \<Rightarrow> bytes option \<Rightarrow> int \<Rightarrow> int \<times> bytes \<times> parsed_data \<times> nat list"
  h_put :: "nat \<Rightarrow> bytes \<Rightarrow> int"
  h_geterror :: "nat \<Rightarrow> int"
  h_putf_home :: int
  h_keystore_create :: bool
  h_keystore :: "int \<times> nat option"
  h_default_name :: "int \<times> bytes"
  h_is_closure :: "pyval \<Rightarrow> bool"

subsection \<open>Commands on a handle\<close>

definition cmd_create :: "'e handlelib_scheme \<Rightarrow> pyval outcome" where
  "cmd_create H =
     (case h_create H of
        None \<Rightarrow> Raise NDNError
      | Some h \<Rightarrow> bnd (fst (NDNObject_New H HANDLE (P_Handle h))) (\<lambda>c. Ret (PyCapsule c)))"

definition cmd_connect :: "'e handlelib_scheme \<Rightarrow> pyval \<Rightarrow> pyval outcome" where
  "cmd_connect H py_ndn_handle =
     bnd (the_handle H py_ndn_handle) (\<lambda>handle.
       let r = h_connect H handle in if r < 0 then Raise NDNError else Ret (PyInt r))"

definition cmd_disconnect :: "'e handlelib_scheme \<Rightarrow> pyval \<Rightarrow> pyval outcome" where
  "cmd_disconnect H py_ndn_handle =
     bnd (the_handle H py_ndn_handle) (\<lambda>handle.
       if h_disconnect H handle < 0 then Raise NDNError else Ret PyNone)"

text \<open>A handle and an optional integer (\<^verbatim>\<open>"O|i"\<close>).\<close>

definition handle_int_args :: "int \<Rightarrow> pyval list \<Rightarrow> (pyval \<times> int) outcome" where
  "handle_int_args dflt args =
     (case args of
        [h] \<Rightarrow> Ret (h, dflt)
      | [h, t] \<Rightarrow> bnd (arg_int t) (\<lambda>n. Ret (h, n))
      | _ \<Rightarrow> Raise TypeError)"

definition cmd_defer_verification :: "'e handlelib_scheme \<Rightarrow> pyval list \<Rightarrow> pyval outcome" where
  "cmd_defer_verification H args =
     bnd (handle_int_args 1 args) (\<lambda>(py_handle, deferral).
     bnd (the_handle H py_handle) (\<lambda>handle.
       if h_defer H handle deferral < 0 then Raise NDNError else Ret PyNone))"

definition get_connection_fd :: "'e handlelib_scheme \<Rightarrow> pyval \<Rightarrow> pyval outcome" where
  "get_connection_fd H py_handle = bnd (the_handle H py_handle) (\<lambda>h. Ret (PyInt (h_connection_fd H h)))"

definition cmd_process_scheduled_operations :: "'e handlelib_scheme \<Rightarrow> pyval \<Rightarrow> pyval outcome" where
  "cmd_process_scheduled_operations H py_handle =
     bnd (the_handle H py_handle) (\<lambda>h. Ret (PyInt (h_process_scheduled H h)))"

definition cmd_output_is_pending :: "'e handlelib_scheme \<Rightarrow> pyval \<Rightarrow> pyval outcome" where
  "cmd_output_is_pending H py_handle =
     bnd (the_handle H py_handle) (\<lambda>h. Ret (PyBool (h_output_pending H h \<noteq> 0)))"

definition cmd_set_run_timeout :: "'e handlelib_scheme \<Rightarrow> pyval list \<Rightarrow> pyval outcome" where
  "cmd_set_run_timeout H args =
     bnd (handle_int_args 0 args) (\<lambda>(py_handle, timeoutms).
     bnd (the_handle H py_handle) (\<lambda>handle. Ret (PyInt (h_set_run_timeout H handle timeoutms))))"

text \<open>
  The default key and its name. The second makes two handles and uses the second one; a handle
  that could not be made is handed to the library as \<^verbatim>\<open>NULL\<close>.
\<close>

definition cmd_get_default_key :: "'e handlelib_scheme \<Rightarrow> pyval outcome" where
  "cmd_get_default_key H =
     jump_if_null_mem (mem H A_charbuf)
      (jump_if_neg_mem (h_putf_home H)
        (jump_if_null_mem (h_keystore_create H)
          (if fst (h_keystore H) < 0 then Raise NDNError
           else case snd (h_keystore H) of
                  None \<Rightarrow> c_assert H False Undef
                | Some key \<Rightarrow> bnd (pyndn_privatekey_dup H key) (Key_obj_from_ndn H))))"

definition cmd_get_default_key_name :: "'e handlelib_scheme \<Rightarrow> pyval outcome" where
  "cmd_get_default_key_name H =
     jump_if_null_mem (mem H A_charbuf)
      (bnd (fst (NDNObject_New H NAME (P_Charbuf []))) (\<lambda>c.
        if h_create H = None then Undef
        else (let (r, name) = h_default_name H in
              if r < 0 then Raise MemoryError else Name_obj_from_ndn H (fill c name))))"

subsection \<open>What a callback is handed\<close>

datatype upcall_kind =
    UPCALL_FINAL | UPCALL_INTEREST | UPCALL_CONSUMED_INTEREST | UPCALL_CONTENT
  | UPCALL_INTEREST_TIMED_OUT | UPCALL_CONTENT_UNVERIFIED | UPCALL_CONTENT_BAD
  | UPCALL_CONTENT_KEYMISSING | UPCALL_CONTENT_RAW

fun kind_code :: "upcall_kind \<Rightarrow> int" where
  "kind_code UPCALL_FINAL = 0"
| "kind_code UPCALL_INTEREST = 1"
| "kind_code UPCALL_CONSUMED_INTEREST = 2"
| "kind_code UPCALL_CONTENT = 3"
| "kind_code UPCALL_INTEREST_TIMED_OUT = 4"
| "kind_code UPCALL_CONTENT_UNVERIFIED = 5"
| "kind_code UPCALL_CONTENT_BAD = 6"
| "kind_code UPCALL_CONTENT_KEYMISSING = 7"
| "kind_code UPCALL_CONTENT_RAW = 8"

text \<open>\<^verbatim>\<open>struct ndn_upcall_info\<close>: what the module reads of it.\<close>

record upcall_info =
  ui_matched_comps :: int
  ui_content :: bytes
  ui_pco :: parsed_data
  ui_interest :: bytes
  ui_pi :: parsed_interest

definition has_content :: "upcall_kind \<Rightarrow> bool" where
  "has_content kind \<longleftrightarrow>
     kind \<in> set [UPCALL_CONTENT, UPCALL_CONTENT_UNVERIFIED, UPCALL_CONTENT_BAD, UPCALL_CONTENT_KEYMISSING, UPCALL_CONTENT_RAW]"

definition has_interest :: "upcall_kind \<Rightarrow> bool" where
  "has_interest kind \<longleftrightarrow>
     kind \<in> set [UPCALL_INTEREST, UPCALL_CONSUMED_INTEREST, UPCALL_CONTENT, UPCALL_INTEREST_TIMED_OUT,
       UPCALL_CONTENT_UNVERIFIED, UPCALL_CONTENT_BAD, UPCALL_CONTENT_KEYMISSING, UPCALL_CONTENT_RAW]"

definition add_data :: "'e datalib_scheme \<Rightarrow> upcall_info \<Rightarrow> pyval \<Rightarrow> pyval outcome" where
  "add_data D ui obj =
     bnd (NDNObject_New_charbuf D CONTENT_OBJECT) (\<lambda>c.
     bnd (mem_read (ui_content ui) 0 (pco_offset (ui_pco ui) NDN_PCO_E)) (\<lambda>x.
     try_mem (l_append D [] x) (\<lambda>b.
     bnd (fst (Data_obj_from_ndn D (fill c b))) (\<lambda>py_o. py_setattr obj ''Data'' py_o))))"

definition add_interest :: "'e datalib_scheme \<Rightarrow> upcall_info \<Rightarrow> pyval \<Rightarrow> pyval outcome" where
  "add_interest D ui obj =
     bnd (NDNObject_New_charbuf D INTEREST) (\<lambda>c.
     bnd (mem_read (ui_interest ui) 0 (pi_offset (ui_pi ui) NDN_PI_E)) (\<lambda>x.
     try_mem (l_append D [] x) (\<lambda>b.
     bnd (fst (Interest_obj_from_ndn D (c\<lparr>cap_pointer := P_Charbuf b\<rparr>))) (\<lambda>py_o. py_setattr obj ''Interest'' py_o))))"

text \<open>
  \<open>T\<close> is what looking up the class \<^verbatim>\<open>UpcallInfo\<close> gives; a failed lookup is asserted away, or
  called as \<^verbatim>\<open>NULL\<close>.
\<close>

definition UpcallInfo_obj_from_ndn ::
    "'e datalib_scheme \<Rightarrow> 'c outcome \<Rightarrow> upcall_kind \<Rightarrow> upcall_info \<Rightarrow> pyval outcome" where
  "UpcallInfo_obj_from_ndn D T upcall_kind ui =
     (case T of
        Ret _ \<Rightarrow>
          bnd (py_setattr new_UpcallInfo ''matchedComps'' (PyInt (ui_matched_comps ui))) (\<lambda>obj.
          bnd (if has_content upcall_kind then add_data D ui obj else Ret obj) (\<lambda>obj.
            if has_interest upcall_kind then add_interest D ui obj else Ret obj))
      | Raise _ \<Rightarrow> c_assert D False Undef
      | Abort \<Rightarrow> Abort
      | Undef \<Rightarrow> Undef)"

definition upcall_class :: "'e env_scheme \<Rightarrow> 'c importer \<Rightarrow> 'c class_cache \<Rightarrow> 'c outcome" where
  "upcall_class E imp cache = fst (get_type E imp UpcallInfo cache)"

subsection \<open>Registering a callback\<close>

text \<open>
  The capsule of a callback: its structure points back at the capsule, its context is the Python
  closure, \<open>p\<close>, on which it holds a reference. A structure or capsule that could not be made is
  written through.
\<close>

definition closure_capsule :: "nat \<Rightarrow> capsule" where
  "closure_capsule p =
     \<lparr>cap_pointer = P_Closure True, cap_name = Some (capsule_name CLOSURE),
      cap_context = ClosureContext p, cap_owned = True\<rparr>"

definition new_closure :: "'e env_scheme \<Rightarrow> nat \<Rightarrow> capsule outcome" where
  "new_closure E p =
     (case NDNObject_New_Closure E of
        Ret c \<Rightarrow> Ret (c\<lparr>cap_pointer := P_Closure True, cap_context := ClosureContext p\<rparr>)
      | Raise _ \<Rightarrow> Undef
      | Abort \<Rightarrow> Abort
      | Undef \<Rightarrow> Undef)"

text \<open>
  What the two registering commands share: the capsule, the library's status \<open>r\<close>, and what is
  released when it refuses. The capsule returned is the library's.
\<close>

definition register_closure :: "'e env_scheme \<Rightarrow> nat \<Rightarrow> int \<Rightarrow> capsule outcome \<times> release list" where
  "register_closure E p r =
     (case new_closure E p of
        Ret c \<Rightarrow>
          if r < 0 then
            (case capsule_destructor E c of
               Ret rs \<Rightarrow> (Raise IOError, rs)
             | Raise e \<Rightarrow> (Raise e, [])
             | Abort \<Rightarrow> (Abort, [])
             | Undef \<Rightarrow> (Undef, []))
          else (Ret c, [])
      | Raise e \<Rightarrow> (Raise e, [])
      | Abort \<Rightarrow> (Abort, [])
      | Undef \<Rightarrow> (Undef, []))"

text \<open>The pointer of a capsule that must be a handle; a template may also be \<^verbatim>\<open>NULL\<close>.\<close>

definition get_handle :: "'e env_scheme \<Rightarrow> pyval \<Rightarrow> nat outcome" where
  "get_handle E v =
     bnd (NDNObject_Get E HANDLE v) (\<lambda>p. case p of Some (P_Handle h) \<Rightarrow> Ret h | _ \<Rightarrow> Undef)"

definition get_template :: "'e env_scheme \<Rightarrow> pyval \<Rightarrow> bytes option outcome" where
  "get_template E v =
     bnd (NDNObject_Get E INTEREST v) (\<lambda>p.
       case p of None \<Rightarrow> Ret None | Some (P_Charbuf b) \<Rightarrow> Ret (Some b) | _ \<Rightarrow> Undef)"

text \<open>\<^verbatim>\<open>Interest.__getattribute__\<close>: the buffer is made on demand.\<close>

definition interest_ndn_data :: "'e ndnlib_scheme \<Rightarrow> pyval \<Rightarrow> pyval outcome" where
  "interest_ndn_data L obj =
     bnd (py_getattr obj ''ndn_data'') (\<lambda>d. if d = PyNone then cmd_Interest_obj_to_ndn L obj else Ret d)"

definition express_checks :: "'e handlelib_scheme \<Rightarrow> pyval \<Rightarrow> pyval \<Rightarrow> pyval \<Rightarrow> pyval \<Rightarrow> bool" where
  "express_checks H py_ndn py_name py_closure py_templ \<longleftrightarrow>
     tp_name py_ndn = ''NDN'' \<and> tp_name py_name = ''Name'' \<and> h_is_closure H py_closure
     \<and> (py_templ = PyNone \<or> tp_name py_templ = ''Interest'')"

definition express_args :: "'e handlelib_scheme \<Rightarrow> pyval \<Rightarrow> pyval \<Rightarrow> pyval \<Rightarrow> (nat \<times> bytes \<times> bytes option) outcome" where
  "express_args H py_ndn py_name py_templ =
     bnd (bnd (py_getattr py_ndn ''ndn_data'') (get_handle H)) (\<lambda>handle.
     bnd (bnd (name_ndn_data H py_name) (get_charbuf H NAME)) (\<lambda>name.
     bnd (if py_templ = PyNone then Ret None else bnd (interest_ndn_data H py_templ) (get_template H)) (\<lambda>templ.
       Ret (handle, name, templ))))"

text \<open>
  \<^verbatim>\<open>_pyndn_cmd_express_interest\<close>; \<open>p\<close> stands for the closure object. Besides the result there is
  the capsule now in the hands of the library.
\<close>

definition cmd_express_interest ::
    "'e handlelib_scheme \<Rightarrow> nat \<Rightarrow> pyval list \<Rightarrow> (pyval \<times> capsule) outcome \<times> release list" where
  "cmd_express_interest H p args =
     (case args of
        [py_ndn, py_name, py_closure, py_templ] \<Rightarrow>
          if \<not> express_checks H py_ndn py_name py_closure py_templ then (Raise TypeError, [])
          else (case express_args H py_ndn py_name py_templ of
                  Ret (handle, name, templ) \<Rightarrow>
                    (let (c, rs) = register_closure H p (h_express_interest H handle name templ) in
                     (bnd c (\<lambda>c. Ret (PyNone, c)), rs))
                | Raise e \<Rightarrow> (Raise e, [])
                | Abort \<Rightarrow> (Abort, [])
                | Undef \<Rightarrow> (Undef, []))
      | _ \<Rightarrow> (Raise TypeError, []))"

definition filter_args :: "'e handlelib_scheme \<Rightarrow> pyval list \<Rightarrow> (nat \<times> bytes \<times> int) outcome" where
  "filter_args H args =
     bnd (case args of
            [py_ndn, py_name, py_closure] \<Rightarrow> Ret (py_ndn, py_name, py_closure, h_forw_flags H)
          | [py_ndn, py_name, py_closure, f] \<Rightarrow> bnd (arg_int f) (\<lambda>n. Ret (py_ndn, py_name, py_closure, n))
          | _ \<Rightarrow> Raise TypeError) (\<lambda>(py_ndn, py_name, py_closure, forw_flags).
     bnd (the_handle H py_ndn) (\<lambda>handle.
     bnd (the_charbuf H NAME py_name) (\<lambda>name.
       if \<not> h_is_closure H py_closure then Raise TypeError else Ret (handle, name, forw_flags))))"

definition cmd_set_interest_filter ::
    "'e handlelib_scheme \<Rightarrow> nat \<Rightarrow> pyval list \<Rightarrow> (pyval \<times> capsule) outcome \<times> release list" where
  "cmd_set_interest_filter H p args =
     (case filter_args H args of
        Ret (handle, name, forw_flags) \<Rightarrow>
          (let r = h_set_filter H handle name forw_flags; (c, rs) = register_closure H p r in
           (bnd c (\<lambda>c. Ret (PyInt r, c)), rs))
      | Raise e \<Rightarrow> (Raise e, [])
      | Abort \<Rightarrow> (Abort, [])
      | Undef \<Rightarrow> (Undef, []))"

text \<open>The format asks for an optional integer that no variable is passed for.\<close>

definition cmd_clear_interest_filter :: "'e handlelib_scheme \<Rightarrow> pyval list \<Rightarrow> pyval outcome" where
  "cmd_clear_interest_filter H args =
     bnd (case args of
            [py_ndn, py_name] \<Rightarrow> Ret (py_ndn, py_name)
          | [_, _, f] \<Rightarrow> bnd (arg_int f) (\<lambda>_. Undef)
          | _ \<Rightarrow> Raise TypeError) (\<lambda>(py_ndn, py_name).
     bnd (the_handle H py_ndn) (\<lambda>handle.
     bnd (the_charbuf H NAME py_name) (\<lambda>name.
       let r = h_clear_filter H handle name in if r < 0 then Raise IOError else Ret (PyInt r))))"

subsection \<open>Fetching and publishing\<close>

definition get_args :: "pyval list \<Rightarrow> (pyval \<times> pyval \<times> pyval \<times> int) outcome" where
  "get_args args =
     (case args of
        [f, n] \<Rightarrow> Ret (f, n, PyNone, 3000)
      | [f, n, i] \<Rightarrow> Ret (f, n, i, 3000)
      | [f, n, i, t] \<Rightarrow> bnd (arg_int t) (\<lambda>timeout. Ret (f, n, i, timeout))
      | _ \<Rightarrow> Raise TypeError)"

text \<open>
  A pointer that is \<^verbatim>\<open>NULL\<close> leaves with no exception set. The packet's context is given its
  parsed form before the library fills it.
\<close>

definition found :: "'a option \<Rightarrow> 'a outcome" where
  "found p = (case p of None \<Rightarrow> Raise SystemError | Some x \<Rightarrow> Ret x)"

definition get_requests :: "'e handlelib_scheme \<Rightarrow> pyval \<Rightarrow> pyval \<Rightarrow> pyval \<Rightarrow> (nat \<times> bytes \<times> bytes option) outcome" where
  "get_requests H py_NDN py_Name py_Interest =
     (if tp_name py_NDN \<noteq> ''NDN'' then Raise TypeError
      else bnd (bnd (bnd (py_getattr py_NDN ''ndn_data'') (NDNObject_Get H HANDLE)) found) (\<lambda>handle.
        if tp_name py_Name \<noteq> ''Name'' then Raise TypeError
        else bnd (bnd (bnd (name_ndn_data H py_Name) (NDNObject_Get H NAME)) found) (\<lambda>name.
          if py_Interest \<noteq> PyNone \<and> tp_name py_Interest \<noteq> ''Interest'' then Raise TypeError
          else bnd (if py_Interest = PyNone then Ret None
                    else bnd (bnd (bnd (interest_ndn_data H py_Interest) (NDNObject_Get H INTEREST)) found) (\<lambda>i. Ret (Some i)))
            (\<lambda>interest.
              case (handle, name, interest) of
                (P_Handle h, P_Charbuf n, None) \<Rightarrow> Ret (h, n, None)
              | (P_Handle h, P_Charbuf n, Some (P_Charbuf i)) \<Rightarrow> Ret (h, n, Some i)
              | _ \<Rightarrow> Undef))))"

definition fetch :: "'e handlelib_scheme \<Rightarrow> nat \<Rightarrow> bytes \<Rightarrow> bytes option \<Rightarrow> int \<Rightarrow> pyval outcome" where
  "fetch H handle name interest timeout =
     bnd (NDNObject_New_charbuf H CONTENT_OBJECT) (\<lambda>c.
     bnd (content_object_set_pco H c (if mem H A_parsed then Some zero_pco else None)) (\<lambda>c.
     jump_if_null_mem (mem H A_parsed)
      (bnd (content_object_set_comps H c (if mem H A_indexbuf then Some [] else None)) (\<lambda>c.
       jump_if_null_mem (mem H A_indexbuf)
        (let (r, b, p, idx) = h_get H handle name interest timeout in
         if r < 0 then if h_geterror H handle \<noteq> 0 then Raise IOError else Ret PyNone
         else fst (Data_obj_from_ndn H
                (PyCapsule (c\<lparr>cap_pointer := P_Charbuf b,
                              cap_context := DataContext \<lparr>pco = Some p, comps = Some idx\<rparr>\<rparr>))))))))"

definition cmd_get :: "'e handlelib_scheme \<Rightarrow> pyval list \<Rightarrow> pyval outcome" where
  "cmd_get H args =
     bnd (get_args args) (\<lambda>(py_NDN, py_Name, py_Interest, timeout).
     bnd (get_requests H py_NDN py_Name py_Interest) (\<lambda>(handle, name, interest).
       fetch H handle name interest timeout))"

definition cmd_put :: "'e handlelib_scheme \<Rightarrow> pyval list \<Rightarrow> pyval outcome" where
  "cmd_put H args =
     (case args of
        [py_ndn, py_content_object] \<Rightarrow>
          if tp_name py_ndn \<noteq> ''NDN'' \<or> tp_name py_content_object \<noteq> ''Data'' then Raise TypeError
          else bnd (bnd (py_getattr py_ndn ''ndn_data'') (get_handle H)) (\<lambda>handle.
               bnd (bnd (data_ndn_data py_content_object) (get_charbuf H CONTENT_OBJECT)) (\<lambda>content_object.
                 let r = h_put H handle content_object in if r < 0 then Raise IOError else Ret (PyInt r)))
      | _ \<Rightarrow> Raise TypeError)"

subsection \<open>The callback handler\<close>

text \<open>
  \<open>call p\<close> is the method \<^verbatim>\<open>upcall\<close> of the closure \<open>p\<close>, or the exception looking it up
  raises. The result is the number returned to libndn, -1 for an error, with what is released.
  A method that returns something other than a number gives -1 as well, that being what
  \<^verbatim>\<open>PyInt_AsLong\<close> returns; its exception stays pending.
\<close>

type_synonym upcalls = "nat \<Rightarrow> (int \<Rightarrow> pyval \<Rightarrow> pyval outcome) outcome"

definition upcall_result :: "pyval outcome \<Rightarrow> int outcome" where
  "upcall_result r =
     (case r of
        Ret v \<Rightarrow> (case py_int_as_long v of Ret n \<Rightarrow> Ret (to_int32 n) | _ \<Rightarrow> Ret (- 1))
      | Raise _ \<Rightarrow> Ret (- 1)
      | Abort \<Rightarrow> Abort
      | Undef \<Rightarrow> Undef)"

definition ndn_upcall_handler ::
    "'e datalib_scheme \<Rightarrow> 'c outcome \<Rightarrow> upcalls \<Rightarrow> upcall_kind \<Rightarrow> upcall_info \<Rightarrow> capsule \<Rightarrow> int outcome \<times> release list" where
  "ndn_upcall_handler D T call upcall_kind info selfp =
     (case (cap_pointer selfp, cap_context selfp) of
        (P_Closure True, ClosureContext py_closure) \<Rightarrow>
          (let res = upcall_result
                 (bnd (call py_closure) (\<lambda>upcall_method.
                  bnd (UpcallInfo_obj_from_ndn D T upcall_kind info) (\<lambda>py_upcall_info.
                    upcall_method (kind_code upcall_kind) py_upcall_info))) in
           if is_ret res \<and> upcall_kind = UPCALL_FINAL then
             (case capsule_destructor D selfp of
                Ret rs \<Rightarrow> (res, rs)
              | Raise e \<Rightarrow> (Raise e, [])
              | Abort \<Rightarrow> (Abort, [])
              | Undef \<Rightarrow> (Undef, []))
           else (res, []))
      | _ \<Rightarrow> (c_assert D False Undef, []))"

subsection \<open>Registrations and callbacks, interleaved\<close>

text \<open>
  The library's side: which capsules it holds, and the references on Python closures that
  capsules keep. A registration either hands a capsule over or is refused; a held closure is
  called any number of times, and given up by the library with the callback of kind
  \<^verbatim>\<open>FINAL\<close>. \<open>up_crashed\<close> records a callback that did not return.
\<close>

record up_sys =
  held :: "(nat \<times> capsule) multiset"
  refs :: "nat multiset"
  up_crashed :: bool

definition up_boot :: up_sys where
  "up_boot = \<lparr>held = {#}, refs = {#}, up_crashed = False\<rparr>"

fun decrefs :: "release list \<Rightarrow> nat multiset" where
  "decrefs [] = {#}"
| "decrefs (R_decref_closure p # rs) = add_mset p (decrefs rs)"
| "decrefs (_ # rs) = decrefs rs"

inductive up_step :: "'e datalib_scheme \<Rightarrow> 'c outcome \<Rightarrow> upcalls \<Rightarrow> up_sys \<Rightarrow> up_sys \<Rightarrow> bool"
  for D T call where
  registered: "register_closure D p r = (Ret c, rs) \<Longrightarrow>
    up_step D T call s (s\<lparr>held := add_mset (k, c) (held s), refs := add_mset p (refs s) - decrefs rs\<rparr>)"
| refused: "register_closure D p r = (Raise e, rs) \<Longrightarrow>
    up_step D T call s (s\<lparr>refs := add_mset p (refs s) - decrefs rs\<rparr>)"
| upcall: "(k, c) \<in># held s \<Longrightarrow> ndn_upcall_handler D T call kind info c = (res, rs) \<Longrightarrow>
    up_step D T call s
      (s\<lparr>held := (if kind = UPCALL_FINAL then held s - {#(k, c)#} else held s),
         refs := refs s - decrefs rs, up_crashed := (up_crashed s \<or> is_crash res)\<rparr>)"

inductive up_reachable :: "'e datalib_scheme \<Rightarrow> 'c outcome \<Rightarrow> upcalls \<Rightarrow> up_sys \<Rightarrow> bool"
  for D T call where
  start: "up_reachable D T call up_boot"
| step: "up_reachable D T call s \<Longrightarrow> up_step D T call s s' \<Longrightarrow> up_reachable D T call s'"

inductive_cases up_stepE: "up_step D T call s s'"

lemma closure_destructor:
  "capsule_destructor E (closure_capsule p) = Ret [R_decref_closure p, R_free_closure]"
  using name2type_listed [of CLOSURE E] by (simp add: capsule_destructor_def closure_capsule_def)

lemma held_destructor:
  "c = closure_capsule p \<Longrightarrow> capsule_destructor E c = Ret [R_decref_closure p, R_free_closure]"
  by (simp add: closure_destructor)

lemma new_closure_cases: "new_closure E p = Ret (closure_capsule p) \<or> is_crash (new_closure E p)"
  by (auto simp: new_closure_def NDNObject_New_Closure_def NDNObject_New_def closure_capsule_def
      jump_if_null_mem_def)

lemma register_outcomes:
  "register_closure E p r = (Ret c, rs) \<Longrightarrow> c = closure_capsule p \<and> rs = [] \<and> 0 \<le> r"
  "register_closure E p r = (Raise e, rs) \<Longrightarrow> e = IOError \<and> rs = [R_decref_closure p, R_free_closure]"
  using new_closure_cases [of E p]
  by (cases "new_closure E p"; auto simp: register_closure_def closure_destructor split: if_splits)+

lemma upcall_result_cases: "is_ret (upcall_result r) \<or> is_crash (upcall_result r)"
  by (auto simp: upcall_result_def split: outcome.splits)

lemma handler_final:
  assumes "ndn_upcall_handler D T call UPCALL_FINAL info (closure_capsule p) = (res, rs)"
  shows "is_crash res \<or> (is_ret res \<and> rs = [R_decref_closure p, R_free_closure])"
proof -
  note handler = assms [unfolded ndn_upcall_handler_def, unfolded closure_destructor]
  show ?thesis
    using handler upcall_result_cases
    by (auto simp: closure_capsule_def Let_def split: if_splits)
qed

lemma handler_other:
  "ndn_upcall_handler D T call kind info (closure_capsule p) = (res, rs) \<Longrightarrow> kind \<noteq> UPCALL_FINAL \<Longrightarrow> rs = []"
  by (auto simp: ndn_upcall_handler_def closure_capsule_def Let_def split: if_splits)

text \<open>Every capsule the library holds is a closure capsule, and each keeps one reference.\<close>

definition closure_of :: "capsule \<Rightarrow> nat" where
  "closure_of c = (case cap_context c of ClosureContext p \<Rightarrow> p | _ \<Rightarrow> 0)"

definition up_inv :: "up_sys \<Rightarrow> bool" where
  "up_inv s \<longleftrightarrow>
     up_crashed s \<or> ((\<forall>x \<in># held s. snd x = closure_capsule (closure_of (snd x)))
       \<and> refs s = image_mset (\<lambda>x. closure_of (snd x)) (held s))"

lemma closure_of_capsule [simp]: "closure_of (closure_capsule p) = p"
  by (simp add: closure_of_def closure_capsule_def)

lemma up_inv_step: "up_step D T call s s' \<Longrightarrow> up_inv s \<Longrightarrow> up_inv s'"
proof (cases rule: up_step.cases, assumption)
  fix p r c rs k
  assume "up_inv s" "register_closure D p r = (Ret c, rs)"
    "s' = s\<lparr>held := add_mset (k, c) (held s), refs := add_mset p (refs s) - decrefs rs\<rparr>"
  then show "up_inv s'"
    by (auto simp: up_inv_def dest: register_outcomes(1))
next
  fix p r e rs
  assume "up_inv s" "register_closure D p r = (Raise e, rs)" "s' = s\<lparr>refs := add_mset p (refs s) - decrefs rs\<rparr>"
  then show "up_inv s'"
    by (auto simp: up_inv_def dest: register_outcomes(2))
next
  fix k c kind info res rs
  assume *: "up_inv s" "(k, c) \<in># held s" "ndn_upcall_handler D T call kind info c = (res, rs)"
    "s' = s\<lparr>held := (if kind = UPCALL_FINAL then held s - {#(k, c)#} else held s),
         refs := refs s - decrefs rs, up_crashed := (up_crashed s \<or> is_crash res)\<rparr>"
  show "up_inv s'"
  proof (cases "up_crashed s \<or> is_crash res")
    case False
    then have c: "c = closure_capsule (closure_of c)" and refs: "refs s = image_mset (\<lambda>x. closure_of (snd x)) (held s)"
      using * by (auto simp: up_inv_def)
    show ?thesis
    proof (cases "kind = UPCALL_FINAL")
      case True
      then have "rs = [R_decref_closure (closure_of c), R_free_closure]"
        using handler_final [of D T call info "closure_of c"] * False c by metis
      then show ?thesis
        using * False True refs by (auto simp: up_inv_def image_mset_Diff dest: in_diffD)
    next
      case other: False
      then have "rs = []"
        using handler_other [of D T call kind info "closure_of c"] * c by metis
      then show ?thesis
        using * False other by (auto simp: up_inv_def)
    qed
  qed (use * in \<open>auto simp: up_inv_def\<close>)
qed

lemma up_reachable_inv: "up_reachable D T call s \<Longrightarrow> up_inv s"
proof (induction rule: up_reachable.induct)
  case start
  show ?case by (simp add: up_inv_def up_boot_def)
next
  case (step s s')
  then show ?case using up_inv_step by blast
qed

definition no_info :: upcall_info where
  "no_info = \<lparr>ui_matched_comps = 0, ui_content = [], ui_pco = zero_pco, ui_interest = [], ui_pi = zero_pi\<rparr>"

subsection \<open>Properties\<close>

text \<open>
  C11. However registrations and callbacks interleave, as long as every callback returns: each
  capsule the library holds is a closure capsule that can be destroyed, and the references on
  Python closures are exactly those of the capsules held, so no closure is freed while libndn may
  call it and none is kept after its last callback or after a registration that was refused.
\<close>

theorem callbacks_balanced:
  assumes "up_reachable D T call s" "\<not> up_crashed s"
  shows "refs s = image_mset (\<lambda>x. closure_of (snd x)) (held s)
    \<and> (\<forall>x \<in># held s. capsule_destructor D (snd x) = Ret [R_decref_closure (closure_of (snd x)), R_free_closure])"
proof -
  have "(\<forall>x \<in># held s. snd x = closure_capsule (closure_of (snd x)))
      \<and> refs s = image_mset (\<lambda>x. closure_of (snd x)) (held s)"
    using up_reachable_inv [OF assms(1)] assms(2) unfolding up_inv_def by blast
  then show ?thesis
    by (elim conjE) (intro conjI ballI held_destructor, assumption, erule (1) bspec)
qed

text \<open>
  C37. In this module no callback ever returns and a \<^verbatim>\<open>Face\<close> cannot express interests. The class
  of the callback's argument has no row in the table of classes, so the first callback of any kind
  on a closure with an \<^verbatim>\<open>upcall\<close> method stops a build with assertions and is undefined in one
  without; and expressing an interest, fetching and publishing insist on an object whose class
  is called \<^verbatim>\<open>NDN\<close>.
\<close>

theorem callbacks_unusable:
  assumes "tp_name face = ''Face''" "cache UpcallInfo = None" "call p = Ret f"
  shows "ndn_upcall_handler H (upcall_class H imp cache) call kind info (closure_capsule p)
      = (if ndebug H then Undef else Abort, [])
    \<and> cmd_express_interest H p [face, name, closure, templ] = (Raise TypeError, [])
    \<and> cmd_get H [face, name] = Raise TypeError
    \<and> cmd_put H [face, data] = Raise TypeError"
proof -
  have "upcall_class H imp cache = (if ndebug H then Undef else Abort)"
    using assms(2) by (simp add: upcall_class_def get_type_def modules_def import_class_def)
  then have "ndn_upcall_handler H (upcall_class H imp cache) call kind info (closure_capsule p)
      = (if ndebug H then Undef else Abort, [])"
    using assms(3) by (simp add: ndn_upcall_handler_def closure_capsule_def UpcallInfo_obj_from_ndn_def upcall_result_def)
  then show ?thesis
    using assms(1)
    by (simp add: cmd_express_interest_def express_checks_def cmd_get_def get_args_def get_requests_def cmd_put_def)
qed

lemma demo_register: "register_closure demo_packets 5 0 = (Ret (closure_capsule 5), [])"
  using allocs_okD [OF demo_packets_ndnb(4)]
  by (simp add: register_closure_def new_closure_def NDNObject_New_Closure_def NDNObject_New_def
      jump_if_null_mem_def closure_capsule_def del: allocs_okD)

lemma demo_reachable:
  "up_reachable demo_packets T call (up_boot\<lparr>held := {#(0, closure_capsule 5)#}, refs := {#5#}\<rparr>)"
  using up_reachable.step [OF up_reachable.start up_step.registered [OF demo_register, of T call up_boot 0]]
  by (simp add: up_boot_def)

theorem callbacks_balanced_witness:
  "refs (up_boot\<lparr>held := {#(0, closure_capsule 5)#}, refs := {#5#}\<rparr>) = {#5#}
   \<and> capsule_destructor demo_packets (closure_capsule 5) = Ret [R_decref_closure 5, R_free_closure]"
  using callbacks_balanced [OF demo_reachable [of "Ret ()" "\<lambda>_. Raise AttributeError"]]
  by (simp add: up_boot_def)

definition demo_handlelib :: handlelib where
  "demo_handlelib =
     datalib.extend demo_packets
       (handlelib.fields (Some 1) (\<lambda>_. 0) (\<lambda>_. 0) (\<lambda>_ _. 0) (\<lambda>_. 3) (\<lambda>_. 0) (\<lambda>_. 0) (\<lambda>_ _. 0) (\<lambda>_ _ _. 0)
         (\<lambda>_ _ _. 0) (\<lambda>_ _. 0) 3 (\<lambda>_ _ _ _. (- 1, [], zero_pco, [])) (\<lambda>_ _. 0) (\<lambda>_. 0) 0 True (0, Some 2)
         (0, name_wire []) (\<lambda>_. True))"

theorem callbacks_unusable_witness:
  "fst (ndn_upcall_handler demo_handlelib (upcall_class demo_handlelib some_importer (\<lambda>_. None))
      (\<lambda>_. Ret (\<lambda>_ _. Ret (PyInt 0))) UPCALL_CONTENT no_info (closure_capsule 5)) = Abort
   \<and> cmd_put demo_handlelib [PyInst ''Face'' [], new_Data] = Raise TypeError"
proof -
  have "\<not> ndebug demo_handlelib"
    by (simp add: demo_handlelib_def demo_packets_def demo_datalib_def demo_keylib_def demo_codec_def
        ndnlib.defs codec.defs keylib.defs datalib.defs handlelib.defs ndnb_lib_def)
  then show ?thesis
    using callbacks_unusable [of "PyInst ''Face'' []" "\<lambda>_. None" "\<lambda>_. Ret (\<lambda>_ _. Ret (PyInt 0))" 5 _
        demo_handlelib some_importer UPCALL_CONTENT no_info] by simp
qed

end
