(* ===== verification/ModuleM.thy ===== *)
theory ModuleM
  imports HandleM NameCryptoM
begin

section \<open>The module as a whole: csrc/pyndn.c\<close>

text \<open>
  The table of commands with their calling conventions, and what holds of all commands that
  make buffers.
\<close>

subsection \<open>The table of commands\<close>

datatype method_flags = METH_NOARGS | METH_O | METH_VARARGS | METH_KEYWORDS

definition g_module_methods :: "(string \<times> method_flags) list" where
  "g_module_methods =
     [(''create'', METH_NOARGS), (''connect'', METH_O), (''disconnect'', METH_O),
      (''defer_verification'', METH_VARARGS), (''get_connection_fd'', METH_O),
      (''process_scheduled_operations'', METH_O), (''output_is_pending'', METH_O), (''run'', METH_VARARGS),
      (''set_run_timeout'', METH_VARARGS), (''is_run_executing'', METH_O),
      (''express_interest'', METH_VARARGS), (''set_interest_filter'', METH_VARARGS),
      (''clear_interest_filter'', METH_VARARGS), (''get'', METH_VARARGS), (''put'', METH_VARARGS),
      (''get_default_key'', METH_NOARGS), (''generate_RSA_key'', METH_VARARGS),
      (''PEM_read_key'', METH_KEYWORDS), (''PEM_write_key'', METH_KEYWORDS), (''DER_read_key'', METH_KEYWORDS),
      (''DER_write_key'', METH_KEYWORDS), (''content_to_bytearray'', METH_O), (''content_to_bytes'', METH_O),
      (''verify_content'', METH_VARARGS), (''verify_signature'', METH_VARARGS), (''name_from_uri'', METH_O),
      (''name_to_uri'', METH_O), (''compare_names'', METH_VARARGS), (''name_comps_to_ndn'', METH_O),
      (''name_comps_from_ndn_buffer'', METH_O), (''name_comps_from_ndn'', METH_O),
      (''Interest_obj_to_ndn'', METH_O), (''Interest_obj_from_ndn'', METH_O), (''encode_Data'', METH_VARARGS),
      (''Data_obj_from_ndn'', METH_O), (''Data_obj_from_ndn_buffer'', METH_O),
      (''digest_contentobject'', METH_VARARGS), (''content_matches_interest'', METH_VARARGS),
      (''Key_obj_from_ndn'', METH_O), (''KeyLocator_to_ndn'', METH_KEYWORDS),
      (''KeyLocator_obj_from_ndn'', METH_O), (''Signature_obj_to_ndn'', METH_O),
      (''Signature_obj_from_ndn'', METH_O), (''SignedInfo_to_ndn'', METH_KEYWORDS),
      (''SignedInfo_obj_from_ndn'', METH_O), (''dump_charbuf'', METH_O), (''new_charbuf'', METH_VARARGS)] @
     [(''nc_new_state'', METH_NOARGS), (''nc_authenticate_command'', METH_VARARGS),
      (''nc_authenticate_command_sig'', METH_VARARGS), (''nc_verify_command'', METH_KEYWORDS),
      (''nc_app_id'', METH_O), (''nc_app_key'', METH_VARARGS)]"

text \<open>
  What the interpreter checks of a call before the command sees it: that the command exists, and
  the numbers of positional and keyword arguments.
\<close>

fun convention_ok :: "method_flags \<Rightarrow> nat \<Rightarrow> nat \<Rightarrow> bool" where
  "convention_ok METH_NOARGS n k \<longleftrightarrow> n = 0 \<and> k = 0"
| "convention_ok METH_O n k \<longleftrightarrow> n = 1 \<and> k = 0"
| "convention_ok METH_VARARGS n k \<longleftrightarrow> k = 0"
| "convention_ok METH_KEYWORDS n k \<longleftrightarrow> True"

definition call_check :: "string \<Rightarrow> nat \<Rightarrow> nat \<Rightarrow> unit outcome" where
  "call_check name n k =
     (case map_of g_module_methods name of
        None \<Rightarrow> Raise AttributeError
      | Some flags \<Rightarrow> if convention_ok flags n k then Ret () else Raise TypeError)"

text \<open>
  No name is registered twice. The command for the name of the default key, which
  \<^verbatim>\<open>KeyLocator.py\<close> calls, is not registered at all.
\<close>

lemma methods_distinct: "distinct (map fst g_module_methods)"
  by (simp add: g_module_methods_def)

lemma default_key_name_missing: "call_check ''get_default_key_name'' n k = Raise AttributeError"
  by (simp add: call_check_def g_module_methods_def)

subsection \<open>Loading the module\<close>

text \<open>
  \<^verbatim>\<open>init_pyndn\<close>: the module object with the commands (or \<^verbatim>\<open>NULL\<close>), the exceptions under
  their names, OpenSSL's messages. The state of the process keeps the globals of an earlier
  initialisation.
\<close>

fun exc_name :: "py_exc \<Rightarrow> string" where
  "exc_name NDNError = ''NDNError''"
| "exc_name NDNNameError = ''NDNNameError''"
| "exc_name NDNKeyLocatorError = ''NDNKeyLocatorError''"
| "exc_name NDNSignatureError = ''NDNSignatureError''"
| "exc_name NDNSignedInfoError = ''NDNSignedInfoError''"
| "exc_name NDNInterestError = ''NDNInterestError''"
| "exc_name NDNExclusionFilterError = ''NDNExclusionFilterError''"
| "exc_name NDNKeyError = ''NDNKeyError''"
| "exc_name NDNDataError = ''NDNDataError''"
| "exc_name _ = []"

record process =
  module_dict :: "string list"
  exceptions :: exc_state
  crypto_strings :: bool

definition initialize_crypto :: "process \<Rightarrow> process" where
  "initialize_crypto p = p\<lparr>crypto_strings := True\<rparr>"

definition init_module :: "bool \<Rightarrow> process \<Rightarrow> process" where
  "init_module made p =
     (if \<not> made then p
      else initialize_crypto
             (p\<lparr>module_dict := map fst g_module_methods @ map (exc_name \<circ> fst) exception_calls,
                exceptions := initialize_exceptions (exceptions p)\<rparr>))"

lemma module_names_distinct: "distinct (module_dict (init_module True p))"
  by (simp add: init_module_def initialize_crypto_def g_module_methods_def exception_calls_def)

subsection \<open>Buffers are typed\<close>

lemma New_shape:
  "fst (NDNObject_New E ty (P_Charbuf b)) = Ret c \<Longrightarrow> ty \<in> set charbuf_types \<Longrightarrow> PyCapsule c = box ty b"
  by (auto simp: NDNObject_New_def box_def fresh_context_def charbuf_types_def Let_def
      split: outcome.splits if_splits)

lemma New_charbuf_shape:
  "NDNObject_New_charbuf E ty = Ret c \<Longrightarrow> ty \<in> set charbuf_types \<Longrightarrow> fill c = box ty"
proof -
  assume c: "NDNObject_New_charbuf E ty = Ret c" "ty \<in> set charbuf_types"
  then have "fst (NDNObject_New E ty (P_Charbuf [])) = Ret c"
    by (auto simp: NDNObject_New_charbuf_def jump_if_null_mem_def split: prod.splits outcome.splits if_splits)
  then have "PyCapsule c = box ty []"
    using New_shape c(2) by blast
  then show "fill c = box ty"
    by (auto simp: fill_def box_def)
qed

lemma try_mem_eq_Ret: "try_mem x k = Ret v \<longleftrightarrow> 0 \<le> fst x \<and> k (snd x) = Ret v"
  by (auto simp: try_mem_def jump_if_neg_mem_def)

lemma jump_if_null_mem_eq_Ret: "jump_if_null_mem a m = Ret v \<longleftrightarrow> a \<and> m = Ret v"
  by (auto simp: jump_if_null_mem_def)

lemmas ret_simps = bnd_eq_Ret try_mem_eq_Ret jump_if_null_mem_eq_Ret

text \<open>What the commands of the module make, by the type of the buffer.\<close>

inductive made :: "'e handlelib_scheme \<Rightarrow> 'f crypto_scheme \<Rightarrow> capsule_type \<Rightarrow> pyval \<Rightarrow> bool"
  for H C where
  "cmd_name_comps_to_ndn H x = Ret v \<Longrightarrow> made H C NAME v"
| "cmd_name_from_uri H x = Ret v \<Longrightarrow> made H C NAME v"
| "cmd_Interest_obj_to_ndn H x = Ret v \<Longrightarrow> made H C INTEREST v"
| "cmd_Signature_obj_to_ndn H x = Ret v \<Longrightarrow> made H C SIGNATURE v"
| "cmd_SignedInfo_to_ndn H x1 x2 x3 x4 x5 x6 = Ret v \<Longrightarrow> made H C SIGNED_INFO v"
| "cmd_KeyLocator_to_ndn H x1 x2 x3 x4 = Ret v \<Longrightarrow> made H C KEY_LOCATOR v"
| "cmd_encode_Data H xs = Ret v \<Longrightarrow> made H C CONTENT_OBJECT v"
| "cmd_new_charbuf H xs = Ret v \<Longrightarrow> made H C KEY_LOCATOR v"
| "cmd_nc_authenticate_command C now xs = Ret (v, st) \<Longrightarrow> made H C NAME v"
| "cmd_nc_authenticate_command_sig C now xs = Ret (v, st) \<Longrightarrow> made H C NAME v"

lemma made_name: "name_comps_to_ndn L x = Ret v \<Longrightarrow> \<exists>b. v = box NAME b"
  by (cases x) (auto simp: name_comps_to_ndn_def ret_simps charbuf_types_def dest!: New_shape split: outcome.splits)

lemma made_uri: "cmd_name_from_uri L x = Ret v \<Longrightarrow> \<exists>b. v = box NAME b"
  by (auto simp: cmd_name_from_uri_def ret_simps charbuf_types_def case_prod_beta Let_def dest!: New_charbuf_shape split: if_splits)

lemma made_interest: "cmd_Interest_obj_to_ndn L x = Ret v \<Longrightarrow> \<exists>b. v = box INTEREST b"
  by (auto simp: cmd_Interest_obj_to_ndn_def Interest_obj_to_ndn_def ret_simps charbuf_types_def
      dest!: New_charbuf_shape split: if_splits)

lemma made_signature: "cmd_Signature_obj_to_ndn L x = Ret v \<Longrightarrow> \<exists>b. v = box SIGNATURE b"
  by (auto simp: cmd_Signature_obj_to_ndn_def Signature_obj_to_ndn_def ret_simps charbuf_types_def
      dest!: New_charbuf_shape split: if_splits)

lemma made_signed_info: "cmd_SignedInfo_to_ndn L x1 x2 x3 x4 x5 x6 = Ret v \<Longrightarrow> \<exists>b. v = box SIGNED_INFO b"
  by (cases x1) (auto simp: cmd_SignedInfo_to_ndn_def ret_simps charbuf_types_def case_prod_beta Let_def
      dest!: New_charbuf_shape split: if_splits)

lemma made_key_locator: "cmd_KeyLocator_to_ndn L x1 x2 x3 x4 = Ret v \<Longrightarrow> \<exists>b. v = box KEY_LOCATOR b"
  by (auto simp: cmd_KeyLocator_to_ndn_def ret_simps charbuf_types_def dest!: New_shape)

lemma made_data: "cmd_encode_Data D xs = Ret v \<Longrightarrow> \<exists>b. v = box CONTENT_OBJECT b"
  by (auto simp: cmd_encode_Data_def ret_simps charbuf_types_def case_prod_beta Let_def dest!: New_shape split: list.splits if_splits)

lemma made_new: "cmd_new_charbuf L xs = Ret v \<Longrightarrow> \<exists>b. v = box KEY_LOCATOR b"
  by (auto simp: cmd_new_charbuf_def ret_simps charbuf_types_def dest!: New_charbuf_shape split: list.splits if_splits)

lemma made_command: "cmd_nc_authenticate_command C now xs = Ret (v, st) \<Longrightarrow> \<exists>b. v = box NAME b"
  by (auto simp: cmd_nc_authenticate_command_def ret_simps charbuf_types_def
      dest!: New_charbuf_shape split: list.splits if_splits)

lemma made_command_sig: "cmd_nc_authenticate_command_sig C now xs = Ret (v, st) \<Longrightarrow> \<exists>b. v = box NAME b"
  by (auto simp: cmd_nc_authenticate_command_sig_def ret_simps charbuf_types_def
      dest!: New_charbuf_shape split: list.splits if_splits option.splits) blast

lemmas made_boxes = made_name made_uri made_interest made_signature made_signed_info made_key_locator made_data
  made_new made_command made_command_sig

lemma made_box: "made H C ty v \<Longrightarrow> ty \<in> set charbuf_types \<and> (\<exists>b. v = box ty b)"
  by (induction rule: made.induct) (auto simp: charbuf_types_def cmd_name_comps_to_ndn_def dest: made_boxes)

subsection \<open>Properties\<close>

text \<open>
  C21. Buffers are typed: whatever the library answers, a command that makes a buffer of a type
  and returns gives a capsule of that type and no other, over a character buffer whose bytes can be
  dumped, which the destructor releases with all it owns. So no later command can open it as
  something else.
\<close>

theorem encoders_typed:
  assumes "made H C ty v"
  shows "\<exists>b c rs. v = PyCapsule c
    \<and> (\<forall>ty'. has_type ty' v = (ty' = ty))
    \<and> get_charbuf H ty v = Ret b \<and> cmd_dump_charbuf H v = Ret (PyBytes b)
    \<and> capsule_destructor H c = Ret rs \<and> mset rs = pointer_owned (cap_pointer c) + context_owned (cap_context c)"
proof -
  obtain b where ty: "ty \<in> set charbuf_types" and v: "v = box ty b"
    using made_box [OF assms] by blast
  obtain c where c: "box ty b = PyCapsule c" "capsule_ok c"
    using capsule_ok_box [OF ty] by blast
  then show ?thesis
    using destructor_releases_owned [OF c(2), of H] dump_box [OF ty, of H b] v charbuf_types_listed [OF ty]
    by (metis get_charbuf_box has_type_box)
qed

theorem encoders_typed_witness:
  "\<exists>b. cmd_dump_charbuf demo_handlelib (box KEY_LOCATOR [1]) = Ret (PyBytes b)"
proof -
  have "writes_ndnb demo_handlelib" "allocs_ok demo_handlelib"
    by (simp_all add: demo_handlelib_def demo_packets_def demo_datalib_def demo_keylib_def demo_codec_def
        ndnlib.defs codec.defs keylib.defs datalib.defs handlelib.defs ndnb_lib_def writes_ndnb_def allocs_ok_def)
  then have "cmd_new_charbuf demo_handlelib [PyBytes (map of_char ''KeyLocator_ndn_data''), PyBytes [1]]
      = Ret (box KEY_LOCATOR [1])"
    using New_charbuf_ok [of KEY_LOCATOR demo_handlelib Ret "[1]"]
    by (simp add: cmd_new_charbuf_def arg_cstring_def string_and_size_def charbuf_types_def
        buffer_writer.append [OF writes_ndnb_writer])
  from encoders_typed [OF made.intros(8) [OF this, where C = demo_crypto]] show ?thesis
    by blast
qed

end
