(* ===== verification/Spec2Isabelle.thy ===== *)
theory Spec2Isabelle
  imports Doubles SegmentM NameCryptoPy NreM NdnbTags EventLoopM TypeTable RunState SystemM FaceM NameM NameClass NameCryptoM InterestM SignatureM KeyM SignedInfoM SigningM ExclusionM KeyFilesM DataM MethodsM HandleM ModuleM
begin

text \<open>
  \<^bold>\<open>PyCCN: the C extension module of the NDN bindings for Python.\<close>

  \<^bold>\<open>The program.\<close> The module \<^verbatim>\<open>ndn._pyndn\<close> (\<^verbatim>\<open>src/csrc\<close>) stands between the Python
  classes of \<^verbatim>\<open>src/python/ndn\<close> and the library libndn. Python holds libndn's structures in
  capsules; the commands of the module turn objects (names, interests, packets, signatures, signed
  information, key locators, keys) into ndnb buffers and back, talk to the daemon through a
  handle, take callbacks, and, in \<^verbatim>\<open>namecrypto\<close>, authenticate commands. The model is the
  Python 2.7 build, with \<^verbatim>\<open>NAMECRYPTO\<close>, with or without \<^verbatim>\<open>NDEBUG\<close>.

  \<^bold>\<open>How code is modelled.\<close> A function the interpreter calls is a HOL function into
  \<open>outcome\<close> (theory \<open>Prelude\<close>): \<open>Ret\<close> a value, \<open>Raise\<close> an exception, \<open>Abort\<close> in a failed
  assertion, \<open>Undef\<close> where C gives no meaning. The error jumps of \<^verbatim>\<open>util.h\<close> are functions on
  outcomes; \<open>mem\<close> says which allocations succeed. Python objects are \<open>pyval\<close> (\<open>PyValues\<close>), with
  the attribute rules of the package's classes; a capsule is a record of pointer, name and context
  (\<open>Objects\<close>). A function that changes a capsule returns it. Statuses are \<open>int\<close>; bytes, sequence
  numbers and times are machine words; lengths are \<open>nat\<close>.

  \<^bold>\<open>What is a parameter.\<close> libndn, OpenSSL, the interpreter's \<^verbatim>\<open>str()\<close> and files are not
  in the repository. They are fields of records that extend each other: \<open>env\<close>, \<open>ndnlib\<close> (buffers,
  names, parsing), \<open>codec\<close> (the element decoder), \<open>keylib\<close>, \<open>datalib\<close>, \<open>handlelib\<close>, and
  \<open>crypto\<close>; the calls of the operating system and of OpenSSL's generator are the record \<open>os\<close>.
  What the properties need of them are the laws of locales (\<open>buffer_writer\<close>, \<open>name_library\<close>,
  \<open>canonical_names\<close>, \<open>component_names\<close>, \<open>element_reader\<close>, \<open>element_decoder\<close>,
  \<open>key_library\<close>, \<open>pem_keys\<close>, \<open>digest_cache\<close>, \<open>crypto_lengths\<close>) and named predicates
  (\<open>creates_signed_info\<close>, \<open>packet_of\<close>); each has an instance that computes, built on
  the ndnb encoder of \<^verbatim>\<open>python/ndn/impl/ndnb.py\<close> (\<open>Ndnb\<close>), and the witnesses use it.

  \<^bold>\<open>Theories and what they model.\<close>
  \<^item> \<open>Prelude\<close>, \<open>PyValues\<close>: outcomes, jumps, big-endian words, memoised lookups (\<open>memo\<close>,
    \<open>clean_memo\<close>); values, attributes, numbers, UTF-8.
  \<^item> \<open>Objects\<close>: \<^verbatim>\<open>objects.c\<close>. The name table, the constructors, the destructor as the list of
    what it releases; the interface \<open>typed_boxes\<close>.
  \<^item> \<open>TypeTable\<close>: class lookup and exceptions of \<^verbatim>\<open>pyndn.c\<close>. \<open>ModuleM\<close>: its table of commands,
    its initialisation, and the typing of all buffers the module makes.
  \<^item> \<open>RunState\<close>: the handles inside \<^verbatim>\<open>ndn_run\<close> (\<^verbatim>\<open>util.c\<close>, \<^verbatim>\<open>methods_handle.c\<close>), as a
    bag and a step relation of interleaved runs. \<open>FaceM\<close>: the lock of \<^verbatim>\<open>Face.py\<close> over that
    list, as the steps of threads. \<open>EventLoopM\<close>: the events of
    \<^verbatim>\<open>EventLoop.py\<close> and their lock, in the same way.
  \<^item> \<open>SystemM\<close>: the file handles and the debugging output of \<^verbatim>\<open>util.c\<close>, \<^verbatim>\<open>toolkit.c\<close>, and
    the seeding of OpenSSL's generator in \<^verbatim>\<open>key_utils.c\<close>, as what is opened, closed, written
    and loaded.
  \<^item> \<open>Ndnb\<close>, \<open>LibNdn\<close>, \<open>LibDecode\<close>: the wire format and the library's interfaces; \<open>LibDecode\<close> also
    has the steps by which the decoders read one element. \<open>NdnbTags\<close>: the decoder of
    \<^verbatim>\<open>impl/ndnb.py\<close> that prints the elements of a buffer.
  \<^item> \<open>NameM\<close>, \<open>InterestM\<close>, \<open>SignatureM\<close>, \<open>KeyM\<close>, \<open>SignedInfoM\<close>, \<open>DataM\<close>, \<open>MethodsM\<close>: the files
    \<^verbatim>\<open>methods_name.c\<close>, \<^verbatim>\<open>methods_interest.c\<close>, \<^verbatim>\<open>methods_signature.c\<close>,
    \<^verbatim>\<open>methods_key.c\<close> with \<^verbatim>\<open>key_utils.c\<close>, \<^verbatim>\<open>methods_signedinfo.c\<close>,
    \<^verbatim>\<open>methods_contentobject.c\<close> and \<^verbatim>\<open>methods.c\<close>, each with the Python methods around them
    that encode on demand. \<open>ExclusionM\<close>, \<open>SigningM\<close> and \<open>KeyFilesM\<close> hold the functions of these
    files that nothing calls, and \<open>KeyFilesM\<close> what PEM files, descriptors and the generator do
    together.
  \<^item> \<open>NameClass\<close>: the class of \<^verbatim>\<open>Name.py\<close> and \<^verbatim>\<open>Interest.matches_name\<close> on top of \<open>NameM\<close>.
    \<open>Doubles\<close>: the doubles of Python as exact quotients that are rounded to 53 bits. \<open>SegmentM\<close>:
    \<^verbatim>\<open>impl/segmenting.py\<close>, the generator of segments.
  \<^item> \<open>NreMatch\<close>, \<open>NreParse\<close>, \<open>NreM\<close>: the name patterns of \<^verbatim>\<open>nre.py\<close>: the matchers as
    functions on the results of groups, the constructors that read a pattern, and the class
    \<^verbatim>\<open>RegexMatcher\<close> with what a pattern means.
  \<^item> \<open>HandleM\<close>: \<^verbatim>\<open>methods_handle.c\<close>. Commands on a handle, the callback handler, and the life of
    callback capsules as a step relation of registrations and callbacks.
  \<^item> \<open>NameCrypto\<close>, \<open>CommandAuth\<close>, \<open>NameCryptoM\<close>: \<^verbatim>\<open>namecrypto/authentication.c\<close> and
    \<^verbatim>\<open>encryption.c\<close>, their properties, and the commands of \<^verbatim>\<open>methods_namecrypto.c\<close>.
    \<open>NameCryptoPy\<close>: the functions of \<^verbatim>\<open>NameCrypto.py\<close> over these commands.
  \<^item> This theory: a property that spans components, a command that travels as an interest
    (\<open>authenticated_interest\<close>).

  \<^bold>\<open>What is shown.\<close>
  Wire forms: encoders write the fields of an object in order, and decoders give them back, with what
  is lost stated (an interest's exclusion filter, the fractions of its lifetime below \<open>1/4096\<close> second and
  its bits above 24, a freshness of zero, the wire form of most decoded objects). Names compare in
  the canonical order, so numbered names sort as their numbers and the two prefix tests of the package
  agree on byte strings. Content is cut in segments whose concatenation it is. Both ways of matching a
  name pattern decide its language, its groups hold the pieces of the name, and bad patterns are refused.
  The round trip of a packet composes name, signature, signed information, key locator and content
  through signing, \<^verbatim>\<open>toWire\<close> and \<^verbatim>\<open>fromWire\<close>.
  State: the parsed form kept in a packet's capsule is never noticed, that of an interest is after a
  failure; the class cache, the run list and the callback capsules keep their invariants in every
  interleaving. The lock of a face is held by the methods that take it, in a program with one thread
  and no callbacks inside commands; with two threads, or such callbacks, it fails. The event loop
  calls each event at most once and in order and can always go on if events return and schedule none, and
  otherwise may block for ever.
  Resources: destructors release what a capsule owns, references on closures are exactly those of
  the capsules libndn holds; the PEM commands close what they open.
  Security: keys come from a generator that was seeded; the sequence numbers of accepted commands
  increase, and acceptance means a right MAC and an age within the bound modulo \<open>2^32\<close> microseconds; but a
  forged command moves the receiver's state, and what follows an authenticator is not protected.
  Errors: which inputs abort, crash or are refused, and two features that cannot work
  as they are (callbacks, and the command authenticators with assertions).

  \<^bold>\<open>Bounds and termination.\<close> All functions of the model are total. The walk over a
  component's header reads inside the buffer or is \<open>Undef\<close>; components shorter than \<open>2^31\<close> bytes keep
  \<^verbatim>\<open>int\<close> sizes positive, hence that hypothesis of the round trips. \<open>cd_skip\<close> of the decoder
  instance has as fuel the bytes left, one more than the headers it can meet. Matching recurses on
  matchers, lengths and the repetitions left, reading a pattern on the rest of its text; Python's limit
  on the depth of calls is not modelled: a pattern nested deeper is outside what is said of
  refusals, and the properties of matching are about patterns that repeat
  no group that accepts the empty name, where a repetition is no deeper than the name is long. Freshness of
  commands is stated modulo \<open>2^32\<close> microseconds, as the code computes it.

  \<^bold>\<open>Not modelled.\<close> Reference counts other than those on capsules and closures; code under
  \<^verbatim>\<open>#if 0\<close> or in comments (the keystore of \<^verbatim>\<open>methods_key.c\<close>, the exclusion decoder of
  \<^verbatim>\<open>methods_interest.c\<close>) and the trace output under debugging macros at the places that call it;
  what only Python 3 builds compile. Of the package: the printed forms and the debug log, the
  round of the event loop over \<^verbatim>\<open>select\<close>, the repository and the discovery of prefixes, which are
  input and output over the commands modelled here; the examples and the tests.
\<close>

section \<open>A property that spans components\<close>

text \<open>
  C1. A command goes from a client to a fixture as an interest, in a build without assertions (no
  other can make a state). The client's name is
  authenticated, the capsule's bytes are decoded into a \<^verbatim>\<open>Name\<close> (the client's name and
  one component more), an interest of that name is encoded and decoded, and
  the name the fixture finds in it verifies with the key the application key was derived
  from, if the command's number is above the fixture's and its age is less than \<open>2^31\<close>
  microseconds and at most \<open>d\<close> milliseconds, \<open>0 < d < 2^64\<close>; the same interest at any later time is a
  duplicate. The interest may have other fields \<open>g\<close> that the encoder accepts and the
  decoder can read, and the library is assumed to parse its own encoding of them; the other assumptions are the laws of the
  library and of the cryptographic functions. The package's own
  \<^verbatim>\<open>authenticate_command\<close> raises \<^verbatim>\<open>TypeError\<close> instead of giving the name, after it
  has moved the client's state.
\<close>

theorem authenticated_interest:
  assumes "crypto_ready C" "buffer_writer C" "element_reader C" "ndebug C" "\<forall>b. str (PyBytes b) = Ret b"
    and "pre \<noteq> []" "length app < 65536" "fk \<noteq> []"
    and "generate_application_key C (PyBytes fk) (PyBytes app) = Ret key"
    and "bnd (name_ndn_data C (name_obj pre)) (\<lambda>n.
          cmd_nc_authenticate_command C sent [state_capsule st, n, PyBytes app, key]) = Ret (box NAME wire, st')"
    and "length wire < 2 ^ 31" "wall_clock sent" "seq cur < seq st'"
    and "\<bar>elapsed_us sent arrived\<bar> < 2 ^ 31" "\<bar>elapsed_us sent arrived\<bar> div 1000 \<le> d" "0 < d" "d < 2 ^ 64"
    and "encodable g" "readable g" "\<forall>cs. parses_interest C (g\<lparr>f_name := cs\<rparr>)"
  shows "\<exists>cs i cur'. cmd_dump_charbuf C (box NAME wire) = Ret (PyBytes wire)
    \<and> Name_fromWire C str (PyBytes wire) = Some (Ret (name_obj cs)) \<and> prefix pre cs
    \<and> bnd (cmd_Interest_obj_to_ndn C (interest_obj (g\<lparr>f_name := cs\<rparr>)))
        (\<lambda>v. fst (cmd_Interest_obj_from_ndn C v)) = Ret i
    \<and> bnd (py_getattr i ''name'') (\<lambda>n.
        verify_command C arrived (state_capsule cur) n (PyInt d) [(''fixture_key'', PyBytes fk)])
      = Ret (PyBool True, Some cur')
    \<and> bnd (py_getattr i ''name'') (\<lambda>n.
        verify_command C later (state_capsule cur') n (PyInt d) [(''fixture_key'', PyBytes fk)])
      = Ret (PyInt FAIL_DUPLICATE_INTEREST, Some cur')
    \<and> authenticate_command C sent (state_capsule st) (name_obj pre) (PyBytes app) key = (Raise TypeError, Some st')"
proof -
  have nl: "name_library C" and ok: "allocs_ok C"
    using assms(1) by (simp_all add: crypto_ready_def)
  have data: "name_ndn_data C (name_obj cs) = Ret (box NAME (name_wire cs))" for cs
    using name_library.ndn_data_of [OF nl ok, of "map PyBytes cs"] by (simp add: name_obj_of)
  obtain app_id where app_id: "cmd_nc_app_id C (PyBytes app) = Ret app_id" "cmd_nc_app_key C [PyBytes fk, app_id] = Ret key"
    using assms(9) by (auto simp: generate_application_key_Ret)
  have made: "cmd_nc_authenticate_command C sent [state_capsule st, box NAME (name_wire pre), PyBytes app, key]
      = Ret (box NAME wire, st')"
    using assms(10) by (simp add: data)
  obtain c cur' where c: "wire = name_wire (pre @ [c])"
    "cmd_nc_verify_command C arrived (state_capsule cur) (box NAME wire) (PyInt d) (PyBytes fk) PyNone = Ret (PyBool True, Some cur')"
    "cmd_nc_verify_command C later (state_capsule cur') (box NAME wire) (PyInt d) (PyBytes fk) PyNone
      = Ret (PyInt FAIL_DUPLICATE_INTEREST, Some cur')"
    using command_through_python [OF assms(1,2,4,6-8) app_id made refl assms(11-17)] by blast
  let ?cs = "pre @ [c]" and ?f = "g\<lparr>f_name := pre @ [c]\<rparr>"
  have "\<forall>x \<in> set ?cs. length (component_wire x) < 2 ^ 31"
    using assms(11) component_within_name [of _ ?cs] by (auto simp: c(1) intro: le_less_trans)
  moreover obtain r p where "l_parse_interest C (interest_wire C ?f) = (r, p)" "0 \<le> r" "locates C p ?f (interest_wire C ?f)"
    using assms(20) unfolding parses_interest_def by blast
  moreover have "encodable ?f" "readable ?f"
    using assms(18,19) by (simp_all add: encodable_def readable_def)
  ultimately have "bnd (cmd_Interest_obj_to_ndn C (interest_obj ?f)) (\<lambda>v. fst (cmd_Interest_obj_from_ndn C v))
      = Ret (interest_obj (InterestM.received ?f))"
    using interest_transfer [OF nl assms(2,3) ok] by simp
  moreover have "py_getattr (interest_obj (InterestM.received ?f)) ''name'' = Ret (PyConst (name_obj ?cs))"
    by (simp add: interest_obj_def InterestM.received_def)
  moreover have "name_ndn_data C (PyConst (name_obj ?cs)) = Ret (box NAME wire)"
    using data c(1) by simp
  moreover have "Name_fromWire C str (PyBytes wire) = Some (Ret (name_obj ?cs))"
    using ok by (intro fromWire_name [OF nl]) (simp_all add: assms(5) c(1))
  ultimately show ?thesis
    using c(2,3) verify_command_fixture [of C "PyConst (name_obj ?cs)" "box NAME wire"]
      dump_box [of NAME C wire] authenticate_command_lost [OF assms(10)]
    by (intro exI [of _ ?cs] exI [of _ "interest_obj (InterestM.received ?f)"] exI [of _ cur'])
      (simp add: charbuf_types_def)
qed

theorem authenticated_interest_witness:
  "\<exists>wire st' cs i cur'. bnd (name_ndn_data named_interests (name_obj [[1, 2]])) (\<lambda>n.
        cmd_nc_authenticate_command named_interests (1000, 5)
          [state_capsule demo_state, n, PyBytes [0], PyBytes (replicate 32 1)]) = Ret (box NAME wire, st')
    \<and> bnd (cmd_Interest_obj_to_ndn named_interests (interest_obj (blank cs)))
        (\<lambda>v. fst (cmd_Interest_obj_from_ndn named_interests v)) = Ret i
    \<and> bnd (py_getattr i ''name'') (\<lambda>n. verify_command named_interests (1001, 5) (state_capsule state_init) n
          (PyInt 2000) [(''fixture_key'', PyBytes [1])]) = Ret (PyBool True, Some cur')"
proof -
  let ?C = named_interests
  let ?mac = "c_hmac ?C (replicate 32 1) (name_wire [[1, 2]] @ [0] @ state_wire demo_sent)"
  let ?wire = "name_wire [[1, 2], demo_component ?mac]"
  have sums: "c_sha256 ?C m = replicate 32 (sum_list m)" "c_hmac ?C k m = replicate 32 (sum_list k + sum_list m)"
    "mem ?C a" for m k a
    by (simp_all add: named_interests_def release_crypto_def)
  have sent: "update_state (1000, 5) demo_state = demo_sent"
    by (simp add: update_state_def demo_state_def demo_sent_def)
  have nl: "name_library ?C" "allocs_ok ?C"
    using named_interests_laws(1) by (simp_all add: crypto_ready_def)
  then have made: "bnd (name_ndn_data ?C (name_obj [[1, 2]])) (\<lambda>n. cmd_nc_authenticate_command ?C (1000, 5)
        [state_capsule demo_state, n, PyBytes [0], PyBytes (replicate 32 1)]) = Ret (box NAME ?wire, demo_sent)"
    using authenticate_symm [OF named_interests_laws(1), of "replicate 32 1" "(1000, 5)" demo_state "[[1, 2]]" "[0]"]
      state_capsule_ndebug [OF named_interests_laws(4)] buffer_writer.append [OF named_interests_laws(2), of "[]"]
      New_charbuf_ok [of NAME ?C "\<lambda>v. Ret (v, demo_sent)" ?wire]
      name_library.ndn_data_of [OF nl, of "map PyBytes [[1, 2]]"]
    by (simp add: cmd_nc_authenticate_command_def APPKEYLEN_def charbuf_types_def sent demo_component_def name_obj_of
        item_component_def)
  have key: "generate_application_key ?C (PyBytes [1]) (PyBytes [0]) = Ret (PyBytes (replicate 32 1))"
    by (simp add: generate_application_key_def cmd_nc_app_id_def cmd_nc_app_key_def appID_def appKey_def KDF_def
        mem_read_def auth_lengths sum_list_replicate sums)
  have g: "encodable (blank [])" "readable (blank [])" "\<forall>cs. parses_interest ?C ((blank [])\<lparr>f_name := cs\<rparr>)"
    using named_interests_laws(5) by (simp_all add: encodable_def readable_def blank_def)
  have len: "length ?wire < 2 ^ 31"
    by (rule length_demo_component) (simp add: sums)
  have time: "wall_clock (1000, 5)" "seq state_init < seq demo_sent"
    "\<bar>elapsed_us (1000, 5) (1001, 5)\<bar> < 2 ^ 31" "\<bar>elapsed_us (1000, 5) (1001, 5)\<bar> div 1000 \<le> 2000"
    "(0 :: int) < 2000" "(2000 :: int) < 2 ^ 64"
    by (simp_all add: wall_clock_def demo_sent_def state_init_def elapsed_us_def)
  have small: "\<forall>b. bytes_as_string_and_size (PyBytes b) = Ret b" "[[1, 2]] \<noteq> []" "length [0] < 65536" "[1] \<noteq> []"
    by simp_all
  have named: "(blank [])\<lparr>f_name := cs\<rparr> = blank cs" for cs
    by (simp add: blank_def)
  show ?thesis
    using authenticated_interest [OF named_interests_laws(1-4) small key made len time g] made
    unfolding named by blast
qed

end
